(* ===== verification/Go_Base.thy ===== *)
theory Go_Base
  imports Main "HOL-Library.Word"
begin

text \<open>
  The prelude of the development: the Go types and standard-library functions that the
  components share.

  \<^item> Go's \<open>int\<close> and \<open>int64\<close> are HOL integers with the two's-complement wrap-around
    written out (\<open>i64\<close>) after every addition, subtraction, product or shift.
    \<open>int32\<close> and \<open>uint64\<close> values are words of their width.
  \<^item> \<open>time.Time\<close> is the number of nanoseconds since the Unix epoch, \<open>time.Duration\<close> an
    \<open>int64\<close> number of nanoseconds. Readings of \<open>time.Now()\<close> are arguments of the model.
  \<^item> \<open>float64\<close> is the 64-bit pattern; what computes with floats is in \<open>Go_Float\<close>.
  \<^item> strings are lists of bytes (\<open>string\<close>), as in Go.
  \<^item> \<open>strconv.ParseInt\<close>, \<open>strconv.FormatInt\<close>, \<open>strings.*\<close>, \<open>url.PathEscape\<close> and
    \<open>http.Header.Get\<close> are written out on bytes; the generic lemmas about them follow.
\<close>

named_theorems go_arith \<open>wrap-around and time arithmetic\<close>
named_theorems frame_simps \<open>what an operation leaves unchanged\<close>

section \<open>Integers\<close>

type_synonym float64 = "64 word"
type_synonym int32 = "32 word"
type_synonym uint64 = "64 word"

definition i64 :: "int \<Rightarrow> int" where
  "i64 x = (x + 2 ^ 63) mod 2 ^ 64 - 2 ^ 63"

definition in_i64 :: "int \<Rightarrow> bool" where
  "in_i64 x \<longleftrightarrow> - (2 ^ 63) \<le> x \<and> x < 2 ^ 63"

lemma i64_id [go_arith]: "in_i64 x \<Longrightarrow> i64 x = x"
  by (simp add: i64_def in_i64_def)

lemma i64_range [simp]: "in_i64 (i64 x)"
proof -
  have "0 \<le> (x + 2 ^ 63) mod 2 ^ 64" and "(x + 2 ^ 63) mod 2 ^ 64 < (2 ^ 64 :: int)"
    by (auto intro: pos_mod_bound)
  then show ?thesis by (simp add: i64_def in_i64_def)
qed

lemma i64_i64 [simp]: "i64 (i64 x) = i64 x"
  by (rule i64_id) simp

lemma i64_cong_mod: "i64 x = i64 y \<longleftrightarrow> x mod 2 ^ 64 = y mod 2 ^ 64"
proof -
  have "i64 x = i64 y \<longleftrightarrow> (x + 2 ^ 63) mod 2 ^ 64 = (y + 2 ^ 63) mod 2 ^ 64"
    by (simp add: i64_def)
  also have "\<dots> \<longleftrightarrow> x mod 2 ^ 64 = y mod 2 ^ 64"
    by (simp add: mod_eq_dvd_iff)
  finally show ?thesis .
qed

lemma i64_mod [simp]: "i64 x mod 2 ^ 64 = x mod 2 ^ 64"
  using i64_cong_mod [of "i64 x" x] by simp

lemma i64_add_left [simp]: "i64 (i64 a + b) = i64 (a + b)"
  unfolding i64_cong_mod by (metis i64_mod mod_add_left_eq)

lemma i64_add_right [simp]: "i64 (a + i64 b) = i64 (a + b)"
  using i64_add_left [of b a] by (simp add: add.commute)

text \<open>\<open>x << n\<close> on a 64-bit signed integer: a shift by 64 or more gives 0.\<close>

definition shl64 :: "int \<Rightarrow> uint64 \<Rightarrow> int" where
  "shl64 x n = (if 64 \<le> n then 0 else i64 (x * 2 ^ unat n))"

section \<open>Time\<close>

type_synonym time = int
type_synonym duration = int

definition millisecond :: duration where "millisecond = 1000000"
definition second :: duration where "second = 1000000000"
definition minute :: duration where "minute = 60 * second"

lemmas time_units = millisecond_def second_def minute_def

text \<open>The zero \<open>time.Time\<close>: January 1, year 1, 00:00:00 UTC.\<close>

definition zero_time :: time where
  "zero_time = - 62135596800 * second"

text \<open>\<open>Duration(n) * unit\<close>: an \<open>int64\<close> product.\<close>

definition dur_mul :: "int \<Rightarrow> duration \<Rightarrow> duration" where
  "dur_mul n d = i64 (n * d)"

definition time_add :: "time \<Rightarrow> duration \<Rightarrow> time" where
  "time_add t d = t + d"

text \<open>\<open>t.Sub(u)\<close>, \<open>time.Until\<close> and \<open>time.Since\<close> saturate at the ends of \<open>int64\<close>.\<close>

definition time_sub :: "time \<Rightarrow> time \<Rightarrow> duration" where
  "time_sub t u = max (- (2 ^ 63)) (min (2 ^ 63 - 1) (t - u))"

definition unix_milli :: "time \<Rightarrow> int" where
  "unix_milli t = i64 (t div millisecond)"

text \<open>\<open>time.Unix(0, ms * int64(time.Millisecond))\<close>: the product wraps.\<close>

definition from_unix_milli :: "int \<Rightarrow> time" where
  "from_unix_milli ms = i64 (ms * millisecond)"

lemma time_sub_pos_iff [go_arith]: "0 < time_sub t u \<longleftrightarrow> u < t"
  by (auto simp: time_sub_def)

lemma time_sub_less_iff [go_arith]:
  "0 < d \<Longrightarrow> d < 2 ^ 63 \<Longrightarrow> time_sub t u < d \<longleftrightarrow> t - u < d"
  by (auto simp: time_sub_def)

lemma dur_mul_second [go_arith]:
  "\<bar>n\<bar> \<le> 9223372036 \<Longrightarrow> dur_mul n second = n * second"
  unfolding dur_mul_def second_def by (rule i64_id) (simp add: in_i64_def abs_le_iff)

text \<open>A timestamp in milliseconds survives the trip through \<open>time.Time\<close>, and a time comes
  back truncated to its millisecond, as long as it lies in the \<open>int64\<close> nanosecond range.\<close>

lemma unix_milli_trunc:
  assumes "0 \<le> t" and "t < 2 ^ 63"
  shows "from_unix_milli (unix_milli t) = t - t mod millisecond"
proof -
  have "in_i64 (t div millisecond)" and p: "in_i64 (t div millisecond * millisecond)"
    using assms by (auto simp: in_i64_def millisecond_def)
  then have "from_unix_milli (unix_milli t) = t div millisecond * millisecond"
    by (simp add: from_unix_milli_def unix_milli_def i64_id)
  then show ?thesis by (simp add: minus_mod_eq_div_mult)
qed

lemma from_unix_milli_id:
  "0 \<le> ms \<Longrightarrow> ms \<le> 9223372036854 \<Longrightarrow> from_unix_milli ms = ms * millisecond"
  unfolding from_unix_milli_def by (rule i64_id) (simp add: in_i64_def millisecond_def)

section \<open>Strings\<close>

text \<open>\<open>strings.HasPrefix\<close>, \<open>strings.TrimPrefix\<close>, \<open>strings.Split\<close> by a one-byte separator,
  and \<open>strings.TrimSpace\<close> on ASCII input.\<close>

definition has_prefix :: "string \<Rightarrow> string \<Rightarrow> bool" where
  "has_prefix s p \<longleftrightarrow> take (length p) s = p"

definition trim_prefix :: "string \<Rightarrow> string \<Rightarrow> string" where
  "trim_prefix s p = (if has_prefix s p then drop (length p) s else s)"

fun split_on :: "char \<Rightarrow> string \<Rightarrow> string list" where
  "split_on sep [] = [[]]"
| "split_on sep (c # cs) =
     (if c = sep then [] # split_on sep cs
      else case split_on sep cs of [] \<Rightarrow> [[c]] | w # ws \<Rightarrow> (c # w) # ws)"

definition is_space :: "char \<Rightarrow> bool" where
  "is_space c \<longleftrightarrow> (of_char c :: nat) \<in> {9, 10, 11, 12, 13, 32}"

definition trim_space :: "string \<Rightarrow> string" where
  "trim_space s = rev (dropWhile is_space (rev (dropWhile is_space s)))"

lemma has_prefix_append [simp]: "has_prefix (p @ s) p"
  by (simp add: has_prefix_def)

lemma trim_prefix_append [simp]: "trim_prefix (p @ s) p = s"
  by (simp add: trim_prefix_def)

lemma has_prefix_iff: "has_prefix s p \<longleftrightarrow> (\<exists>t. s = p @ t)"
  by (metis append_take_drop_id has_prefix_append has_prefix_def)

section \<open>Decimal numbers\<close>

text \<open>\<open>strconv.FormatInt(n, 10)\<close>, and \<open>strconv.ParseInt(s, 10, bits)\<close> with its syntax and range
  errors as \<open>None\<close>; \<open>strconv.Atoi\<close> parses a 64-bit \<open>int\<close>.\<close>

definition digit_char :: "nat \<Rightarrow> char" where
  "digit_char d = char_of (48 + d)"

definition digit_val :: "char \<Rightarrow> nat option" where
  "digit_val c = (let n = of_char c in if 48 \<le> n \<and> n \<le> 57 then Some (n - 48) else None)"

fun format_nat :: "nat \<Rightarrow> string" where
  "format_nat n = (if n < 10 then [digit_char n] else format_nat (n div 10) @ [digit_char (n mod 10)])"

declare format_nat.simps [simp del]

definition format_int :: "int \<Rightarrow> string" where
  "format_int n = (if n < 0 then CHR ''-'' # format_nat (nat (- n)) else format_nat (nat n))"

fun parse_digits :: "nat \<Rightarrow> string \<Rightarrow> nat option" where
  "parse_digits acc [] = Some acc"
| "parse_digits acc (c # cs) =
     (case digit_val c of None \<Rightarrow> None | Some d \<Rightarrow> parse_digits (10 * acc + d) cs)"

definition parse_nat :: "string \<Rightarrow> nat option" where
  "parse_nat s = (if s = [] then None else parse_digits 0 s)"

definition parse_int :: "nat \<Rightarrow> string \<Rightarrow> int option" where
  "parse_int bits s =
     (let neg = (take 1 s = ''-''); body = (if take 1 s \<in> {''-'', ''+''} then drop 1 s else s)
      in case parse_nat body of
           None \<Rightarrow> None
         | Some n \<Rightarrow>
             let v = (if neg then - int n else int n)
             in if - (2 ^ (bits - 1)) \<le> v \<and> v < 2 ^ (bits - 1) then Some v else None)"

definition atoi :: "string \<Rightarrow> int option" where
  "atoi s = parse_int 64 s"

lemma digit_val_char [simp]: "d < 10 \<Longrightarrow> digit_val (digit_char d) = Some d"
  by (simp add: digit_val_def digit_char_def Let_def)

lemma parse_digits_append:
  "parse_digits acc (s @ t) = (case parse_digits acc s of None \<Rightarrow> None | Some a \<Rightarrow> parse_digits a t)"
  by (induction s arbitrary: acc) (auto split: option.splits)

lemma parse_digits_format: "parse_digits 0 (format_nat n) = Some n"
proof (induction n rule: format_nat.induct)
  case (1 n)
  then show ?case
    by (cases "n < 10") (auto simp: format_nat.simps [of n] parse_digits_append)
qed

lemma format_nat_ne [simp]: "format_nat n \<noteq> []"
  by (subst format_nat.simps) simp

lemma format_nat_digits: "c \<in> set (format_nat n) \<Longrightarrow> \<exists>d<10. c = digit_char d"
proof (induction n rule: format_nat.induct)
  case (1 n)
  show ?case
  proof (cases "n < 10")
    case True
    with 1 show ?thesis by (auto simp: format_nat.simps [of n])
  next
    case False
    with 1 have "(\<exists>d<10. c = digit_char d) \<or> c = digit_char (n mod 10)"
      by (auto simp: format_nat.simps [of n])
    then show ?thesis by (metis mod_less_divisor zero_less_numeral)
  qed
qed

lemma digit_char_no_sign: "d < 10 \<Longrightarrow> digit_char d \<noteq> CHR ''-'' \<and> digit_char d \<noteq> CHR ''+''"
  by (auto simp: digit_char_def dest!: arg_cong [where f = "of_char :: char \<Rightarrow> nat"])

lemma format_nat_no_sign: "take 1 (format_nat n) \<noteq> ''-'' \<and> take 1 (format_nat n) \<noteq> ''+''"
proof -
  obtain c cs where f: "format_nat n = c # cs" by (metis format_nat_ne neq_Nil_conv)
  then obtain d where "d < 10" and "c = digit_char d"
    using format_nat_digits [of c n] by auto
  then show ?thesis using f digit_char_no_sign by simp
qed

lemma parse_nat_format [simp]: "parse_nat (format_nat n) = Some n"
  by (simp add: parse_nat_def parse_digits_format)

lemma parse_format_int:
  assumes "- (2 ^ (bits - 1)) \<le> n" and "n < 2 ^ (bits - 1)"
  shows "parse_int bits (format_int n) = Some n"
proof (cases "n < 0")
  case True
  with assms show ?thesis by (simp add: parse_int_def format_int_def)
next
  case False
  with assms format_nat_no_sign [of "nat n"] show ?thesis
    by (simp add: parse_int_def format_int_def Let_def)
qed

lemma format_nat_inj: "format_nat m = format_nat n \<Longrightarrow> m = n"
  by (metis option.inject parse_nat_format)

lemma format_int_inj: "format_int m = format_int n \<longleftrightarrow> m = n"
proof
  assume eq: "format_int m = format_int n"
  have sign: "format_nat k \<noteq> CHR ''-'' # cs" for k cs
    using format_nat_no_sign [of k] by auto
  show "m = n"
  proof (cases "m < 0 \<longleftrightarrow> n < 0")
    case True
    with eq have "nat \<bar>m\<bar> = nat \<bar>n\<bar>"
      by (auto simp: format_int_def dest!: format_nat_inj split: if_splits)
    with True show ?thesis by linarith
  next
    case False
    with eq show ?thesis
      using sign sign [symmetric] by (simp add: format_int_def split: if_splits)
  qed
qed simp

lemma atoi_format: "in_i64 n \<Longrightarrow> atoi (format_int n) = Some n"
  by (simp add: atoi_def parse_format_int in_i64_def)

lemma parse_int_range: "parse_int bits s = Some v \<Longrightarrow> - (2 ^ (bits - 1)) \<le> v \<and> v < 2 ^ (bits - 1)"
  by (auto simp: parse_int_def Let_def split: option.splits if_splits)

lemma atoi_in_i64: "atoi s = Some v \<Longrightarrow> in_i64 v"
  using parse_int_range [of 64 s v] by (simp add: atoi_def in_i64_def)

lemma parse_int_Nil [simp]: "parse_int bits [] = None"
  by (simp add: parse_int_def parse_nat_def)

section \<open>HTTP headers and responses\<close>

text \<open>
  \<open>textproto.CanonicalMIMEHeaderKey\<close>: a key whose bytes are all token bytes gets an upper-case
  letter at its start and after each hyphen and lower-case letters elsewhere; any other key is
  left alone. A header maps canonical keys to the first of their values, which is what
  \<open>Header.Get\<close> returns; \<open>Header.Set\<close> replaces the values.
\<close>

definition is_lower :: "char \<Rightarrow> bool" where
  "is_lower c \<longleftrightarrow> 97 \<le> (of_char c :: nat) \<and> (of_char c :: nat) \<le> 122"

definition is_upper :: "char \<Rightarrow> bool" where
  "is_upper c \<longleftrightarrow> 65 \<le> (of_char c :: nat) \<and> (of_char c :: nat) \<le> 90"

definition is_digit :: "char \<Rightarrow> bool" where
  "is_digit c \<longleftrightarrow> 48 \<le> (of_char c :: nat) \<and> (of_char c :: nat) \<le> 57"

definition to_upper :: "char \<Rightarrow> char" where
  "to_upper c = (if is_lower c then char_of ((of_char c :: nat) - 32) else c)"

definition to_lower :: "char \<Rightarrow> char" where
  "to_lower c = (if is_upper c then char_of ((of_char c :: nat) + 32) else c)"

definition is_token :: "char \<Rightarrow> bool" where
  "is_token c \<longleftrightarrow> is_lower c \<or> is_upper c \<or> is_digit c
     \<or> (of_char c :: nat) \<in> {33, 35, 36, 37, 38, 39, 42, 43, 45, 46, 94, 95, 96, 124, 126}"

fun canon_bytes :: "bool \<Rightarrow> string \<Rightarrow> string" where
  "canon_bytes up [] = []"
| "canon_bytes up (c # cs) =
     (if up then to_upper c else to_lower c) # canon_bytes (c = CHR ''-'') cs"

definition canonical_key :: "string \<Rightarrow> string" where
  "canonical_key k = (if list_all is_token k then canon_bytes True k else k)"

type_synonym header = "string \<rightharpoonup> string"

definition header_get :: "header \<Rightarrow> string \<Rightarrow> string" where
  "header_get h k = (case h (canonical_key k) of None \<Rightarrow> [] | Some v \<Rightarrow> v)"

definition header_set :: "header \<Rightarrow> string \<Rightarrow> string \<Rightarrow> header" where
  "header_set h k v = h(canonical_key k \<mapsto> v)"

lemma header_get_empty [simp]: "header_get Map.empty k = []"
  by (simp add: header_get_def)

lemma header_get_set [simp]:
  "header_get (header_set h k v) k' = (if canonical_key k' = canonical_key k then v else header_get h k')"
  by (simp add: header_get_def header_set_def)

text \<open>A response: its status, its headers and its body, whose type is left open
  (the components below read it through decoders that are arguments).\<close>

record 'b http_response =
  StatusCode :: int
  Header :: header
  Body :: 'b

record http_request =
  ReqMethod :: string
  ReqURL :: string
  ReqHeader :: header

definition status_ok :: int where "status_ok = 200"
definition status_not_modified :: int where "status_not_modified = 304"
definition status_bad_request :: int where "status_bad_request = 400"
definition status_method_not_allowed :: int where "status_method_not_allowed = 405"
definition status_too_many_requests :: int where "status_too_many_requests = 429"

lemmas http_statuses = status_ok_def status_not_modified_def status_bad_request_def
  status_method_not_allowed_def status_too_many_requests_def

end
