(* ===== verification/Esi_Errors.thy ===== *)
theory Esi_Errors
  imports Go_Base
begin

text \<open>
  Errors as the code classifies them, from \<open>internal/core/esi/rate_limited_client.go\<close>:
  the \<open>RateLimitError\<close> struct and the three functions that look for one in an error chain.

  A Go \<open>error\<close> is a chain: \<open>fmt.Errorf\<close> with a \<open>%w\<close> verb wraps another error, and
  \<open>errors.As\<close> walks the chain from the outside. A nil error is \<open>None\<close> of \<open>go_error option\<close>.
  \<open>ErrRedisNil\<close> is the sentinel \<open>redis.Nil\<close>, \<open>ErrDeadline\<close> is \<open>context.DeadlineExceeded\<close>;
  every other error is its text.
\<close>

record RateLimitError =
  Retryable :: bool
  RetryAfter :: time
  Reason :: string
  Group :: string
  TokenUsed :: int
  TokenLimit :: int
  EstimatedTokens :: int

datatype go_error =
    ErrText string
  | ErrRedisNil
  | ErrDeadline
  | ErrWrap string go_error
  | ErrRateLimit RateLimitError

fun errors_as_rate_limit :: "go_error \<Rightarrow> RateLimitError option" where
  "errors_as_rate_limit (ErrRateLimit e) = Some e"
| "errors_as_rate_limit (ErrWrap _ e) = errors_as_rate_limit e"
| "errors_as_rate_limit _ = None"

definition IsRetryableRateLimitError :: "go_error option \<Rightarrow> bool" where
  "IsRetryableRateLimitError err =
     (case Option.bind err errors_as_rate_limit of None \<Rightarrow> False | Some e \<Rightarrow> Retryable e)"

definition IsRateLimitError :: "go_error option \<Rightarrow> bool" where
  "IsRateLimitError err = (Option.bind err errors_as_rate_limit \<noteq> None)"

definition GetRateLimitError :: "go_error option \<Rightarrow> RateLimitError option" where
  "GetRateLimitError err = Option.bind err errors_as_rate_limit"

text \<open>The text of a rate-limit error; \<open>now\<close> is read by \<open>time.Until\<close>, the formatting of instants and periods
  is that of \<open>fmt\<close>.\<close>

definition RateLimitError_Error :: "(time \<Rightarrow> string) \<Rightarrow> (duration \<Rightarrow> string) \<Rightarrow> time \<Rightarrow> RateLimitError \<Rightarrow> string" where
  "RateLimitError_Error format_time format_duration now e =
     (if Retryable e then
        (let waitTime = time_sub (RetryAfter e) now
         in ''rate limit '' @ Reason e @ '' (retryable, retry after '' @ format_time (RetryAfter e)
              @ '', waiting '' @ format_duration waitTime @ '')'')
      else ''rate limit '' @ Reason e @ '' (non-retryable)'')"

lemma IsRateLimitError_simps [simp]:
  "\<not> IsRateLimitError None"
  "\<not> IsRateLimitError (Some (ErrText s))"
  "\<not> IsRateLimitError (Some ErrRedisNil)"
  "\<not> IsRateLimitError (Some ErrDeadline)"
  "IsRateLimitError (Some (ErrWrap s e)) = IsRateLimitError (Some e)"
  "IsRateLimitError (Some (ErrRateLimit r))"
  by (simp_all add: IsRateLimitError_def)

lemma IsRetryable_simps [simp]:
  "\<not> IsRetryableRateLimitError None"
  "\<not> IsRetryableRateLimitError (Some (ErrText s))"
  "\<not> IsRetryableRateLimitError (Some ErrRedisNil)"
  "\<not> IsRetryableRateLimitError (Some ErrDeadline)"
  "IsRetryableRateLimitError (Some (ErrWrap s e)) = IsRetryableRateLimitError (Some e)"
  "IsRetryableRateLimitError (Some (ErrRateLimit r)) = Retryable r"
  by (simp_all add: IsRetryableRateLimitError_def)

lemma IsRateLimitError_iff: "IsRateLimitError err \<longleftrightarrow> (\<exists>r. GetRateLimitError err = Some r)"
  by (auto simp: IsRateLimitError_def GetRateLimitError_def)

lemma IsRetryable_iff:
  "IsRetryableRateLimitError err \<longleftrightarrow> (\<exists>r. GetRateLimitError err = Some r \<and> Retryable r)"
  by (auto simp: IsRetryableRateLimitError_def GetRateLimitError_def split: option.splits)

lemma IsRetryable_imp_rate_limit: "IsRetryableRateLimitError err \<Longrightarrow> IsRateLimitError err"
  by (auto simp: IsRateLimitError_iff IsRetryable_iff)

end
