(* ===== verification/Token_Window.thy ===== *)
theory Token_Window
  imports Esi_Errors
begin

text \<open>
  The specification of a floating-window token bucket, and the interface between the bucket and
  the requests it admits. A history of consumptions (\<open>TokenConsumption\<close> in
  \<open>internal/core/esi/rate_limited_client.go\<close>) weighs, at an instant, the tokens consumed in the
  window that ends there. The locale \<open>window_bucket\<close> states what the request path relies on
  when it asks the bucket for admission and charges the response to it, and bounds what any
  sequence of requests spends; \<open>Group_Limiter\<close> interprets it on the code's limiter.
\<close>

section \<open>Consumptions and windows\<close>

record TokenConsumption =
  Tokens :: int
  Consumed :: time

text \<open>The specification of the bucket: what a history of consumptions weighs in the window
  that ends at \<open>t\<close>. A consumption counts while it is younger than the window.\<close>

definition in_window :: "duration \<Rightarrow> time \<Rightarrow> TokenConsumption \<Rightarrow> bool" where
  "in_window w t c \<longleftrightarrow> t - w < Consumed c"

definition tokens_sum :: "TokenConsumption list \<Rightarrow> int" where
  "tokens_sum cs = sum_list (map Tokens cs)"

definition window_tokens :: "duration \<Rightarrow> time \<Rightarrow> TokenConsumption list \<Rightarrow> int" where
  "window_tokens w t cs = tokens_sum (filter (in_window w t) cs)"

lemma tokens_sum_simps [simp]:
  "tokens_sum [] = 0"
  "tokens_sum (c # cs) = Tokens c + tokens_sum cs"
  "tokens_sum (cs @ ds) = tokens_sum cs + tokens_sum ds"
  by (simp_all add: tokens_sum_def)

lemma window_filter_later:
  "t \<le> u \<Longrightarrow> filter (in_window w u) (filter (in_window w t) cs) = filter (in_window w u) cs"
  by (auto simp: in_window_def intro: filter_cong)

lemma window_tokens_later:
  "t \<le> u \<Longrightarrow> window_tokens w u (filter (in_window w t) cs) = window_tokens w u cs"
  unfolding window_tokens_def by (simp only: window_filter_later)

lemma window_tokens_append [simp]:
  "window_tokens w t (cs @ ds) = window_tokens w t cs + window_tokens w t ds"
  by (simp add: window_tokens_def)

lemma window_tokens_Nil [simp]: "window_tokens w t [] = 0"
  by (simp add: window_tokens_def)

lemma window_tokens_single [simp]:
  "window_tokens w t [c] = (if t - w < Consumed c then Tokens c else 0)"
  by (simp add: window_tokens_def in_window_def)

lemma tokens_sum_nonneg: "(\<And>c. c \<in> set cs \<Longrightarrow> 0 \<le> Tokens c) \<Longrightarrow> 0 \<le> tokens_sum cs"
  unfolding tokens_sum_def by (rule sum_list_nonneg) auto

lemma tokens_sum_filter_mono:
  assumes "\<And>c. c \<in> set cs \<Longrightarrow> 0 \<le> Tokens c" and "\<And>c. c \<in> set cs \<Longrightarrow> P c \<Longrightarrow> Q c"
  shows "tokens_sum (filter P cs) \<le> tokens_sum (filter Q cs)"
  using assms by (induction cs) (auto simp: add_increasing)

text \<open>What a complete history spends in the half-open interval of one window that ends at
  \<open>s\<close>.\<close>

definition interval_tokens :: "duration \<Rightarrow> time \<Rightarrow> TokenConsumption list \<Rightarrow> int" where
  "interval_tokens w s cs = tokens_sum (filter (\<lambda>c. s - w < Consumed c \<and> Consumed c \<le> s) cs)"

lemma interval_tokens_append:
  "interval_tokens w s (cs @ [c]) =
     interval_tokens w s cs + (if s - w < Consumed c \<and> Consumed c \<le> s then Tokens c else 0)"
  by (simp add: interval_tokens_def)

lemma interval_le_window:
  assumes "\<forall>c\<in>set cs. 0 \<le> Tokens c" and "t \<le> s"
  shows "interval_tokens w s cs \<le> window_tokens w t cs"
  unfolding interval_tokens_def window_tokens_def
  using assms by (intro tokens_sum_filter_mono) (auto simp: in_window_def)

lemma window_eq_interval:
  assumes "\<forall>c\<in>set cs. Consumed c \<le> s"
  shows "window_tokens w s cs = interval_tokens w s cs"
  unfolding interval_tokens_def window_tokens_def in_window_def
  using assms by (intro arg_cong [where f = tokens_sum] filter_cong) auto

section \<open>Visits\<close>

text \<open>
  One request as the bucket sees it: the three readings of the clock in the admission test, the
  two readings when the response is charged, and the response. \<open>serve\<close> runs requests one
  after the other and keeps, beside the bucket, the complete history of what was charged.
\<close>

record 'q visit =
  v_check :: time
  v_now :: time
  v_until :: time
  v_resp :: time
  v_clean :: time
  v_answer :: 'q

fun visits_ordered :: "time \<Rightarrow> 'q visit list \<Rightarrow> bool" where
  "visits_ordered t [] = True"
| "visits_ordered t (v # vs) =
     (t \<le> v_check v \<and> v_check v \<le> v_now v \<and> v_now v \<le> v_until v \<and> v_until v \<le> v_resp v
      \<and> v_resp v \<le> v_clean v \<and> visits_ordered (v_clean v) vs)"

fun serve :: "(time \<Rightarrow> time \<Rightarrow> time \<Rightarrow> 'g \<Rightarrow> 'g \<times> go_error option)
    \<Rightarrow> (time \<Rightarrow> time \<Rightarrow> 'q \<Rightarrow> 'g \<Rightarrow> 'g) \<Rightarrow> ('q \<Rightarrow> int)
    \<Rightarrow> 'g \<times> TokenConsumption list \<Rightarrow> 'q visit list \<Rightarrow> 'g \<times> TokenConsumption list" where
  "serve admit charge cost (g, h) [] = (g, h)"
| "serve admit charge cost (g, h) (v # vs) =
     (case admit (v_check v) (v_now v) (v_until v) g of
        (g', Some _) \<Rightarrow> serve admit charge cost (g', h) vs
      | (g', None) \<Rightarrow>
          serve admit charge cost
            (charge (v_resp v) (v_clean v) (v_answer v) g',
             h @ [\<lparr>Tokens = cost (v_answer v), Consumed = v_resp v\<rparr>]) vs)"

text \<open>The bucket and the history agree from \<open>t\<close> on, and no window of the history, past or
  present, is over the cap by more than the slack.\<close>

definition ledger :: "('g \<Rightarrow> bool) \<Rightarrow> ('g \<Rightarrow> int) \<Rightarrow> ('g \<Rightarrow> time \<Rightarrow> int) \<Rightarrow> duration \<Rightarrow> int \<Rightarrow> time
    \<Rightarrow> 'g \<Rightarrow> TokenConsumption list \<Rightarrow> bool" where
  "ledger ok cap held width slack t g h \<longleftrightarrow>
     ok g \<and> (\<forall>s\<ge>t. held g s = window_tokens width s h)
     \<and> (\<forall>c\<in>set h. Consumed c \<le> t \<and> 0 \<le> Tokens c)
     \<and> (\<forall>s. interval_tokens width s h \<le> cap g + slack)"

section \<open>The interface\<close>

locale window_bucket =
  fixes ok :: "'g \<Rightarrow> bool" and cap :: "'g \<Rightarrow> int" and held :: "'g \<Rightarrow> time \<Rightarrow> int"
    and admit :: "time \<Rightarrow> time \<Rightarrow> time \<Rightarrow> 'g \<Rightarrow> 'g \<times> go_error option"
    and charge :: "time \<Rightarrow> time \<Rightarrow> 'q \<Rightarrow> 'g \<Rightarrow> 'g"
    and cost :: "'q \<Rightarrow> int" and width :: duration and est :: int and peak :: int
  assumes cost_bounds: "0 \<le> cost q" "cost q \<le> peak"
    and ok_admit: "ok g \<Longrightarrow> ok (fst (admit t0 n u g))"
    and ok_charge: "ok g \<Longrightarrow> ok (charge r t1 q g)"
    and cap_admit: "cap (fst (admit t0 n u g)) = cap g"
    and cap_charge: "ok g \<Longrightarrow> cap (charge r t1 q g) = cap g"
    and held_admit: "ok g \<Longrightarrow> t0 \<le> t \<Longrightarrow> held (fst (admit t0 n u g)) t = held g t"
    and held_charge: "ok g \<Longrightarrow> t1 \<le> t \<Longrightarrow>
      held (charge r t1 q g) t = held g t + (if t - width < r then cost q else 0)"
    and admit_room: "ok g \<Longrightarrow> 0 \<le> held g t0 \<Longrightarrow> held g t0 \<le> cap g + (peak - est) \<Longrightarrow>
      snd (admit t0 n u g) = None \<Longrightarrow> held g t0 + est \<le> cap g"
begin

lemma ledger_admit:
  assumes "ledger ok cap held width slack t g h" and "t \<le> t0"
  shows "ledger ok cap held width slack t0 (fst (admit t0 n u g)) h"
  using assms by (fastforce simp: ledger_def ok_admit cap_admit held_admit)

lemma ledger_room:
  assumes L: "ledger ok cap held width (peak - est) t g h" and t: "t \<le> t0"
    and adm: "snd (admit t0 n u g) = None"
  shows "window_tokens width t0 h + est \<le> cap g"
proof -
  have "held g t0 = window_tokens width t0 h" and ok: "ok g"
    using L t by (auto simp: ledger_def)
  moreover have "window_tokens width t0 h = interval_tokens width t0 h"
    using L t by (intro window_eq_interval) (fastforce simp: ledger_def)
  moreover have "interval_tokens width t0 h \<le> cap g + (peak - est)" and "0 \<le> interval_tokens width t0 h"
    using L by (auto simp: ledger_def interval_tokens_def intro: tokens_sum_nonneg)
  ultimately show ?thesis using admit_room [OF ok _ _ adm] by simp
qed

lemma ledger_charge:
  assumes L: "ledger ok cap held width (peak - est) t g h" and t: "t \<le> r" "r \<le> t1"
    and room: "window_tokens width t h + est \<le> cap g"
  shows "ledger ok cap held width (peak - est) t1 (charge r t1 q g)
           (h @ [\<lparr>Tokens = cost q, Consumed = r\<rparr>])"
proof -
  have ok: "ok g" and pos: "\<forall>c\<in>set h. 0 \<le> Tokens c" and old: "\<forall>c\<in>set h. Consumed c \<le> t"
    and held: "\<And>s. t \<le> s \<Longrightarrow> held g s = window_tokens width s h"
    and bound: "\<And>s. interval_tokens width s h \<le> cap g + (peak - est)"
    using L by (auto simp: ledger_def)
  have "interval_tokens width s h + cost q \<le> cap g + (peak - est)" if "r \<le> s" for s
    using interval_le_window [OF pos, of t s width] that t room cost_bounds(2) [of q] by linarith
  then show ?thesis
    using ok t old pos held bound cost_bounds(1)
    by (auto simp: ledger_def ok_charge cap_charge held_charge interval_tokens_append)
qed

lemma serve_ledger:
  assumes "ledger ok cap held width (peak - est) t g h" and "visits_ordered t vs"
    and "serve admit charge cost (g, h) vs = (g', h')"
  shows "(\<exists>t'. ledger ok cap held width (peak - est) t' g' h') \<and> cap g' = cap g"
  using assms
proof (induction vs arbitrary: t g h)
  case Nil
  then show ?case by auto
next
  case (Cons v vs)
  let ?a = "admit (v_check v) (v_now v) (v_until v) g"
  have ord: "t \<le> v_check v" "v_check v \<le> v_clean v" "v_check v \<le> v_resp v" "v_resp v \<le> v_clean v"
      "visits_ordered (v_clean v) vs"
    using Cons.prems(2) by auto
  have L: "ledger ok cap held width (peak - est) (v_check v) (fst ?a) h"
    using Cons.prems(1) ord(1) by (rule ledger_admit)
  have cap: "cap (fst ?a) = cap g" by (rule cap_admit)
  show ?case
  proof (cases "snd ?a")
    case None
    have room: "window_tokens width (v_check v) h + est \<le> cap (fst ?a)"
      using ledger_room [OF Cons.prems(1) ord(1) None] cap by simp
    have ok: "ok (fst ?a)" using L by (simp add: ledger_def)
    have "serve admit charge cost (charge (v_resp v) (v_clean v) (v_answer v) (fst ?a),
        h @ [\<lparr>Tokens = cost (v_answer v), Consumed = v_resp v\<rparr>]) vs = (g', h')"
      using Cons.prems(3) None by (simp split: prod.splits)
    from Cons.IH [OF ledger_charge [OF L ord(3,4) room] ord(5) this]
    show ?thesis using cap cap_charge [OF ok] by simp
  next
    case (Some e)
    have "ledger ok cap held width (peak - est) (v_clean v) (fst ?a) h"
      using L ord(2) by (fastforce simp: ledger_def)
    moreover have "serve admit charge cost (fst ?a, h) vs = (g', h')"
      using Cons.prems(3) Some by (simp split: prod.splits)
    ultimately show ?thesis using Cons.IH ord(5) cap by metis
  qed
qed

lemma spending_bound:
  assumes "ok g" and "\<And>s. t \<le> s \<Longrightarrow> held g s = 0" and "0 \<le> cap g" and "est \<le> peak"
    and "visits_ordered t vs"
  shows "interval_tokens width s (snd (serve admit charge cost (g, []) vs)) \<le> cap g + (peak - est)"
proof -
  have "ledger ok cap held width (peak - est) t g []"
    using assms by (simp add: ledger_def interval_tokens_def)
  from serve_ledger [OF this assms(5), of "fst (serve admit charge cost (g, []) vs)"
      "snd (serve admit charge cost (g, []) vs)"]
  show ?thesis by (auto simp: ledger_def)
qed

end

end
