(* ===== verification/Group_Limiter.thy ===== *)
theory Group_Limiter
  imports Token_Window
begin

text \<open>
  The token bucket of one ESI rate-limit group, from
  \<open>internal/core/esi/rate_limited_client.go\<close>: the \<open>GroupLimiter\<close> struct with its floating
  15-minute window of consumptions, the cost of a response (\<open>getTokensForStatus\<close>), the expiry
  of old consumptions (\<open>cleanupOldConsumptions\<close>), the admission test (\<open>canMakeRequest\<close>) and
  the part of \<open>updateFromHeaders\<close> that works on the chosen limiter (\<open>applyFeedback\<close>).

  Every reading of \<open>time.Now()\<close> that matters is an argument, in the order of the readings.
  \<open>'l\<close> is the type of the third-party \<open>rate.Limiter\<close>. The limiter's mutex makes each of
  these bodies one step; the locking itself is in \<open>Discovery_Lock\<close>.
\<close>

section \<open>State\<close>

record 'l GroupLimiter =
  Limiter :: 'l
  DefaultRate :: float64
  DefaultBurst :: int
  Name :: string
  tokenLimit :: int
  tokenUsed :: int
  consumptions :: "TokenConsumption list"
  lastUpdate :: time
  retryAfter :: time
  windowDuration :: duration

definition default_window :: duration where
  "default_window = 15 * minute"

section \<open>Operations\<close>

definition getTokensForStatus :: "int \<Rightarrow> int" where
  "getTokensForStatus statusCode =
     (if statusCode \<ge> 200 \<and> statusCode < 300 then 2
      else if statusCode \<ge> 300 \<and> statusCode < 400 then 1
      else if statusCode \<ge> 400 \<and> statusCode < 500 then 5
      else if statusCode \<ge> 500 then 0
      else 2)"

text \<open>The loop over the history: the kept consumptions, their tokens, the expired tokens.\<close>

fun cleanup_loop :: "time \<Rightarrow> TokenConsumption list \<Rightarrow> TokenConsumption list \<Rightarrow> int \<Rightarrow> int
    \<Rightarrow> TokenConsumption list \<times> int \<times> int" where
  "cleanup_loop cutoff [] validConsumptions totalTokens expiredTokens =
     (validConsumptions, totalTokens, expiredTokens)"
| "cleanup_loop cutoff (cons # rest) validConsumptions totalTokens expiredTokens =
     (if cutoff < Consumed cons
      then cleanup_loop cutoff rest (validConsumptions @ [cons])
             (i64 (totalTokens + Tokens cons)) expiredTokens
      else cleanup_loop cutoff rest validConsumptions totalTokens
             (i64 (expiredTokens + Tokens cons)))"

definition cleanupOldConsumptions :: "time \<Rightarrow> 'l GroupLimiter \<Rightarrow> 'l GroupLimiter" where
  "cleanupOldConsumptions now gl =
     (let cutoff = time_add now (i64 (- windowDuration gl));
          (validConsumptions, totalTokens, expiredTokens) =
            cleanup_loop cutoff (consumptions gl) [] 0 0
      in gl\<lparr>consumptions := validConsumptions, tokenUsed := totalTokens, lastUpdate := now\<rparr>)"

fun oldest_consumption :: "TokenConsumption \<Rightarrow> TokenConsumption list \<Rightarrow> TokenConsumption" where
  "oldest_consumption oldest [] = oldest"
| "oldest_consumption oldest (cons # rest) =
     (if Consumed cons < Consumed oldest then oldest_consumption cons rest
      else oldest_consumption oldest rest)"

definition oldest_expiry :: "time \<Rightarrow> 'l GroupLimiter \<Rightarrow> time" where
  "oldest_expiry now gl =
     (case consumptions gl of
        [] \<Rightarrow> time_add now (windowDuration gl)
      | c # _ \<Rightarrow> time_add (Consumed (oldest_consumption c (consumptions gl))) (windowDuration gl))"

text \<open>
  \<open>canMakeRequest\<close>: \<open>t0\<close> is read by the cleanup, \<open>now\<close> after it, \<open>t2\<close> by \<open>time.Until\<close> in
  the retryable test. \<open>None\<close> lets the request through.
\<close>

definition canMakeRequest :: "time \<Rightarrow> time \<Rightarrow> time \<Rightarrow> int \<Rightarrow> 'l GroupLimiter
    \<Rightarrow> 'l GroupLimiter \<times> go_error option" where
  "canMakeRequest t0 now t2 estimatedTokens gl0 =
     (let gl = cleanupOldConsumptions t0 gl0
      in if now < retryAfter gl then
           (gl, Some (ErrRateLimit
             \<lparr>Retryable = True, RetryAfter = retryAfter gl,
              Reason = ''retry-after period active'', Group = Name gl,
              TokenUsed = tokenUsed gl, TokenLimit = tokenLimit gl,
              EstimatedTokens = estimatedTokens\<rparr>))
         else if i64 (tokenUsed gl + estimatedTokens) > tokenLimit gl then
           (let oldestExpiry = oldest_expiry now gl;
                retryable = (now < oldestExpiry \<and> time_sub oldestExpiry t2 < 5 * minute)
            in (gl, Some (ErrRateLimit
                 \<lparr>Retryable = retryable, RetryAfter = oldestExpiry,
                  Reason = ''insufficient tokens'', Group = Name gl,
                  TokenUsed = tokenUsed gl, TokenLimit = tokenLimit gl,
                  EstimatedTokens = estimatedTokens\<rparr>)))
         else (gl, None))"

text \<open>
  The second half of \<open>updateFromHeaders\<close>: what a response does to the limiter it is charged
  to. \<open>now\<close> is read at the start of \<open>updateFromHeaders\<close>, \<open>t1\<close> by the cleanup; \<open>limit\<close> is the
  parsed limit header, 0 when there is none.
\<close>

definition feedback_limit :: "int \<Rightarrow> 'l GroupLimiter \<Rightarrow> 'l GroupLimiter" where
  "feedback_limit limit gl =
     (if limit > 0 \<and> limit \<noteq> tokenLimit gl then gl\<lparr>tokenLimit := limit\<rparr> else gl)"

definition feedback_usage :: "time \<Rightarrow> string \<Rightarrow> string \<Rightarrow> int \<Rightarrow> 'l GroupLimiter \<Rightarrow> 'l GroupLimiter" where
  "feedback_usage now remainingStr usedStr tokensConsumed gl =
     (if remainingStr \<noteq> [] then
        (case atoi remainingStr of
           None \<Rightarrow> gl
         | Some remaining \<Rightarrow>
             if usedStr \<noteq> [] then
               (case atoi usedStr of None \<Rightarrow> gl | Some used \<Rightarrow> gl\<lparr>tokenUsed := used\<rparr>)
             else gl\<lparr>tokenUsed := i64 (tokenLimit gl - remaining)\<rparr>)
      else gl\<lparr>consumptions := consumptions gl @ [\<lparr>Tokens = tokensConsumed, Consumed = now\<rparr>],
              tokenUsed := i64 (tokenUsed gl + tokensConsumed)\<rparr>)"

definition feedback_retry :: "time \<Rightarrow> int \<Rightarrow> string \<Rightarrow> 'l GroupLimiter \<Rightarrow> 'l GroupLimiter" where
  "feedback_retry now status retryAfterStr gl =
     (if status = status_too_many_requests then
        (if retryAfterStr \<noteq> [] then
           (case atoi retryAfterStr of
              None \<Rightarrow> gl
            | Some seconds \<Rightarrow> gl\<lparr>retryAfter := time_add now (dur_mul seconds second)\<rparr>)
         else gl\<lparr>retryAfter := time_add now (windowDuration gl)\<rparr>)
      else gl)"

definition applyFeedback :: "time \<Rightarrow> time \<Rightarrow> int \<Rightarrow> 'b http_response \<Rightarrow> int
    \<Rightarrow> 'l GroupLimiter \<Rightarrow> 'l GroupLimiter" where
  "applyFeedback now t1 limit resp tokensConsumed gl0 =
     (let gl1 = cleanupOldConsumptions t1 gl0;
          gl2 = feedback_limit limit gl1;
          gl3 = feedback_usage now (header_get (Header resp) ''X-Ratelimit-Remaining'')
                  (header_get (Header resp) ''X-Ratelimit-Used'') tokensConsumed gl2
      in feedback_retry now (StatusCode resp) (header_get (Header resp) ''Retry-After'') gl3)"

section \<open>Expiry of old consumptions\<close>

lemma cleanup_loop_eq:
  "cleanup_loop cutoff cs kept tot old =
     (kept @ filter (\<lambda>c. cutoff < Consumed c) cs,
      if filter (\<lambda>c. cutoff < Consumed c) cs = [] then tot
        else i64 (tot + tokens_sum (filter (\<lambda>c. cutoff < Consumed c) cs)),
      if filter (\<lambda>c. \<not> cutoff < Consumed c) cs = [] then old
        else i64 (old + tokens_sum (filter (\<lambda>c. \<not> cutoff < Consumed c) cs)))"
  by (induction cs arbitrary: kept tot old) (auto simp: add.assoc)

text \<open>The window of a limiter: an \<open>int64\<close> whose negation is one too, as 15 minutes is.\<close>

definition window_ok :: "'l GroupLimiter \<Rightarrow> bool" where
  "window_ok gl \<longleftrightarrow> 0 < windowDuration gl \<and> windowDuration gl < 2 ^ 63"

lemma default_window_bounds: "0 < default_window \<and> default_window < 2 ^ 63"
  by (simp add: default_window_def time_units)

lemma cleanup_eq:
  assumes "window_ok gl"
  shows "cleanupOldConsumptions now gl =
    gl\<lparr>consumptions := filter (in_window (windowDuration gl) now) (consumptions gl),
       tokenUsed := i64 (window_tokens (windowDuration gl) now (consumptions gl)),
       lastUpdate := now\<rparr>"
proof -
  have "i64 (- windowDuration gl) = - windowDuration gl"
    using assms by (intro i64_id) (simp add: window_ok_def in_i64_def)
  moreover have "i64 0 = 0" by (simp add: i64_id in_i64_def)
  ultimately show ?thesis
    by (simp add: cleanupOldConsumptions_def cleanup_loop_eq time_add_def window_tokens_def
        in_window_def [abs_def] Let_def)
qed

lemma cleanup_frame [simp, frame_simps]:
  "Name (cleanupOldConsumptions now gl) = Name gl"
  "tokenLimit (cleanupOldConsumptions now gl) = tokenLimit gl"
  "retryAfter (cleanupOldConsumptions now gl) = retryAfter gl"
  "windowDuration (cleanupOldConsumptions now gl) = windowDuration gl"
  "Limiter (cleanupOldConsumptions now gl) = Limiter gl"
  "DefaultRate (cleanupOldConsumptions now gl) = DefaultRate gl"
  "DefaultBurst (cleanupOldConsumptions now gl) = DefaultBurst gl"
  "lastUpdate (cleanupOldConsumptions now gl) = now"
  by (simp_all add: cleanupOldConsumptions_def cleanup_loop_eq Let_def)

lemma cleanup_fields [simp]:
  assumes "window_ok gl"
  shows "consumptions (cleanupOldConsumptions now gl) =
      filter (in_window (windowDuration gl) now) (consumptions gl)"
    and "tokenUsed (cleanupOldConsumptions now gl) =
      i64 (window_tokens (windowDuration gl) now (consumptions gl))"
  using assms by (simp_all add: cleanup_eq)

lemma window_ok_cleanup [simp]: "window_ok (cleanupOldConsumptions now gl) = window_ok gl"
  by (simp add: window_ok_def)

lemma getTokensForStatus_bounds: "0 \<le> getTokensForStatus st \<and> getTokensForStatus st \<le> 5"
  by (simp add: getTokensForStatus_def)

section \<open>The admission test\<close>

lemma oldest_consumption_in: "oldest_consumption o1 cs \<in> insert o1 (set cs)"
  by (induction cs arbitrary: o1) auto

lemma oldest_consumption_le:
  "Consumed (oldest_consumption o1 cs) \<le> Consumed o1 \<and>
   (\<forall>c\<in>set cs. Consumed (oldest_consumption o1 cs) \<le> Consumed c)"
proof (induction cs arbitrary: o1)
  case (Cons a cs)
  show ?case using Cons.IH [of a] Cons.IH [of o1] by (cases "Consumed a < Consumed o1") auto
qed simp

lemma oldest_expiry_eq:
  assumes "consumptions gl \<noteq> []"
  shows "oldest_expiry now gl = Min (Consumed ` set (consumptions gl)) + windowDuration gl"
proof -
  obtain c cs where c: "consumptions gl = c # cs" using assms by (cases "consumptions gl") auto
  have "Consumed (oldest_consumption c (consumptions gl)) = Min (Consumed ` set (consumptions gl))"
    using oldest_consumption_in [of c "consumptions gl"] oldest_consumption_le [of c "consumptions gl"] c
    by (intro Min_eqI [symmetric]) auto
  with c show ?thesis by (simp add: oldest_expiry_def time_add_def)
qed

lemma canMakeRequest_state [simp]:
  "fst (canMakeRequest t0 now t2 est gl) = cleanupOldConsumptions t0 gl"
  by (simp add: canMakeRequest_def Let_def)

lemma canMakeRequest_error_kind:
  "snd (canMakeRequest t0 now t2 est gl) = Some e \<Longrightarrow> \<exists>r. e = ErrRateLimit r"
  by (auto simp: canMakeRequest_def Let_def split: if_splits)

lemma canMakeRequest_None_iff:
  assumes "window_ok gl"
  shows "snd (canMakeRequest t0 now t2 est gl) = None \<longleftrightarrow>
    retryAfter gl \<le> now \<and>
    i64 (window_tokens (windowDuration gl) t0 (consumptions gl) + est) \<le> tokenLimit gl"
  using assms by (auto simp: canMakeRequest_def Let_def)

text \<open>C8: the admission test is the floating-window test: away from overflow, a request is let
  through exactly when no retry-after period is active and the tokens of the last window plus
  the estimate fit the limit.\<close>

theorem canMakeRequest_window_test:
  assumes "window_ok gl"
    and "in_i64 (window_tokens (windowDuration gl) t0 (consumptions gl) + est)"
  shows "snd (canMakeRequest t0 now t2 est gl) = None \<longleftrightarrow>
    retryAfter gl \<le> now \<and>
    window_tokens (windowDuration gl) t0 (consumptions gl) + est \<le> tokenLimit gl"
  using assms by (simp add: canMakeRequest_None_iff i64_id)

text \<open>What an "insufficient tokens" error promises. Its \<open>RetryAfter\<close> is the instant at
  which the oldest consumption of the window leaves it: from then on the bucket holds strictly
  fewer consumptions, among them none as old as that one. It is marked retryable exactly when
  that instant is still ahead and less than five minutes away.\<close>

theorem insufficient_tokens_hint:
  assumes ok: "window_ok gl"
    and err: "snd (canMakeRequest t0 now t2 est gl) = Some (ErrRateLimit e)"
    and why: "Reason e = ''insufficient tokens''"
    and ne: "filter (in_window (windowDuration gl) t0) (consumptions gl) \<noteq> []"
  shows "RetryAfter e =
        Min (Consumed ` set (filter (in_window (windowDuration gl) t0) (consumptions gl)))
          + windowDuration gl
    \<and> (Retryable e \<longleftrightarrow> now < RetryAfter e \<and> RetryAfter e - t2 < 5 * minute)
    \<and> (\<forall>t. RetryAfter e \<le> t \<and> t0 \<le> t \<longrightarrow>
        length (filter (in_window (windowDuration gl) t) (consumptions gl)) <
        length (filter (in_window (windowDuration gl) t0) (consumptions gl)))"
proof (intro conjI allI impI)
  let ?w = "windowDuration gl" and ?kept = "filter (in_window (windowDuration gl) t0) (consumptions gl)"
  let ?gl = "cleanupOldConsumptions t0 gl"
  have e: "RetryAfter e = oldest_expiry now ?gl"
      "Retryable e \<longleftrightarrow> now < oldest_expiry now ?gl \<and> time_sub (oldest_expiry now ?gl) t2 < 5 * minute"
    using err why by (auto simp: canMakeRequest_def Let_def split: if_splits)
  have m: "oldest_expiry now ?gl = Min (Consumed ` set ?kept) + ?w"
    using oldest_expiry_eq [of ?gl now] ne ok by simp
  show "RetryAfter e = Min (Consumed ` set ?kept) + ?w" using e m by simp
  have "(0::int) < 5 * minute" "5 * minute < 2 ^ 63" by (simp_all add: time_units)
  then show "Retryable e \<longleftrightarrow> now < RetryAfter e \<and> RetryAfter e - t2 < 5 * minute"
    using e by (simp add: time_sub_less_iff)
  fix t assume t: "RetryAfter e \<le> t \<and> t0 \<le> t"
  have "Min (Consumed ` set ?kept) \<in> Consumed ` set ?kept"
    using ne by (intro Min_in) (simp_all del: filter_filter set_filter)
  then obtain c where c: "c \<in> set ?kept" "Consumed c = Min (Consumed ` set ?kept)" by auto
  then have "\<not> in_window ?w t c" using t e m by (simp add: in_window_def)
  moreover have "filter (in_window ?w t) ?kept = filter (in_window ?w t) (consumptions gl)"
    using t by (intro window_filter_later) simp
  ultimately show "length (filter (in_window ?w t) (consumptions gl)) < length ?kept"
    using c(1) by (metis length_filter_less)
qed


section \<open>Feedback\<close>

lemma feedback_frame [simp, frame_simps]:
  "windowDuration (feedback_limit lim gl) = windowDuration gl"
  "windowDuration (feedback_usage now rem us tok gl) = windowDuration gl"
  "windowDuration (feedback_retry now st ra gl) = windowDuration gl"
  "Name (feedback_limit lim gl) = Name gl"
  "Name (feedback_usage now rem us tok gl) = Name gl"
  "Name (feedback_retry now st ra gl) = Name gl"
  "consumptions (feedback_limit lim gl) = consumptions gl"
  "consumptions (feedback_retry now st ra gl) = consumptions gl"
  "tokenUsed (feedback_limit lim gl) = tokenUsed gl"
  "tokenUsed (feedback_retry now st ra gl) = tokenUsed gl"
  "retryAfter (feedback_limit lim gl) = retryAfter gl"
  "retryAfter (feedback_usage now rem us tok gl) = retryAfter gl"
  "tokenLimit (feedback_usage now rem us tok gl) = tokenLimit gl"
  "tokenLimit (feedback_retry now st ra gl) = tokenLimit gl"
  by (simp_all add: feedback_limit_def feedback_usage_def feedback_retry_def split: option.splits)

lemma feedback_limit_0 [simp]: "feedback_limit 0 gl = gl"
  by (simp add: feedback_limit_def)

lemma applyFeedback_frame [simp, frame_simps]:
  "windowDuration (applyFeedback now t1 lim resp tok gl) = windowDuration gl"
  "Name (applyFeedback now t1 lim resp tok gl) = Name gl"
  "window_ok (applyFeedback now t1 lim resp tok gl) = window_ok gl"
  by (simp_all add: applyFeedback_def Let_def window_ok_def)

lemma applyFeedback_tokenLimit:
  "tokenLimit (applyFeedback now t1 lim resp tok gl) = (if lim > 0 then lim else tokenLimit gl)"
  by (simp add: applyFeedback_def Let_def) (simp add: feedback_limit_def)

lemma feedback_usage_reported:
  "rem \<noteq> [] \<Longrightarrow> consumptions (feedback_usage now rem us tok gl) = consumptions gl"
  by (simp add: feedback_usage_def split: option.splits)

lemma applyFeedback_reported:
  assumes "window_ok gl" and "header_get (Header resp) ''X-Ratelimit-Remaining'' \<noteq> []"
  shows "consumptions (applyFeedback now t1 lim resp tok gl) =
    filter (in_window (windowDuration gl) t1) (consumptions gl)"
  using assms by (simp add: applyFeedback_def Let_def feedback_usage_reported)

lemma applyFeedback_local:
  assumes "window_ok gl" and "header_get (Header resp) ''X-Ratelimit-Remaining'' = []"
  shows "consumptions (applyFeedback now t1 lim resp tok gl) =
    filter (in_window (windowDuration gl) t1) (consumptions gl) @ [\<lparr>Tokens = tok, Consumed = now\<rparr>]"
  using assms by (simp add: applyFeedback_def Let_def) (simp add: feedback_usage_def)

lemma feedback_usage_reported_state:
  "rem \<noteq> [] \<Longrightarrow> \<exists>x. feedback_usage now rem us tok gl = gl\<lparr>tokenUsed := x\<rparr>"
  by (auto simp: feedback_usage_def split: option.splits intro: exI [of _ "tokenUsed gl"])

lemma feedback_retry_tokenUsed:
  "feedback_retry now st ra (gl\<lparr>tokenUsed := x\<rparr>) = (feedback_retry now st ra gl)\<lparr>tokenUsed := x\<rparr>"
  by (simp add: feedback_retry_def split: option.splits)

lemma cleanup_tokenUsed:
  "cleanupOldConsumptions t (gl\<lparr>tokenUsed := x\<rparr>) = cleanupOldConsumptions t gl"
  by (simp add: cleanupOldConsumptions_def cleanup_loop_eq Let_def)

lemma cleanup_after_report:
  assumes "header_get (Header resp) ''X-Ratelimit-Remaining'' \<noteq> []"
  shows "cleanupOldConsumptions t0 (applyFeedback u t1 lim resp tok gl) =
    cleanupOldConsumptions t0 (feedback_retry u (StatusCode resp)
      (header_get (Header resp) ''Retry-After'') (feedback_limit lim (cleanupOldConsumptions t1 gl)))"
proof -
  obtain x where "feedback_usage u (header_get (Header resp) ''X-Ratelimit-Remaining'')
      (header_get (Header resp) ''X-Ratelimit-Used'') tok
      (feedback_limit lim (cleanupOldConsumptions t1 gl)) =
    (feedback_limit lim (cleanupOldConsumptions t1 gl))\<lparr>tokenUsed := x\<rparr>"
    using feedback_usage_reported_state [OF assms] by blast
  then show ?thesis by (simp add: applyFeedback_def Let_def feedback_retry_tokenUsed cleanup_tokenUsed)
qed

text \<open>C5: the usage the server reports never reaches the admission test. A response that
  carries \<open>X-Ratelimit-Remaining\<close> sets \<open>tokenUsed\<close> and adds no consumption, and the next
  \<open>canMakeRequest\<close> recomputes \<open>tokenUsed\<close> from the consumptions alone: two responses that
  differ in nothing but the reported numbers lead to the same decision, and the bucket then
  counts only what was tracked locally before.\<close>

theorem server_usage_forgotten:
  assumes ok: "window_ok gl" and later: "t1 \<le> t0"
    and rem: "header_get (Header r1) ''X-Ratelimit-Remaining'' \<noteq> []"
             "header_get (Header r2) ''X-Ratelimit-Remaining'' \<noteq> []"
    and same: "StatusCode r1 = StatusCode r2"
              "header_get (Header r1) ''Retry-After'' = header_get (Header r2) ''Retry-After''"
  shows "snd (canMakeRequest t0 now t2 est (applyFeedback u t1 lim r1 tok gl)) =
         snd (canMakeRequest t0 now t2 est (applyFeedback u t1 lim r2 tok gl))
    \<and> tokenUsed (fst (canMakeRequest t0 now t2 est (applyFeedback u t1 lim r1 tok gl))) =
         i64 (window_tokens (windowDuration gl) t0 (consumptions gl))"
proof (intro conjI)
  have kept: "cleanupOldConsumptions t0 (applyFeedback u t1 lim r1 tok gl) =
      cleanupOldConsumptions t0 (applyFeedback u t1 lim r2 tok gl)"
    using same by (simp add: cleanup_after_report [OF rem(1)] cleanup_after_report [OF rem(2)])
  show "snd (canMakeRequest t0 now t2 est (applyFeedback u t1 lim r1 tok gl)) =
        snd (canMakeRequest t0 now t2 est (applyFeedback u t1 lim r2 tok gl))"
    by (simp add: canMakeRequest_def kept)
  show "tokenUsed (fst (canMakeRequest t0 now t2 est (applyFeedback u t1 lim r1 tok gl))) =
         i64 (window_tokens (windowDuration gl) t0 (consumptions gl))"
    using ok rem later by (simp add: applyFeedback_reported window_tokens_later)
qed

section \<open>The limiter as a window bucket\<close>

text \<open>
  Local accounting: responses without rate-limit headers, given by their status and their
  \<open>Retry-After\<close> value. The code estimates 2 tokens per request and a response costs at most 5.
\<close>

definition local_response :: "int \<times> string \<Rightarrow> unit http_response" where
  "local_response q =
     \<lparr>StatusCode = fst q, Header = header_set Map.empty ''Retry-After'' (snd q), Body = ()\<rparr>"

definition limiter_sane :: "'l GroupLimiter \<Rightarrow> bool" where
  "limiter_sane gl \<longleftrightarrow> windowDuration gl = default_window \<and> tokenLimit gl \<le> 2 ^ 62"

definition limiter_admit :: "time \<Rightarrow> time \<Rightarrow> time \<Rightarrow> 'l GroupLimiter \<Rightarrow> 'l GroupLimiter \<times> go_error option" where
  "limiter_admit t0 now t2 gl = canMakeRequest t0 now t2 2 gl"

definition limiter_charge :: "time \<Rightarrow> time \<Rightarrow> int \<times> string \<Rightarrow> 'l GroupLimiter \<Rightarrow> 'l GroupLimiter" where
  "limiter_charge now t1 q gl =
     applyFeedback now t1 0 (local_response q) (getTokensForStatus (fst q)) gl"

definition response_cost :: "int \<times> string \<Rightarrow> int" where
  "response_cost q = getTokensForStatus (fst q)"

definition limiter_held :: "'l GroupLimiter \<Rightarrow> time \<Rightarrow> int" where
  "limiter_held gl t = window_tokens default_window t (consumptions gl)"

lemma limiter_sane_window: "limiter_sane gl \<Longrightarrow> window_ok gl"
  using default_window_bounds by (simp add: limiter_sane_def window_ok_def)

lemma local_response_remaining [simp]:
  "header_get (Header (local_response q)) ''X-Ratelimit-Remaining'' = []"
  by (simp add: local_response_def) code_simp

lemma limiter_charge_consumptions:
  assumes "limiter_sane gl"
  shows "consumptions (limiter_charge now t1 q gl) =
    filter (in_window default_window t1) (consumptions gl)
      @ [\<lparr>Tokens = response_cost q, Consumed = now\<rparr>]"
  using assms limiter_sane_window [OF assms]
  by (simp add: limiter_charge_def applyFeedback_local response_cost_def limiter_sane_def)

interpretation glb: window_bucket limiter_sane tokenLimit limiter_held limiter_admit limiter_charge
  response_cost default_window 2 5
proof
  fix q :: "int \<times> string"
  show "0 \<le> response_cost q" "response_cost q \<le> 5"
    using getTokensForStatus_bounds by (simp_all add: response_cost_def)
next
  fix gl :: "'l GroupLimiter" and t0 n u r t1 t :: time and q :: "int \<times> string"
  show "tokenLimit (fst (limiter_admit t0 n u gl)) = tokenLimit gl"
    by (simp add: limiter_admit_def)
  assume sane: "limiter_sane gl"
  have w: "window_ok gl" "windowDuration gl = default_window"
    using sane limiter_sane_window by (auto simp: limiter_sane_def)
  show "limiter_sane (fst (limiter_admit t0 n u gl))"
    using sane by (simp add: limiter_admit_def limiter_sane_def)
  show cap: "tokenLimit (limiter_charge r t1 q gl) = tokenLimit gl"
    by (simp add: limiter_charge_def applyFeedback_tokenLimit)
  then show "limiter_sane (limiter_charge r t1 q gl)"
    using sane by (simp add: limiter_sane_def) (simp add: limiter_charge_def)
  show "t0 \<le> t \<Longrightarrow> limiter_held (fst (limiter_admit t0 n u gl)) t = limiter_held gl t"
    using w by (simp add: limiter_admit_def limiter_held_def window_tokens_later)
  show "t1 \<le> t \<Longrightarrow> limiter_held (limiter_charge r t1 q gl) t =
      limiter_held gl t + (if t - default_window < r then response_cost q else 0)"
    using sane by (simp add: limiter_held_def limiter_charge_consumptions window_tokens_later)
  assume "0 \<le> limiter_held gl t0" and "limiter_held gl t0 \<le> tokenLimit gl + (5 - 2)"
    and none: "snd (limiter_admit t0 n u gl) = None"
  then have "in_i64 (limiter_held gl t0 + 2)"
    using sane by (simp add: limiter_sane_def in_i64_def)
  then show "limiter_held gl t0 + 2 \<le> tokenLimit gl"
    using none w by (simp add: limiter_admit_def canMakeRequest_None_iff limiter_held_def i64_id)
qed


section \<open>Witnesses\<close>

definition sample_limiter :: "int \<Rightarrow> TokenConsumption list \<Rightarrow> unit GroupLimiter" where
  "sample_limiter used cs =
     \<lparr>Limiter = (), DefaultRate = 0, DefaultBurst = 2, Name = ''default'', tokenLimit = 10,
      tokenUsed = used, consumptions = cs, lastUpdate = 0, retryAfter = zero_time,
      windowDuration = default_window\<rparr>"

lemma sample_limiter_ok [simp]: "window_ok (sample_limiter used cs)"
  using default_window_bounds by (simp add: window_ok_def sample_limiter_def)

theorem canMakeRequest_window_test_witness:
  "snd (canMakeRequest 5 6 7 2 (sample_limiter 0 [\<lparr>Tokens = 8, Consumed = 1\<rparr>])) = None"
proof -
  have "retryAfter (sample_limiter 0 [\<lparr>Tokens = 8, Consumed = 1\<rparr>]) \<le> 6"
    by (simp add: sample_limiter_def zero_time_def time_units)
  moreover have "window_tokens (windowDuration (sample_limiter 0 [\<lparr>Tokens = 8, Consumed = 1\<rparr>])) 5
      (consumptions (sample_limiter 0 [\<lparr>Tokens = 8, Consumed = 1\<rparr>])) = 8"
    by (simp add: sample_limiter_def window_tokens_def in_window_def default_window_def time_units)
  ultimately show ?thesis
    using canMakeRequest_window_test [of "sample_limiter 0 [\<lparr>Tokens = 8, Consumed = 1\<rparr>]" 5 2 6 7]
    by (simp add: in_i64_def) (simp add: sample_limiter_def)
qed

definition sample_error :: RateLimitError where
  "sample_error =
     \<lparr>Retryable = False, RetryAfter = 1 + default_window, Reason = ''insufficient tokens'',
      Group = ''default'', TokenUsed = 9, TokenLimit = 10, EstimatedTokens = 2\<rparr>"

theorem insufficient_tokens_hint_witness:
  "snd (canMakeRequest 5 6 7 2 (sample_limiter 0 [\<lparr>Tokens = 9, Consumed = 1\<rparr>])) =
     Some (ErrRateLimit sample_error)
   \<and> RetryAfter sample_error = 1 + default_window"
proof -
  let ?gl = "sample_limiter 0 [\<lparr>Tokens = 9, Consumed = 1\<rparr>]"
  have e: "snd (canMakeRequest 5 6 7 2 ?gl) = Some (ErrRateLimit sample_error)"
    by (simp add: canMakeRequest_def cleanup_eq sample_limiter_def sample_error_def window_ok_def
        window_tokens_def in_window_def default_window_def time_units zero_time_def i64_def
        oldest_expiry_def time_add_def time_sub_def)
  have k: "filter (in_window (windowDuration ?gl) 5) (consumptions ?gl) = [\<lparr>Tokens = 9, Consumed = 1\<rparr>]"
    by (simp add: sample_limiter_def in_window_def default_window_def time_units)
  have "RetryAfter sample_error = Min (Consumed ` set [\<lparr>Tokens = 9, Consumed = 1\<rparr>]) + windowDuration ?gl"
    using insufficient_tokens_hint [OF sample_limiter_ok e] k by (simp add: sample_error_def)
  then show ?thesis using e by (simp add: sample_limiter_def)
qed


definition reported_response :: "string \<Rightarrow> string \<Rightarrow> unit http_response" where
  "reported_response remaining used =
     \<lparr>StatusCode = 200,
      Header = header_set (header_set Map.empty ''X-Ratelimit-Remaining'' remaining) ''X-Ratelimit-Used'' used,
      Body = ()\<rparr>"

text \<open>The server says that 10 of 10 tokens are used; the bucket is empty all the same.\<close>

theorem server_usage_forgotten_witness:
  "tokenUsed (applyFeedback 1 2 0 (reported_response ''0'' ''10'') 2 (sample_limiter 0 [])) = 10
   \<and> tokenUsed (fst (canMakeRequest 3 4 5 2
        (applyFeedback 1 2 0 (reported_response ''0'' ''10'') 2 (sample_limiter 0 [])))) = 0"
proof
  show "tokenUsed (applyFeedback 1 2 0 (reported_response ''0'' ''10'') 2 (sample_limiter 0 [])) = 10"
    by code_simp
  have h: "header_get (Header (reported_response ''0'' ''10'')) ''X-Ratelimit-Remaining'' \<noteq> []"
    by code_simp
  have "tokenUsed (fst (canMakeRequest 3 4 5 2
        (applyFeedback 1 2 0 (reported_response ''0'' ''10'') 2 (sample_limiter 0 [])))) =
      i64 (window_tokens (windowDuration (sample_limiter 0 [])) 3 (consumptions (sample_limiter 0 [])))"
    using server_usage_forgotten [OF sample_limiter_ok _ h h, of 2 3 4 5 2 1 0 2 0 "[]"] by simp
  then show "tokenUsed (fst (canMakeRequest 3 4 5 2
        (applyFeedback 1 2 0 (reported_response ''0'' ''10'') 2 (sample_limiter 0 [])))) = 0"
    by (simp add: sample_limiter_def i64_id in_i64_def)
qed

definition sample_visit :: "time \<Rightarrow> int \<Rightarrow> (int \<times> string) visit" where
  "sample_visit t st = \<lparr>v_check = t, v_now = t, v_until = t, v_resp = t, v_clean = t, v_answer = (st, [])\<rparr>"


end
