(* ===== verification/Esi_Client.thy ===== *)
theory Esi_Client
  imports Group_Limiter
begin

text \<open>
  The ESI client of \<open>internal/core/esi/rate_limited_client.go\<close>: which limiter a path is charged
  to, the discovery of groups from response headers, and the client's bookkeeping.

  Limiters are shared mutable objects: \<open>limiters\<close>, \<open>defLim\<close> and the variables of a request hold
  pointers to them. The model has a store (\<open>heap\<close>), a list of allocated limiters, and a pointer
  is an index into it; nothing is freed. Mutexes of unknown paths are numbered in the order of
  their allocation.

  \<open>rate.NewLimiter\<close> of \<open>golang.org/x/time/rate\<close> and \<open>time.ParseDuration\<close> are arguments.
\<close>

section \<open>State\<close>

record 'l ESIClient =
  baseURL :: string
  heap :: "'l GroupLimiter list"
  limiters :: "string \<rightharpoonup> nat"
  defLim :: nat
  pathToGroup :: "string \<rightharpoonup> string"
  unknownGroups :: "string \<rightharpoonup> nat"
  mutexCount :: nat
  testMode :: bool
  testModePath :: string
  testModeScenario :: string
  testModeRetryAfter :: duration

definition deref :: "'l ESIClient \<Rightarrow> nat \<Rightarrow> 'l GroupLimiter" where
  "deref c r = heap c ! r"

definition store_at :: "'l ESIClient \<Rightarrow> nat \<Rightarrow> 'l GroupLimiter \<Rightarrow> 'l ESIClient" where
  "store_at c r gl = c\<lparr>heap := (heap c)[r := gl]\<rparr>"

section \<open>Construction\<close>

definition new_group_limiter :: "(float64 \<Rightarrow> int \<Rightarrow> 'l) \<Rightarrow> time \<Rightarrow> float64 \<Rightarrow> int \<Rightarrow> string \<Rightarrow> int
    \<Rightarrow> 'l GroupLimiter" where
  "new_group_limiter newLim now rps burst name limit =
     \<lparr>Limiter = newLim rps burst, DefaultRate = rps, DefaultBurst = burst, Name = name,
      tokenLimit = limit, tokenUsed = 0, consumptions = [], lastUpdate = now,
      retryAfter = zero_time, windowDuration = default_window\<rparr>"

definition NewESIClient :: "(float64 \<Rightarrow> int \<Rightarrow> 'l) \<Rightarrow> (string \<Rightarrow> string) \<Rightarrow> (string \<Rightarrow> duration option)
    \<Rightarrow> time \<Rightarrow> string \<Rightarrow> float64 \<Rightarrow> int \<Rightarrow> 'l ESIClient" where
  "NewESIClient newLim getenv parseDuration now url defaultRPS burst =
     (let mode = (getenv ''ESI_TEST_MODE'' = ''true'');
          retryAfterStr = getenv ''ESI_TEST_MODE_RETRY_AFTER'';
          retry = (if mode \<and> retryAfterStr \<noteq> [] then
                     (case parseDuration retryAfterStr of None \<Rightarrow> 1 * minute | Some d \<Rightarrow> d)
                   else 1 * minute)
      in \<lparr>baseURL = url,
          heap = [new_group_limiter newLim now defaultRPS burst ''default'' 1000],
          limiters = Map.empty, defLim = 0, pathToGroup = Map.empty,
          unknownGroups = Map.empty, mutexCount = 0,
          testMode = mode, testModePath = getenv ''ESI_TEST_MODE_PATH'',
          testModeScenario = getenv ''ESI_TEST_MODE_SCENARIO'', testModeRetryAfter = retry\<rparr>)"

definition AddGroupLimiter :: "(float64 \<Rightarrow> int \<Rightarrow> 'l) \<Rightarrow> time \<Rightarrow> 'l ESIClient \<Rightarrow> string \<Rightarrow> float64 \<Rightarrow> int
    \<Rightarrow> 'l ESIClient" where
  "AddGroupLimiter newLim now c groupName rps burst =
     c\<lparr>heap := heap c @ [new_group_limiter newLim now rps burst groupName 1000],
       limiters := (limiters c)(groupName \<mapsto> length (heap c))\<rparr>"

section \<open>Lookup and discovery\<close>

definition getLimiterForPath :: "'l ESIClient \<Rightarrow> string \<Rightarrow> nat \<times> bool" where
  "getLimiterForPath c path =
     (case pathToGroup c path of
        Some groupName \<Rightarrow>
          (case limiters c groupName of
             Some limiter \<Rightarrow> (limiter, True)
           | None \<Rightarrow> (defLim c, False))
      | None \<Rightarrow> (defLim c, False))"

definition getOrCreateGroupLimiter :: "(float64 \<Rightarrow> int \<Rightarrow> 'l) \<Rightarrow> time \<Rightarrow> 'l ESIClient \<Rightarrow> string
    \<Rightarrow> string \<Rightarrow> int \<Rightarrow> 'l ESIClient \<times> nat" where
  "getOrCreateGroupLimiter newLim now c groupName path limit =
     (case limiters c groupName of
        Some limiter \<Rightarrow>
          (let gl = deref c limiter;
               c1 = (if limit > 0 \<and> limit \<noteq> tokenLimit gl
                     then store_at c limiter (gl\<lparr>tokenLimit := limit\<rparr>) else c)
           in (c1\<lparr>pathToGroup := (pathToGroup c1)(path \<mapsto> groupName)\<rparr>, limiter))
      | None \<Rightarrow>
          (let def = deref c (defLim c);
               gl = new_group_limiter newLim now (DefaultRate def) (DefaultBurst def) groupName limit;
               gl1 = (if tokenLimit gl = 0 then gl\<lparr>tokenLimit := 1000\<rparr> else gl);
               r = length (heap c)
           in (c\<lparr>heap := heap c @ [gl1], limiters := (limiters c)(groupName \<mapsto> r),
                 pathToGroup := (pathToGroup c)(path \<mapsto> groupName)\<rparr>, r)))"

definition getMutexForUnknownPath :: "'l ESIClient \<Rightarrow> string \<Rightarrow> 'l ESIClient \<times> nat" where
  "getMutexForUnknownPath c path =
     (case unknownGroups c path of
        Some mutex \<Rightarrow> (c, mutex)
      | None \<Rightarrow>
          (c\<lparr>unknownGroups := (unknownGroups c)(path \<mapsto> mutexCount c),
             mutexCount := Suc (mutexCount c)\<rparr>, mutexCount c))"

text \<open>
  \<open>updateFromHeaders\<close>: the limiter the response belongs to, then the feedback on it. \<open>now\<close> is
  read first, \<open>tnew\<close> when a limiter is created, \<open>t1\<close> by the cleanup.
\<close>

definition header_limit :: "'b http_response \<Rightarrow> int" where
  "header_limit resp =
     (let limitStr = header_get (Header resp) ''X-Ratelimit-Limit''
      in if limitStr \<noteq> [] then (case atoi limitStr of Some limit \<Rightarrow> limit | None \<Rightarrow> 0) else 0)"

definition selectLimiter :: "(float64 \<Rightarrow> int \<Rightarrow> 'l) \<Rightarrow> time \<Rightarrow> 'l ESIClient \<Rightarrow> nat \<Rightarrow> 'b http_response
    \<Rightarrow> string \<Rightarrow> 'l ESIClient \<times> nat" where
  "selectLimiter newLim tnew c gl resp path =
     (let groupStr = header_get (Header resp) ''X-Ratelimit-Group''
      in if groupStr \<noteq> [] then
           (if pathToGroup c path = Some groupStr \<and> limiters c groupStr \<noteq> None
            then (c, the (limiters c groupStr))
            else if groupStr \<noteq> Name (deref c gl) \<or> limiters c groupStr = None
            then getOrCreateGroupLimiter newLim tnew c groupStr path (header_limit resp)
            else (c, gl))
         else (c, gl))"

definition updateFromHeaders :: "(float64 \<Rightarrow> int \<Rightarrow> 'l) \<Rightarrow> time \<Rightarrow> time \<Rightarrow> time \<Rightarrow> 'l ESIClient \<Rightarrow> nat
    \<Rightarrow> 'b http_response \<Rightarrow> int \<Rightarrow> string \<Rightarrow> 'l ESIClient \<times> nat" where
  "updateFromHeaders newLim now tnew t1 c gl resp tokensConsumed path =
     (let (c1, actual) = selectLimiter newLim tnew c gl resp path
      in (store_at c1 actual
            (applyFeedback now t1 (header_limit resp) resp tokensConsumed (deref c1 actual)), actual))"

section \<open>The client invariant\<close>

text \<open>
  Every pointer is allocated; the default limiter is called \<open>default\<close>; a group's limiter carries the group's name and is not the default
  limiter, so groups never share a limiter; every mapped path leads to a limiter; every limiter
  has the 15-minute window; mutexes of different paths are different.
\<close>

definition client_ok :: "'l ESIClient \<Rightarrow> bool" where
  "client_ok c \<longleftrightarrow>
     defLim c < length (heap c) \<and> Name (deref c (defLim c)) = ''default''
     \<and> (\<forall>g r. limiters c g = Some r \<longrightarrow> r < length (heap c) \<and> r \<noteq> defLim c \<and> Name (deref c r) = g)
     \<and> (\<forall>p g. pathToGroup c p = Some g \<longrightarrow> limiters c g \<noteq> None)
     \<and> (\<forall>gl\<in>set (heap c). windowDuration gl = default_window)
     \<and> (\<forall>p m. unknownGroups c p = Some m \<longrightarrow> m < mutexCount c)
     \<and> (\<forall>p q m. unknownGroups c p = Some m \<and> unknownGroups c q = Some m \<longrightarrow> p = q)"

lemma client_okI:
  assumes "defLim c < length (heap c)" and "Name (heap c ! defLim c) = ''default''"
    and "\<And>g r. limiters c g = Some r \<Longrightarrow> r < length (heap c) \<and> r \<noteq> defLim c \<and> Name (heap c ! r) = g"
    and "\<And>p g. pathToGroup c p = Some g \<Longrightarrow> limiters c g \<noteq> None"
    and "\<And>gl. gl \<in> set (heap c) \<Longrightarrow> windowDuration gl = default_window"
    and "\<And>p m. unknownGroups c p = Some m \<Longrightarrow> m < mutexCount c"
    and "\<And>p q m. unknownGroups c p = Some m \<Longrightarrow> unknownGroups c q = Some m \<Longrightarrow> p = q"
  shows "client_ok c"
  using assms by (auto simp: client_ok_def deref_def)

lemma client_okD:
  assumes "client_ok c"
  shows "defLim c < length (heap c)"
    and "limiters c g = Some r \<Longrightarrow> r < length (heap c)"
    and "limiters c g = Some r \<Longrightarrow> r \<noteq> defLim c"
    and "limiters c g = Some r \<Longrightarrow> Name (heap c ! r) = g"
    and "pathToGroup c p = Some g \<Longrightarrow> \<exists>r. limiters c g = Some r"
    and "gl \<in> set (heap c) \<Longrightarrow> windowDuration gl = default_window"
    and "unknownGroups c p = Some m \<Longrightarrow> m < mutexCount c"
    and "unknownGroups c p = Some m \<Longrightarrow> unknownGroups c q = Some m \<Longrightarrow> p = q"
    and "Name (heap c ! defLim c) = ''default''"
  using assms by (auto simp: client_ok_def deref_def)

lemma store_at_simps [simp]:
  "limiters (store_at c r gl) = limiters c"
  "defLim (store_at c r gl) = defLim c"
  "pathToGroup (store_at c r gl) = pathToGroup c"
  "unknownGroups (store_at c r gl) = unknownGroups c"
  "mutexCount (store_at c r gl) = mutexCount c"
  "heap (store_at c r gl) = (heap c)[r := gl]"
  "testMode (store_at c r gl) = testMode c"
  "testModePath (store_at c r gl) = testModePath c"
  "testModeScenario (store_at c r gl) = testModeScenario c"
  "testModeRetryAfter (store_at c r gl) = testModeRetryAfter c"
  "baseURL (store_at c r gl) = baseURL c"
  by (simp_all add: store_at_def)

lemma deref_store_at [simp]:
  "deref (store_at c r gl) s = (if s = r \<and> r < length (heap c) then gl else deref c s)"
  by (auto simp: deref_def nth_list_update list_update_beyond)

lemma client_ok_window:
  "client_ok c \<Longrightarrow> r < length (heap c) \<Longrightarrow> windowDuration (deref c r) = default_window"
  by (simp add: client_ok_def deref_def)

lemma client_ok_window_ok: "client_ok c \<Longrightarrow> r < length (heap c) \<Longrightarrow> window_ok (deref c r)"
  using default_window_bounds by (simp add: client_ok_window window_ok_def)

text \<open>Replacing a limiter by one of the same name and window keeps the invariant.\<close>

lemma client_ok_store:
  assumes "client_ok c" and "Name gl = Name (deref c r)" and "windowDuration gl = default_window"
  shows "client_ok (store_at c r gl)"
proof (rule client_okI)
  fix g s assume "limiters (store_at c r gl) g = Some s"
  then show "s < length (heap (store_at c r gl)) \<and> s \<noteq> defLim (store_at c r gl)
      \<and> Name (heap (store_at c r gl) ! s) = g"
    using assms client_okD(2-4) [OF assms(1), of g s]
    by (cases "s = r") (auto simp: deref_def)
next
  fix x assume "x \<in> set (heap (store_at c r gl))"
  then show "windowDuration x = default_window"
    using assms client_okD(6) [OF assms(1)] set_update_subset_insert [of "heap c" r gl] by auto
next
  show "Name (heap (store_at c r gl) ! defLim (store_at c r gl)) = ''default''"
    using client_okD(1,9) [OF assms(1)] assms(2) by (cases "r = defLim c") (auto simp: deref_def)
qed (use client_okD(1,5,7,8) [OF assms(1)] in auto)

lemma NewESIClient_ok: "client_ok (NewESIClient newLim getenv pd now url rps burst)"
  by (rule client_okI) (auto simp: NewESIClient_def Let_def new_group_limiter_def)

lemma AddGroupLimiter_ok:
  assumes "client_ok c"
  shows "client_ok (AddGroupLimiter newLim now c g rps burst)"
  using client_okD [OF assms]
  by (intro client_okI) (fastforce simp: AddGroupLimiter_def new_group_limiter_def nth_append
      split: if_splits)+

lemma getLimiterForPath_range:
  assumes "client_ok c" and "getLimiterForPath c path = (r, known)"
  shows "r < length (heap c)"
  using assms client_okD(1,2) [OF assms(1)]
  by (auto simp: getLimiterForPath_def split: option.splits)

lemma getLimiterForPath_cong:
  assumes "limiters c' = limiters c" and "pathToGroup c' = pathToGroup c" and "defLim c' = defLim c"
  shows "getLimiterForPath c' path = getLimiterForPath c path"
  using assms by (simp add: getLimiterForPath_def split: option.split)

lemma client_ok_map_path:
  assumes "client_ok c" and "limiters c g \<noteq> None"
  shows "client_ok (c\<lparr>pathToGroup := (pathToGroup c)(path \<mapsto> g)\<rparr>)"
  using assms by (auto simp: client_ok_def deref_def)

lemma client_ok_new_group:
  assumes "client_ok c" and "limiters c g = None" and "Name gl = g" and "windowDuration gl = default_window"
  shows "client_ok (c\<lparr>heap := heap c @ [gl], limiters := (limiters c)(g \<mapsto> length (heap c)),
    pathToGroup := (pathToGroup c)(path \<mapsto> g)\<rparr>)"
  using assms client_okD(1-5,7-9) [OF assms(1)]
  by (intro client_okI) (fastforce simp: nth_append dest: client_okD(6) [OF assms(1)] split: if_splits)+

lemma getOrCreateGroupLimiter_ok:
  assumes "client_ok c" and "getOrCreateGroupLimiter newLim now c g path lim = (c', r)"
  shows "client_ok c'"
proof (cases "limiters c g")
  case None
  then show ?thesis
    using assms by (auto simp: getOrCreateGroupLimiter_def Let_def new_group_limiter_def
        intro!: client_ok_new_group)
next
  case (Some s)
  have "client_ok (store_at c s (deref c s\<lparr>tokenLimit := lim\<rparr>))"
    using assms(1) client_ok_window [OF assms(1)] client_okD(2) [OF assms(1) Some]
    by (intro client_ok_store) auto
  from client_ok_map_path [OF this, of g path] client_ok_map_path [OF assms(1), of g path]
  show ?thesis
    using assms(2) Some by (auto simp: getOrCreateGroupLimiter_def Let_def split: if_splits)
qed

lemma getOrCreateGroupLimiter_props:
  assumes "client_ok c" and "getOrCreateGroupLimiter newLim now c g path lim = (c', r)"
  shows "pathToGroup c' = (pathToGroup c)(path \<mapsto> g)"
    and "limiters c' = (limiters c)(g \<mapsto> r)"
    and "defLim c' = defLim c" and "length (heap c) \<le> length (heap c')"
    and "unknownGroups c' = unknownGroups c" and "mutexCount c' = mutexCount c"
    and "testMode c' = testMode c" and "baseURL c' = baseURL c"
    and "s < length (heap c) \<Longrightarrow> s \<noteq> r \<Longrightarrow> deref c' s = deref c s"
  using assms
  by (auto simp: getOrCreateGroupLimiter_def Let_def deref_def nth_append split: option.splits if_splits)

lemma getOrCreateGroupLimiter_range:
  assumes "client_ok c" and "getOrCreateGroupLimiter newLim now c g path lim = (c', r)"
  shows "r < length (heap c')"
  using client_okD(2) [OF getOrCreateGroupLimiter_ok [OF assms], of g r]
    getOrCreateGroupLimiter_props(2) [OF assms] by simp

lemma selectLimiter_ok:
  assumes "client_ok c" and "gl < length (heap c)"
    and "selectLimiter newLim tnew c gl resp path = (c', r)"
  shows "client_ok c'" and "r < length (heap c')" and "length (heap c) \<le> length (heap c')"
    and "defLim c' = defLim c" and "unknownGroups c' = unknownGroups c"
    and "mutexCount c' = mutexCount c"
    and "s < length (heap c) \<Longrightarrow> s \<noteq> r \<Longrightarrow> deref c' s = deref c s"
proof -
  have "client_ok c' \<and> r < length (heap c') \<and> length (heap c) \<le> length (heap c')
      \<and> defLim c' = defLim c \<and> unknownGroups c' = unknownGroups c \<and> mutexCount c' = mutexCount c
      \<and> (s < length (heap c) \<longrightarrow> s \<noteq> r \<longrightarrow> deref c' s = deref c s)"
    using assms client_okD(2) [OF assms(1)]
      getOrCreateGroupLimiter_ok [OF assms(1)] getOrCreateGroupLimiter_range [OF assms(1)]
      getOrCreateGroupLimiter_props [OF assms(1)]
    by (auto simp: selectLimiter_def Let_def split: if_splits)
  then show "client_ok c'" and "r < length (heap c')" and "length (heap c) \<le> length (heap c')"
    and "defLim c' = defLim c" and "unknownGroups c' = unknownGroups c"
    and "mutexCount c' = mutexCount c"
    and "s < length (heap c) \<Longrightarrow> s \<noteq> r \<Longrightarrow> deref c' s = deref c s" by auto
qed

lemma updateFromHeaders_split:
  "updateFromHeaders newLim now tnew t1 c gl resp tok path = (c', r) \<longleftrightarrow>
   (\<exists>c1. selectLimiter newLim tnew c gl resp path = (c1, r) \<and>
      c' = store_at c1 r (applyFeedback now t1 (header_limit resp) resp tok (deref c1 r)))"
  by (auto simp: updateFromHeaders_def split: prod.splits)

lemma updateFromHeaders_ok:
  assumes "client_ok c" and "gl < length (heap c)"
    and "updateFromHeaders newLim now tnew t1 c gl resp tok path = (c', r)"
  shows "client_ok c'" and "r < length (heap c')" and "length (heap c) \<le> length (heap c')"
    and "defLim c' = defLim c" and "unknownGroups c' = unknownGroups c"
    and "mutexCount c' = mutexCount c"
    and "s < length (heap c) \<Longrightarrow> s \<noteq> r \<Longrightarrow> deref c' s = deref c s"
proof -
  obtain c1 where c1: "selectLimiter newLim tnew c gl resp path = (c1, r)"
      "c' = store_at c1 r (applyFeedback now t1 (header_limit resp) resp tok (deref c1 r))"
    using assms(3) by (auto simp: updateFromHeaders_split)
  note sel = selectLimiter_ok [OF assms(1,2) c1(1)]
  show "client_ok c'"
    using sel(1,2) client_ok_window [OF sel(1,2)] unfolding c1(2)
    by (intro client_ok_store) simp_all
  show "r < length (heap c')" "length (heap c) \<le> length (heap c')" "defLim c' = defLim c"
    "unknownGroups c' = unknownGroups c" "mutexCount c' = mutexCount c"
    using sel c1(2) by simp_all
  show "s < length (heap c) \<Longrightarrow> s \<noteq> r \<Longrightarrow> deref c' s = deref c s"
    using sel(7) c1(2) by simp
qed

lemma getMutexForUnknownPath_ok:
  assumes "client_ok c" and "getMutexForUnknownPath c path = (c', m)"
  shows "client_ok c'" and "unknownGroups c' path = Some m"
    and "heap c' = heap c" and "limiters c' = limiters c" and "pathToGroup c' = pathToGroup c"
    and "defLim c' = defLim c"
    and "unknownGroups c p = Some n \<Longrightarrow> unknownGroups c' p = Some n"
proof -
  show "client_ok c'"
  proof (cases "unknownGroups c path")
    case None
    then have c': "c' = c\<lparr>unknownGroups := (unknownGroups c)(path \<mapsto> mutexCount c),
        mutexCount := Suc (mutexCount c)\<rparr>"
      using assms(2) by (auto simp: getMutexForUnknownPath_def)
    have fresh: "unknownGroups c p \<noteq> Some (mutexCount c)" for p
      using client_okD(7) [OF assms(1)] by blast
    show ?thesis
      unfolding c'
      using client_okD(1-6,9) [OF assms(1)] client_okD(7,8) [OF assms(1)] fresh fresh [symmetric]
      by (intro client_okI) (auto simp: less_Suc_eq split: if_splits)
  next
    case (Some n)
    then show ?thesis using assms by (simp add: getMutexForUnknownPath_def)
  qed
  show "unknownGroups c' path = Some m"
    and "heap c' = heap c" and "limiters c' = limiters c" and "pathToGroup c' = pathToGroup c"
    and "defLim c' = defLim c"
    and "unknownGroups c p = Some n \<Longrightarrow> unknownGroups c' p = Some n"
    using assms by (auto simp: getMutexForUnknownPath_def split: option.splits)
qed

text \<open>The limiter a response is charged to is the one its path is looked up under from then on,
  for every group but one called \<open>default\<close>.\<close>

lemma selectLimiter_resolves:
  assumes ok: "client_ok c" and sel: "selectLimiter newLim tnew c gl resp path = (c', r)"
    and gl: "gl = fst (getLimiterForPath c path)"
    and g: "header_get (Header resp) ''X-Ratelimit-Group'' \<noteq> ''default''"
  shows "fst (getLimiterForPath c' path) = r"
proof -
  let ?g = "header_get (Header resp) ''X-Ratelimit-Group''"
  have name: "Name (deref c gl) = ''default'' \<or> pathToGroup c path = Some (Name (deref c gl))"
    using client_okD(9) [OF ok] client_okD(4) [OF ok]
    by (auto simp: gl getLimiterForPath_def deref_def split: option.splits)
  show ?thesis
  proof (cases "?g = [] \<or> pathToGroup c path = Some ?g \<and> limiters c ?g \<noteq> None")
    case True
    then show ?thesis using sel gl
      by (auto simp: selectLimiter_def Let_def getLimiterForPath_def split: if_splits)
  next
    case False
    then have "getOrCreateGroupLimiter newLim tnew c ?g path (header_limit resp) = (c', r)"
      using sel name g by (auto simp: selectLimiter_def Let_def split: if_splits)
    from getOrCreateGroupLimiter_props [OF ok this]
    show ?thesis by (simp add: getLimiterForPath_def)
  qed
qed

lemma selectLimiter_discovers:
  assumes ok: "client_ok c" and sel: "selectLimiter newLim tnew c gl resp path = (c', r)"
    and gl: "gl = fst (getLimiterForPath c path)"
    and g: "header_get (Header resp) ''X-Ratelimit-Group'' = g" "g \<noteq> []" "g \<noteq> ''default''"
  shows "pathToGroup c' path = Some g" and "limiters c' g = Some r"
proof -
  have name: "Name (deref c gl) = ''default'' \<or> pathToGroup c path = Some (Name (deref c gl))"
    using client_okD(9) [OF ok] client_okD(4) [OF ok]
    by (auto simp: gl getLimiterForPath_def deref_def split: option.splits)
  have "pathToGroup c' path = Some g \<and> limiters c' g = Some r"
  proof (cases "pathToGroup c path = Some g \<and> limiters c g \<noteq> None")
    case True
    then show ?thesis using sel g by (auto simp: selectLimiter_def Let_def)
  next
    case False
    then have "getOrCreateGroupLimiter newLim tnew c g path (header_limit resp) = (c', r)"
      using sel name g by (auto simp: selectLimiter_def Let_def split: if_splits)
    from getOrCreateGroupLimiter_props [OF ok this] show ?thesis by simp
  qed
  then show "pathToGroup c' path = Some g" and "limiters c' g = Some r" by auto
qed

text \<open>Groups never lose or change their limiter.\<close>

lemma selectLimiter_limiters:
  assumes "client_ok c" and "selectLimiter newLim tnew c gl resp path = (c', r)"
    and "limiters c g = Some s"
  shows "limiters c' g = Some s"
proof -
  have "getOrCreateGroupLimiter newLim tnew c h path lim = (c', r) \<Longrightarrow> limiters c' g = Some s" for h lim
    using assms(3) by (cases "limiters c h") (auto simp: getOrCreateGroupLimiter_def Let_def split: if_splits)
  then show ?thesis
    using assms by (auto simp: selectLimiter_def Let_def split: if_splits)
qed

end
