(* ===== verification/Esi_Requests.thy ===== *)
theory Esi_Requests
  imports Esi_Client
begin

text \<open>
  The request path of the ESI client (\<open>Do\<close>, \<open>DoRequest\<close>, the test mode) in
  \<open>internal/core/esi/rate_limited_client.go\<close> and the default headers of
  \<open>internal/shared/httpclient/headers.go\<close>.

  What a call gets from outside is a record \<open>call_env\<close>: its readings of the clock (\<open>rd i\<close> is the
  i-th reading that matters, in the order of the code), the third-party rate limiter's
  constructor and what its \<open>Wait\<close> returns, whether \<open>http.NewRequestWithContext\<close> accepts the
  method and URL, the answer of the transport, and what reading the body gives. Request headers
  are a list in the order in which Go's map iteration yields them.
\<close>

record ('l, 'b) call_env =
  rd :: "nat \<Rightarrow> time"
  new_limiter :: "float64 \<Rightarrow> int \<Rightarrow> 'l"
  limiter_wait :: "'l \<Rightarrow> 'l \<times> go_error option"
  new_request :: "string \<Rightarrow> string \<Rightarrow> go_error option"
  transport :: "http_request \<Rightarrow> go_error + 'b http_response"
  read_all :: "'b \<Rightarrow> go_error + string"

section \<open>Headers\<close>

definition user_agent :: string where
  "user_agent = ''Eve Industry Planner Standalone/V1.0 (eve:Oswold Saraki/Reginal Shardani; discordID:darcy561; discordURL:+https://discord.gg/KGSa8gh37z; Github:+https://github.com/darcy561/Eve-Industry-Planner-React)''"

definition DefaultHeaders :: "(string \<times> string) list" where
  "DefaultHeaders = [(''User-Agent'', user_agent)]"

fun apply_defaults :: "(string \<times> string) list \<Rightarrow> header \<Rightarrow> header" where
  "apply_defaults [] h = h"
| "apply_defaults ((key, v) # rest) h =
     apply_defaults rest (if header_get h key = [] then header_set h key v else h)"

definition ApplyDefaultHeaders :: "header \<Rightarrow> header" where
  "ApplyDefaultHeaders h = apply_defaults DefaultHeaders h"

fun set_headers :: "(string \<times> string) list \<Rightarrow> header \<Rightarrow> header" where
  "set_headers [] h = h"
| "set_headers ((key, v) # rest) h = set_headers rest (header_set h key v)"

definition send_request :: "('l, 'b) call_env \<Rightarrow> string \<Rightarrow> string \<Rightarrow> (string \<times> string) list
    \<Rightarrow> go_error + 'b http_response" where
  "send_request env meth url headers =
     (case new_request env meth url of
        Some err \<Rightarrow> Inl err
      | None \<Rightarrow>
          transport env \<lparr>ReqMethod = meth, ReqURL = url,
            ReqHeader = set_headers headers (ApplyDefaultHeaders Map.empty)\<rparr>)"

section \<open>Test mode\<close>

definition shouldInjectTestError :: "'l ESIClient \<Rightarrow> string \<Rightarrow> bool" where
  "shouldInjectTestError c path =
     (if \<not> testMode c then False
      else if testModePath c = [] then True
      else has_prefix path (testModePath c))"

text \<open>\<open>now0\<close> is read before the switch, \<open>now1\<close> by the scenario.\<close>

definition injectTestRateLimitError :: "time \<Rightarrow> time \<Rightarrow> 'l ESIClient \<Rightarrow> 'l GroupLimiter \<Rightarrow> int
    \<Rightarrow> RateLimitError option" where
  "injectTestRateLimitError now0 now1 c gl estimatedTokens =
     (let mk = (\<lambda>retryable retryAfterTime reason.
            \<lparr>Retryable = retryable, RetryAfter = retryAfterTime, Reason = reason, Group = Name gl,
             TokenUsed = tokenUsed gl, TokenLimit = tokenLimit gl,
             EstimatedTokens = estimatedTokens\<rparr>)
      in if testModeScenario c = ''retryable_short'' then
           Some (mk True (time_add now1 (30 * second)) ''test mode: retryable rate limit (short delay)'')
         else if testModeScenario c = ''retryable_long'' then
           Some (mk True (time_add now1 (testModeRetryAfter c)) ''test mode: retryable rate limit (long delay)'')
         else if testModeScenario c = ''non_retryable'' then
           Some (mk False zero_time ''test mode: non-retryable rate limit (insufficient tokens, >5 min wait)'')
         else if testModeScenario c = ''429_response'' then None
         else Some (mk True (time_add now1 (30 * second)) ''test mode: default retryable rate limit''))"

section \<open>Requests\<close>

definition estimated_tokens :: int where
  "estimated_tokens = 2"

text \<open>From the test mode to \<open>Limiter.Wait\<close>: readings 0 to 4.\<close>

definition preflight :: "('l, 'b) call_env \<Rightarrow> 'l ESIClient \<Rightarrow> nat \<Rightarrow> string
    \<Rightarrow> 'l ESIClient \<times> go_error option" where
  "preflight env c r path =
     (case (if testMode c \<and> shouldInjectTestError c path
            then injectTestRateLimitError (rd env 0) (rd env 1) c (deref c r) estimated_tokens
            else None) of
        Some testErr \<Rightarrow> (c, Some (ErrRateLimit testErr))
      | None \<Rightarrow>
          (case canMakeRequest (rd env 2) (rd env 3) (rd env 4) estimated_tokens (deref c r) of
             (gl, Some err) \<Rightarrow> (store_at c r gl, Some err)
           | (gl, None) \<Rightarrow>
               (case limiter_wait env (Limiter gl) of
                  (l, Some err) \<Rightarrow>
                    (store_at c r (gl\<lparr>Limiter := l\<rparr>), Some (ErrWrap ''rate wait failed: '' err))
                | (l, None) \<Rightarrow> (store_at c r (gl\<lparr>Limiter := l\<rparr>), None))))"

definition classify_429 :: "time \<Rightarrow> time \<Rightarrow> 'l GroupLimiter \<Rightarrow> 'b http_response \<Rightarrow> int \<Rightarrow> RateLimitError" where
  "classify_429 now0 now1 gl resp tokensConsumed =
     (let retryAfterStr = header_get (Header resp) ''Retry-After'';
          (retryable, retryAfterTime) =
            (if retryAfterStr \<noteq> [] then
               (case atoi retryAfterStr of
                  Some seconds \<Rightarrow> (True, time_add now1 (dur_mul seconds second))
                | None \<Rightarrow> (False, time_add now0 (15 * minute)))
             else (False, time_add now0 (15 * minute)))
      in \<lparr>Retryable = retryable, RetryAfter = retryAfterTime,
          Reason = ''server returned 429 Too Many Requests'', Group = Name gl,
          TokenUsed = tokenUsed gl, TokenLimit = tokenLimit gl, EstimatedTokens = tokensConsumed\<rparr>)"

text \<open>
  \<open>DoRequest\<close>. The limiter is looked up first; an unknown path gets its mutex, which the call
  holds until it returns (the interleavings are in \<open>Discovery_Lock\<close>).
\<close>

definition lookup_limiter :: "'l ESIClient \<Rightarrow> string \<Rightarrow> 'l ESIClient \<times> nat" where
  "lookup_limiter c path =
     (case getLimiterForPath c path of
        (gl, True) \<Rightarrow> (c, gl)
      | (gl, False) \<Rightarrow> (fst (getMutexForUnknownPath c path), gl))"

definition DoRequest :: "('l, 'b) call_env \<Rightarrow> 'l ESIClient \<Rightarrow> string \<Rightarrow> string \<Rightarrow> (string \<times> string) list
    \<Rightarrow> 'l ESIClient \<times> (go_error + 'b http_response)" where
  "DoRequest env c0 meth path headers =
     (let (c1, gl) = lookup_limiter c0 path
      in case preflight env c1 gl path of
           (c2, Some err) \<Rightarrow> (c2, Inl err)
         | (c2, None) \<Rightarrow>
             (case send_request env meth (baseURL c2 @ path) headers of
                Inl err \<Rightarrow> (c2, Inl err)
              | Inr resp \<Rightarrow>
                  (let tokensConsumed = getTokensForStatus (StatusCode resp);
                       (c3, actual) = updateFromHeaders (new_limiter env) (rd env 5) (rd env 6)
                                        (rd env 7) c2 gl resp tokensConsumed path
                   in if StatusCode resp = status_too_many_requests
                      then (c3, Inl (ErrRateLimit
                             (classify_429 (rd env 8) (rd env 9) (deref c3 actual) resp tokensConsumed)))
                      else (c3, Inr resp))))"

text \<open>\<open>Do\<close> returns the body (nil is the empty list), the response and the error.\<close>

definition Do :: "('l, 'b) call_env \<Rightarrow> 'l ESIClient \<Rightarrow> string \<Rightarrow> string \<Rightarrow> (string \<times> string) list
    \<Rightarrow> 'l ESIClient \<times> string \<times> 'b http_response option \<times> go_error option" where
  "Do env c0 meth path headers =
     (let (c1, gl) = lookup_limiter c0 path
      in case preflight env c1 gl path of
           (c2, Some err) \<Rightarrow> (c2, [], None, Some err)
         | (c2, None) \<Rightarrow>
             (case send_request env meth (baseURL c2 @ path) headers of
                Inl err \<Rightarrow> (c2, [], None, Some err)
              | Inr resp \<Rightarrow>
                  (let tokensConsumed = getTokensForStatus (StatusCode resp);
                       (c3, actual) = updateFromHeaders (new_limiter env) (rd env 5) (rd env 6)
                                        (rd env 7) c2 gl resp tokensConsumed path
                   in case read_all env (Body resp) of
                        Inl err \<Rightarrow> (c3, [], Some resp, Some err)
                      | Inr body \<Rightarrow>
                          if StatusCode resp = status_too_many_requests
                          then (c3, [], Some resp, Some (ErrRateLimit
                                 (classify_429 (rd env 8) (rd env 9) (deref c3 actual) resp
                                    tokensConsumed)))
                          else (c3, body, Some resp, None))))"

section \<open>The invariant\<close>

lemma lookup_limiter_ok:
  assumes "client_ok c" and "lookup_limiter c path = (c', r)"
  shows "client_ok c'" and "r < length (heap c')" and "heap c' = heap c"
    and "limiters c' = limiters c" and "pathToGroup c' = pathToGroup c" and "defLim c' = defLim c"
    and "getLimiterForPath c' path = getLimiterForPath c path"
    and "fst (getLimiterForPath c path) = r"
proof -
  obtain g k where g: "getLimiterForPath c path = (g, k)" by (cases "getLimiterForPath c path")
  obtain c2 m where m: "getMutexForUnknownPath c path = (c2, m)"
    by (cases "getMutexForUnknownPath c path")
  have c': "r = g" "c' = (if k then c else c2)"
    using assms(2) g m by (cases k; simp add: lookup_limiter_def)+
  show "client_ok c'" "heap c' = heap c" "limiters c' = limiters c" "pathToGroup c' = pathToGroup c"
    "defLim c' = defLim c"
    using c' assms(1) getMutexForUnknownPath_ok [OF assms(1) m] by auto
  then show "r < length (heap c')" "getLimiterForPath c' path = getLimiterForPath c path"
    "fst (getLimiterForPath c path) = r"
    using getLimiterForPath_range [OF assms(1) g] c'(1) g
      getLimiterForPath_cong [of c' c path] by simp_all
qed

text \<open>The admission test and the wait touch the limiter of the call alone, and of it neither the
  name nor the window.\<close>

lemma preflight_cases:
  assumes "preflight env c r path = (c', e)"
  obtains "c' = c" | gl where "c' = store_at c r gl" "Name gl = Name (deref c r)"
    "windowDuration gl = windowDuration (deref c r)" "tokenLimit gl = tokenLimit (deref c r)"
proof (cases "if testMode c \<and> shouldInjectTestError c path
    then injectTestRateLimitError (rd env 0) (rd env 1) c (deref c r) estimated_tokens else None")
  case (Some x)
  then show ?thesis using assms that(1) by (simp add: preflight_def)
next
  case None
  obtain gl err where gl: "canMakeRequest (rd env 2) (rd env 3) (rd env 4) estimated_tokens (deref c r) = (gl, err)"
    by (cases "canMakeRequest (rd env 2) (rd env 3) (rd env 4) estimated_tokens (deref c r)")
  have "gl = cleanupOldConsumptions (rd env 2) (deref c r)"
    using canMakeRequest_state [of "rd env 2" "rd env 3" "rd env 4" estimated_tokens "deref c r"] gl by simp
  then show ?thesis
    using assms None gl that(2) [of gl] that(2) [of "gl\<lparr>Limiter := fst (limiter_wait env (Limiter gl))\<rparr>"]
    by (auto simp: preflight_def split: option.splits prod.splits)
qed

lemma preflight_ok:
  assumes "client_ok c" and "r < length (heap c)" and "preflight env c r path = (c', e)"
  shows "client_ok c'" and "length (heap c') = length (heap c)" and "limiters c' = limiters c"
    and "pathToGroup c' = pathToGroup c" and "defLim c' = defLim c"
    and "Name (deref c' r) = Name (deref c r)"
    and "s \<noteq> r \<Longrightarrow> deref c' s = deref c s"
  using assms(3)
  by (rule preflight_cases; use assms client_ok_window [OF assms(1,2)] in
      \<open>auto intro!: client_ok_store\<close>)+

text \<open>The three ways a call of \<open>DoRequest\<close> ends: refused before the network, failed in the network,
  answered.\<close>

lemma DoRequest_cases:
  assumes "DoRequest env c meth path headers = (c', res)"
  obtains (refused) c1 gl err where "lookup_limiter c path = (c1, gl)"
      "preflight env c1 gl path = (c', Some err)" "res = Inl err"
  | (failed) c1 gl err where "lookup_limiter c path = (c1, gl)"
      "preflight env c1 gl path = (c', None)"
      "send_request env meth (baseURL c' @ path) headers = Inl err" "res = Inl err"
  | (answered) c1 gl c2 resp actual where "lookup_limiter c path = (c1, gl)"
      "preflight env c1 gl path = (c2, None)"
      "send_request env meth (baseURL c2 @ path) headers = Inr resp"
      "updateFromHeaders (new_limiter env) (rd env 5) (rd env 6) (rd env 7) c2 gl resp
         (getTokensForStatus (StatusCode resp)) path = (c', actual)"
      "res = (if StatusCode resp = status_too_many_requests
              then Inl (ErrRateLimit (classify_429 (rd env 8) (rd env 9) (deref c' actual) resp
                     (getTokensForStatus (StatusCode resp))))
              else Inr resp)"
proof -
  obtain c1 gl where l: "lookup_limiter c path = (c1, gl)" by (cases "lookup_limiter c path")
  obtain c2 e where p: "preflight env c1 gl path = (c2, e)" by (cases "preflight env c1 gl path")
  show ?thesis
  proof (cases e)
    case (Some err)
    then have "c2 = c'" "res = Inl err" using assms l p by (simp_all add: DoRequest_def)
    then show ?thesis using refused [of c1 gl err] l p Some by simp
  next
    case None
    show ?thesis
    proof (cases "send_request env meth (baseURL c2 @ path) headers")
      case (Inl err)
      then have "c2 = c'" "res = Inl err" using assms l p None by (simp_all add: DoRequest_def)
      then show ?thesis using failed [of c1 gl err] l p None Inl by simp
    next
      case (Inr resp)
      obtain c3 actual where u: "updateFromHeaders (new_limiter env) (rd env 5) (rd env 6) (rd env 7)
          c2 gl resp (getTokensForStatus (StatusCode resp)) path = (c3, actual)"
        by (cases "updateFromHeaders (new_limiter env) (rd env 5) (rd env 6) (rd env 7)
          c2 gl resp (getTokensForStatus (StatusCode resp)) path")
      then have c3: "c3 = c'" using assms l p None Inr by (simp add: DoRequest_def split: if_splits)
      have "res = (if StatusCode resp = status_too_many_requests
              then Inl (ErrRateLimit (classify_429 (rd env 8) (rd env 9) (deref c3 actual) resp
                     (getTokensForStatus (StatusCode resp))))
              else Inr resp)"
        using assms l p None Inr u by (auto simp: DoRequest_def split: if_splits)
      then show ?thesis using answered [of c1 gl c2 resp actual] l p None Inr u c3 by simp
    qed
  qed
qed

lemma DoRequest_steps:
  assumes ok: "client_ok c" and run: "DoRequest env c meth path headers = (c', res)"
  shows "client_ok c'" and "defLim c' = defLim c" and "length (heap c) \<le> length (heap c')"
    and "limiters c g = Some s \<Longrightarrow> limiters c' g = Some s"
proof -
  have "client_ok c' \<and> defLim c' = defLim c \<and> length (heap c) \<le> length (heap c')
    \<and> (limiters c g = Some s \<longrightarrow> limiters c' g = Some s)"
    using run
  proof (cases rule: DoRequest_cases)
    case (refused c1 gl err)
    note l = lookup_limiter_ok [OF ok refused(1)]
    show ?thesis using l preflight_ok(1-5) [OF l(1,2) refused(2)] by auto
  next
    case (failed c1 gl err)
    note l = lookup_limiter_ok [OF ok failed(1)]
    show ?thesis using l preflight_ok(1-5) [OF l(1,2) failed(2)] by auto
  next
    case (answered c1 gl c2 resp actual)
    note l = lookup_limiter_ok [OF ok answered(1)]
    note p = preflight_ok(1-5) [OF l(1,2) answered(2)]
    have r: "gl < length (heap c2)" using l(2) p(2) by simp
    note u = updateFromHeaders_ok(1-4) [OF p(1) r answered(4)]
    obtain c3 where c3: "selectLimiter (new_limiter env) (rd env 6) c2 gl resp path = (c3, actual)"
        "limiters c' = limiters c3"
      using answered(4) by (auto simp: updateFromHeaders_split)
    have keep: "limiters c g = Some s \<longrightarrow> limiters c' g = Some s"
      using selectLimiter_limiters [OF p(1) c3(1)] c3(2) l(4) p(3) by simp
    show ?thesis using u l(3,6) p(2,5) keep by simp
  qed
  then show "client_ok c'" and "defLim c' = defLim c" and "length (heap c) \<le> length (heap c')"
    and "limiters c g = Some s \<Longrightarrow> limiters c' g = Some s"
    by blast+
qed

section \<open>Do and DoRequest\<close>

lemma Do_state: "fst (Do env c meth path headers) = fst (DoRequest env c meth path headers)"
  by (simp add: Do_def DoRequest_def Let_def split: prod.splits option.splits sum.splits)

text \<open>C6: \<open>Do\<close> is \<open>DoRequest\<close> with the body read. Both leave the client in the same state; when
  the body can be read, \<open>Do\<close> returns an error exactly when \<open>DoRequest\<close> does, the same one and no
  body, and otherwise the same response with its body.\<close>

theorem Do_refines_DoRequest:
  assumes "\<forall>b. \<exists>body. read_all env b = Inr body"
  shows "fst (Do env c meth path headers) = fst (DoRequest env c meth path headers) \<and>
    (case snd (DoRequest env c meth path headers) of
       Inl err \<Rightarrow> \<exists>resp. snd (Do env c meth path headers) = ([], resp, Some err)
     | Inr resp \<Rightarrow> \<exists>body. read_all env (Body resp) = Inr body \<and>
         snd (Do env c meth path headers) = (body, Some resp, None))"
proof
  show "fst (Do env c meth path headers) = fst (DoRequest env c meth path headers)" by (rule Do_state)
  have reads: "read_all env b \<noteq> Inl e" for b e using assms by (metis sum.distinct(1))
  show "case snd (DoRequest env c meth path headers) of
       Inl err \<Rightarrow> \<exists>resp. snd (Do env c meth path headers) = ([], resp, Some err)
     | Inr resp \<Rightarrow> \<exists>body. read_all env (Body resp) = Inr body \<and>
         snd (Do env c meth path headers) = (body, Some resp, None)"
    using reads
    by (auto simp: Do_def DoRequest_def Let_def split: prod.splits option.splits sum.splits if_splits)
qed

section \<open>Reachable clients\<close>

text \<open>The clients a program can get to: constructed, then changed by its operations in any order
  and with any outside behaviour.\<close>

inductive client_step :: "'l ESIClient \<Rightarrow> 'l ESIClient \<Rightarrow> bool" where
  add_group: "client_step c (AddGroupLimiter newLim now c g rps burst)"
| do_request: "client_step c (fst (DoRequest (env :: ('l, unit) call_env) c meth path headers))"
| do_body: "client_step c (fst (Do (env :: ('l, unit) call_env) c meth path headers))"

inductive client_reachable :: "'l ESIClient \<Rightarrow> bool" where
  created: "client_reachable (NewESIClient newLim getenv pd now url rps burst)"
| stepped: "client_reachable c \<Longrightarrow> client_step c c' \<Longrightarrow> client_reachable c'"

lemma client_step_ok: "client_step c c' \<Longrightarrow> client_ok c \<Longrightarrow> client_ok c'"
proof (induction rule: client_step.induct)
  case (add_group c newLim now g rps burst)
  then show ?case by (rule AddGroupLimiter_ok)
next
  case (do_request c env meth path headers)
  then show ?case using DoRequest_steps(1) by (metis prod.collapse)
next
  case (do_body c env meth path headers)
  then show ?case using DoRequest_steps(1) unfolding Do_state by (metis prod.collapse)
qed

lemma client_reachable_ok: "client_reachable c \<Longrightarrow> client_ok c"
  by (induction rule: client_reachable.induct) (auto intro: NewESIClient_ok client_step_ok)

text \<open>C4: in every reachable client no two groups share a limiter, no group uses the default
  limiter, a mapped path always leads to a limiter of its group, and every limiter has the
  15-minute window.\<close>

theorem reachable_groups_separate:
  assumes "client_reachable c"
  shows "(\<forall>g h r. limiters c g = Some r \<and> limiters c h = Some r \<longrightarrow> g = h)
    \<and> (\<forall>g. limiters c g \<noteq> Some (defLim c))
    \<and> (\<forall>p g. pathToGroup c p = Some g \<longrightarrow>
         (\<exists>r. getLimiterForPath c p = (r, True) \<and> Name (deref c r) = g))
    \<and> (\<forall>r<length (heap c). windowDuration (deref c r) = default_window)"
proof -
  have ok: "client_ok c" using assms by (rule client_reachable_ok)
  have "g = h" if "limiters c g = Some r" "limiters c h = Some r" for g h r
    using client_okD(4) [OF ok that(1)] client_okD(4) [OF ok that(2)] by simp
  moreover have "limiters c g \<noteq> Some (defLim c)" for g using client_okD(3) [OF ok] by blast
  moreover have "\<exists>r. getLimiterForPath c p = (r, True) \<and> Name (deref c r) = g"
    if "pathToGroup c p = Some g" for p g
    using client_okD(5) [OF ok that] client_okD(4) [OF ok] that
    by (auto simp: getLimiterForPath_def deref_def)
  ultimately show ?thesis using client_ok_window [OF ok] by blast
qed

section \<open>What a call does\<close>

text \<open>A call that the client refuses (test mode, retry-after period, not enough tokens, the
  rate limiter) never touches the network: its result does not depend on the transport.\<close>

theorem refused_before_network:
  assumes "lookup_limiter c path = (c1, gl)" and "snd (preflight env c1 gl path) = Some err"
  shows "DoRequest (env\<lparr>transport := net\<rparr>) c meth path headers = DoRequest env c meth path headers
    \<and> snd (DoRequest env c meth path headers) = Inl err"
proof -
  have "preflight (env\<lparr>transport := net\<rparr>) c1 gl path = preflight env c1 gl path"
    by (auto simp: preflight_def split: option.split prod.split)
  then show ?thesis using assms by (auto simp: DoRequest_def split: prod.splits)
qed



text \<open>The test mode is fixed at construction.\<close>

lemma getOrCreate_testMode: "testMode (fst (getOrCreateGroupLimiter newLim now c g path lim)) = testMode c"
  by (simp add: getOrCreateGroupLimiter_def Let_def split: option.split)

lemma selectLimiter_testMode:
  "selectLimiter newLim tnew c gl resp path = (c', r) \<Longrightarrow> testMode c' = testMode c"
  using getOrCreate_testMode [of newLim tnew c _ path "header_limit resp"]
  by (auto simp: selectLimiter_def Let_def split: if_splits) (metis fst_conv)+

lemma lookup_limiter_testMode: "lookup_limiter c path = (c', r) \<Longrightarrow> testMode c' = testMode c"
  by (auto simp: lookup_limiter_def getMutexForUnknownPath_def split: prod.splits bool.splits option.splits)

lemma preflight_testMode:
  assumes "preflight env c r path = (c', e)" shows "testMode c' = testMode c"
  using assms by (rule preflight_cases) simp_all

text \<open>A limiter inside its retry-after period refuses, with that instant as the hint.\<close>

lemma preflight_blocked:
  assumes "\<not> testMode c" and "rd env 3 < retryAfter (deref c r)"
  shows "\<exists>e. snd (preflight env c r path) = Some (ErrRateLimit e) \<and> Retryable e
    \<and> RetryAfter e = retryAfter (deref c r)"
  using assms by (simp add: preflight_def canMakeRequest_def Let_def)

lemma applyFeedback_429:
  assumes "StatusCode resp = status_too_many_requests"
    and "header_get (Header resp) ''Retry-After'' \<noteq> []"
    and "atoi (header_get (Header resp) ''Retry-After'') = Some s"
  shows "retryAfter (applyFeedback now t1 lim resp tok gl) = time_add now (dur_mul s second)"
  using assms by (simp add: applyFeedback_def Let_def feedback_retry_def)


section \<open>Witnesses\<close>

definition sample_response :: "int \<Rightarrow> string \<Rightarrow> string \<Rightarrow> unit http_response" where
  "sample_response status grp retry =
     \<lparr>StatusCode = status,
      Header = header_set (header_set Map.empty ''X-Ratelimit-Group'' grp) ''Retry-After'' retry,
      Body = ()\<rparr>"

definition sample_env :: "time \<Rightarrow> unit http_response \<Rightarrow> (unit, unit) call_env" where
  "sample_env t resp =
     \<lparr>rd = (\<lambda>_. t), new_limiter = (\<lambda>_ _. ()), limiter_wait = (\<lambda>l. (l, None)),
      new_request = (\<lambda>_ _. None), transport = (\<lambda>_. Inr resp), read_all = (\<lambda>_. Inr ''[]'')\<rparr>"

definition sample_client :: "unit ESIClient" where
  "sample_client = NewESIClient (\<lambda>_ _. ()) (\<lambda>_. []) (\<lambda>_. None) 0 ''http:'' 0 1"

lemma sample_client_ok: "client_ok sample_client"
  unfolding sample_client_def by (rule NewESIClient_ok)

text \<open>The path is unknown, so the call goes through the default limiter.\<close>

lemma sample_lookup:
  "lookup_limiter sample_client p = (fst (getMutexForUnknownPath sample_client p), 0)"
  by (simp add: lookup_limiter_def getLimiterForPath_def sample_client_def NewESIClient_def Let_def)

lemma sample_preflight:
  assumes "0 \<le> t"
  shows "\<exists>c2. preflight (sample_env t resp) (fst (getMutexForUnknownPath sample_client p)) 0 p = (c2, None)"
  using assms
  by (simp add: preflight_def sample_env_def sample_client_def NewESIClient_def Let_def deref_def
      getMutexForUnknownPath_def new_group_limiter_def canMakeRequest_def cleanupOldConsumptions_def
      zero_time_def time_units i64_def estimated_tokens_def)

lemma sample_send: "send_request (sample_env t resp) meth url hs = Inr resp"
  by (simp add: send_request_def sample_env_def)

lemma sample_answer:
  assumes "0 \<le> t" and "StatusCode resp \<noteq> status_too_many_requests"
  shows "snd (DoRequest (sample_env t resp) sample_client meth p hs) = Inr resp"
proof -
  obtain c2 where pf: "preflight (sample_env t resp) (fst (getMutexForUnknownPath sample_client p)) 0 p
      = (c2, None)" using sample_preflight [OF assms(1)] by blast
  show ?thesis
    unfolding DoRequest_def sample_lookup Let_def prod.case pf option.case sample_send sum.case
    using assms(2) by (simp split: prod.split)
qed

lemma sample_headers:
  "header_get (Header (sample_response st g r)) ''X-Ratelimit-Group'' = g"
  "header_get (Header (sample_response st g r)) ''Retry-After'' = r"
proof -
  have "canonical_key ''X-Ratelimit-Group'' = ''X-Ratelimit-Group''"
    "canonical_key ''Retry-After'' = ''Retry-After''" by code_simp+
  then show "header_get (Header (sample_response st g r)) ''X-Ratelimit-Group'' = g"
    "header_get (Header (sample_response st g r)) ''Retry-After'' = r"
    by (simp_all add: sample_response_def header_get_def header_set_def)
qed

theorem Do_refines_DoRequest_witness:
  "snd (Do (sample_env 1 (sample_response 200 ''g'' '''')) sample_client ''GET'' ''/p'' []) =
     (''[]'', Some (sample_response 200 ''g'' ''''), None)"
proof -
  let ?env = "sample_env 1 (sample_response 200 ''g'' '''')"
  have "snd (DoRequest ?env sample_client ''GET'' ''/p'' []) = Inr (sample_response 200 ''g'' '''')"
    by (rule sample_answer) (simp_all add: sample_response_def status_too_many_requests_def)
  then show ?thesis
    using Do_refines_DoRequest [of ?env sample_client "''GET''" "''/p''" "[]"]
    by (simp add: sample_env_def)
qed

theorem reachable_groups_separate_witness:
  "windowDuration (deref (AddGroupLimiter (\<lambda>_ _. ()) 0 sample_client ''g'' 0 1) 1) = default_window
   \<and> limiters (AddGroupLimiter (\<lambda>_ _. ()) 0 sample_client ''g'' 0 1) ''g'' = Some 1"
proof -
  have r: "client_reachable (AddGroupLimiter (\<lambda>_ _. ()) 0 sample_client ''g'' 0 1)"
    unfolding sample_client_def by (rule stepped [OF created add_group])
  have h: "length (heap (AddGroupLimiter (\<lambda>_ _. ()) 0 sample_client ''g'' 0 1)) = 2"
      "limiters (AddGroupLimiter (\<lambda>_ _. ()) 0 sample_client ''g'' 0 1) ''g'' = Some 1"
    by (simp_all add: AddGroupLimiter_def sample_client_def NewESIClient_def Let_def)
  then show ?thesis using reachable_groups_separate [OF r] by simp
qed

theorem refused_before_network_witness:
  "snd (DoRequest (sample_env (- 62135596800000000001) (sample_response 200 ''g'' ''''))
      sample_client ''GET'' ''/p'' []) \<noteq> Inr (sample_response 200 ''g'' '''')"
proof -
  let ?env = "sample_env (- 62135596800000000001) (sample_response 200 ''g'' '''')"
  have "\<exists>e. snd (preflight ?env (fst (getMutexForUnknownPath sample_client ''/p'')) 0 ''/p'') = Some e"
    by (simp add: preflight_def sample_env_def sample_client_def NewESIClient_def Let_def deref_def
      getMutexForUnknownPath_def new_group_limiter_def canMakeRequest_def cleanupOldConsumptions_def
      zero_time_def time_units)
  then show ?thesis
    using refused_before_network [OF sample_lookup [of "''/p''"], of ?env _ undefined "''GET''" "[]"]
    by auto
qed



text \<open>A clock before the zero time is inside every retry-after period.\<close>

lemma sample_refused:
  "\<exists>r. snd (DoRequest (sample_env (- 62135596800000000001) resp) sample_client meth p hs)
     = Inl (ErrRateLimit r) \<and> Retryable r \<and> RetryAfter r = zero_time"
proof -
  let ?env = "sample_env (- 62135596800000000001) resp"
  obtain r where "snd (preflight ?env (fst (getMutexForUnknownPath sample_client p)) 0 p) = Some (ErrRateLimit r)"
      "Retryable r" "RetryAfter r = zero_time"
    by (simp add: preflight_def sample_env_def sample_client_def NewESIClient_def Let_def deref_def
      getMutexForUnknownPath_def new_group_limiter_def canMakeRequest_def cleanupOldConsumptions_def
      zero_time_def time_units)
  then show ?thesis
    by (auto simp: DoRequest_def sample_lookup split: prod.splits)
qed

end
