(* ===== verification/Discovery_Lock.thy ===== *)
theory Discovery_Lock
  imports Esi_Requests
begin

text \<open>
  Concurrent calls of \<open>Do\<close> and \<open>DoRequest\<close> (\<open>internal/core/esi/rate_limited_client.go\<close>): the sections that
  take a lock, one step each, and the mutex that a call on an unknown path holds from its acquisition
  to its return.

  A call is a thread with a phase. \<open>holder\<close> says which thread holds a mutex of \<open>unknownGroups\<close>. What a
  step meets outside (clock, limiter, network) is free: a step takes any environment. The bodies of
  the steps are the functions of \<open>Esi_Client\<close> and \<open>Esi_Requests\<close>.
\<close>

section \<open>Phases and steps\<close>

datatype phase =
    Idle
  | Started string
  | Unknown string nat
  | Wants string nat nat
  | Ready string nat "nat option"
  | InFlight string nat "nat option"
  | Finished

record 'l system =
  esi_client :: "'l ESIClient"
  holder :: "nat \<rightharpoonup> nat"
  phase_of :: "nat \<Rightarrow> phase"

definition set_phase :: "nat \<Rightarrow> phase \<Rightarrow> 'l system \<Rightarrow> 'l system" where
  "set_phase i ph s = s\<lparr>phase_of := (phase_of s)(i := ph)\<rparr>"

text \<open>The deferred unlock at the return of a call.\<close>

definition finish :: "nat \<Rightarrow> nat option \<Rightarrow> 'l system \<Rightarrow> 'l system" where
  "finish i m s =
     set_phase i Finished
       (case m of None \<Rightarrow> s | Some mutex \<Rightarrow> s\<lparr>holder := (holder s)(mutex := None)\<rparr>)"

inductive call_step :: "'l system \<Rightarrow> 'l system \<Rightarrow> bool" where
  begin_call: "phase_of s i = Idle \<Longrightarrow> call_step s (set_phase i (Started p) s)"
| known_path: "phase_of s i = Started p \<Longrightarrow> getLimiterForPath (esi_client s) p = (gl, True) \<Longrightarrow>
    call_step s (set_phase i (Ready p gl None) s)"
| unknown_path: "phase_of s i = Started p \<Longrightarrow> getLimiterForPath (esi_client s) p = (gl, False) \<Longrightarrow>
    call_step s (set_phase i (Unknown p gl) s)"
| get_mutex: "phase_of s i = Unknown p gl \<Longrightarrow> getMutexForUnknownPath (esi_client s) p = (c, m) \<Longrightarrow>
    call_step s (set_phase i (Wants p gl m) (s\<lparr>esi_client := c\<rparr>))"
| lock_mutex: "phase_of s i = Wants p gl m \<Longrightarrow> holder s m = None \<Longrightarrow>
    call_step s (set_phase i (Ready p gl (Some m)) (s\<lparr>holder := (holder s)(m \<mapsto> i)\<rparr>))"
| refused: "phase_of s i = Ready p gl m \<Longrightarrow>
    preflight (env :: ('l, unit) call_env) (esi_client s) gl p = (c, Some err) \<Longrightarrow>
    call_step s (finish i m (s\<lparr>esi_client := c\<rparr>))"
| sent: "phase_of s i = Ready p gl m \<Longrightarrow>
    preflight (env :: ('l, unit) call_env) (esi_client s) gl p = (c, None) \<Longrightarrow>
    call_step s (set_phase i (InFlight p gl m) (s\<lparr>esi_client := c\<rparr>))"
| failed: "phase_of s i = InFlight p gl m \<Longrightarrow> call_step s (finish i m s)"
| answered: "phase_of s i = InFlight p gl m \<Longrightarrow>
    updateFromHeaders newLim now tnew t1 (esi_client s) gl (resp :: unit http_response)
      (getTokensForStatus (StatusCode resp)) p = (c, actual) \<Longrightarrow>
    call_step s (finish i m (s\<lparr>esi_client := c\<rparr>))"

inductive_cases call_stepE: "call_step s s'"

definition quiet_system :: "'l ESIClient \<Rightarrow> 'l system" where
  "quiet_system c = \<lparr>esi_client = c, holder = Map.empty, phase_of = (\<lambda>_. Idle)\<rparr>"

inductive system_reachable :: "'l ESIClient \<Rightarrow> 'l system \<Rightarrow> bool" for c where
  quiet: "system_reachable c (quiet_system c)"
| stepped: "system_reachable c s \<Longrightarrow> call_step s s' \<Longrightarrow> system_reachable c s'"

section \<open>The invariant\<close>

text \<open>The mutex a phase holds, the limiter it refers to, and the mutex it knows for its path.\<close>

fun held_by :: "phase \<Rightarrow> nat option" where
  "held_by (Ready p gl m) = m"
| "held_by (InFlight p gl m) = m"
| "held_by _ = None"

fun limiter_of :: "phase \<Rightarrow> nat option" where
  "limiter_of (Unknown p gl) = Some gl"
| "limiter_of (Wants p gl m) = Some gl"
| "limiter_of (Ready p gl m) = Some gl"
| "limiter_of (InFlight p gl m) = Some gl"
| "limiter_of _ = None"

fun mutex_of :: "phase \<Rightarrow> (string \<times> nat) option" where
  "mutex_of (Wants p gl m) = Some (p, m)"
| "mutex_of (Ready p gl (Some m)) = Some (p, m)"
| "mutex_of (InFlight p gl (Some m)) = Some (p, m)"
| "mutex_of _ = None"

definition system_inv :: "'l system \<Rightarrow> bool" where
  "system_inv s \<longleftrightarrow> client_ok (esi_client s)
     \<and> (\<forall>i gl. limiter_of (phase_of s i) = Some gl \<longrightarrow> gl < length (heap (esi_client s)))
     \<and> (\<forall>i p m. mutex_of (phase_of s i) = Some (p, m) \<longrightarrow> unknownGroups (esi_client s) p = Some m)
     \<and> (\<forall>m i. holder s m = Some i \<longleftrightarrow> held_by (phase_of s i) = Some m)"

lemma system_invI:
  assumes "client_ok (esi_client s)"
    and "\<And>i gl. limiter_of (phase_of s i) = Some gl \<Longrightarrow> gl < length (heap (esi_client s))"
    and "\<And>i p m. mutex_of (phase_of s i) = Some (p, m) \<Longrightarrow> unknownGroups (esi_client s) p = Some m"
    and "\<And>m i. holder s m = Some i \<longleftrightarrow> held_by (phase_of s i) = Some m"
  shows "system_inv s"
  using assms by (auto simp: system_inv_def)

lemma system_invD:
  assumes "system_inv s"
  shows "client_ok (esi_client s)"
    and "limiter_of (phase_of s i) = Some gl \<Longrightarrow> gl < length (heap (esi_client s))"
    and "mutex_of (phase_of s i) = Some (p, m) \<Longrightarrow> unknownGroups (esi_client s) p = Some m"
    and "holder s m = Some i \<longleftrightarrow> held_by (phase_of s i) = Some m"
  using assms by (auto simp: system_inv_def)

text \<open>A thread that changes its phase to one that knows no more than before, keeping its mutex.\<close>

lemma inv_set_phase:
  assumes inv: "system_inv s" and ok: "client_ok c"
    and grows: "length (heap (esi_client s)) \<le> length (heap c)"
    and kept: "\<And>p m. unknownGroups (esi_client s) p = Some m \<Longrightarrow> unknownGroups c p = Some m"
    and gl: "\<And>gl. limiter_of ph = Some gl \<Longrightarrow> gl < length (heap c)"
    and mx: "\<And>p m. mutex_of ph = Some (p, m) \<Longrightarrow> unknownGroups c p = Some m"
    and held: "held_by ph = held_by (phase_of s i)"
  shows "system_inv (set_phase i ph (s\<lparr>esi_client := c\<rparr>))"
proof (rule system_invI)
  show "client_ok (esi_client (set_phase i ph (s\<lparr>esi_client := c\<rparr>)))" using ok by (simp add: set_phase_def)
next
  fix j g assume "limiter_of (phase_of (set_phase i ph (s\<lparr>esi_client := c\<rparr>)) j) = Some g"
  then show "g < length (heap (esi_client (set_phase i ph (s\<lparr>esi_client := c\<rparr>))))"
    using gl system_invD(2) [OF inv, of j g] grows by (cases "j = i") (auto simp: set_phase_def)
next
  fix j p m assume "mutex_of (phase_of (set_phase i ph (s\<lparr>esi_client := c\<rparr>)) j) = Some (p, m)"
  then show "unknownGroups (esi_client (set_phase i ph (s\<lparr>esi_client := c\<rparr>))) p = Some m"
    using mx system_invD(3) [OF inv, of j p m] kept by (cases "j = i") (auto simp: set_phase_def)
next
  fix m j
  show "holder (set_phase i ph (s\<lparr>esi_client := c\<rparr>)) m = Some j
      \<longleftrightarrow> held_by (phase_of (set_phase i ph (s\<lparr>esi_client := c\<rparr>)) j) = Some m"
    using system_invD(4) [OF inv, of m j] held by (cases "j = i") (auto simp: set_phase_def)
qed

lemma inv_finish:
  assumes inv: "system_inv s" and ok: "client_ok c"
    and grows: "length (heap (esi_client s)) \<le> length (heap c)"
    and kept: "\<And>p m. unknownGroups (esi_client s) p = Some m \<Longrightarrow> unknownGroups c p = Some m"
    and m: "m = held_by (phase_of s i)"
  shows "system_inv (finish i m (s\<lparr>esi_client := c\<rparr>))"
proof (rule system_invI)
  show "client_ok (esi_client (finish i m (s\<lparr>esi_client := c\<rparr>)))"
    using ok by (auto simp: finish_def set_phase_def split: option.split)
next
  fix j g assume "limiter_of (phase_of (finish i m (s\<lparr>esi_client := c\<rparr>)) j) = Some g"
  then show "g < length (heap (esi_client (finish i m (s\<lparr>esi_client := c\<rparr>))))"
    using system_invD(2) [OF inv, of j g] grows
    by (cases "j = i") (auto simp: finish_def set_phase_def split: option.splits)
next
  fix j p n assume "mutex_of (phase_of (finish i m (s\<lparr>esi_client := c\<rparr>)) j) = Some (p, n)"
  then show "unknownGroups (esi_client (finish i m (s\<lparr>esi_client := c\<rparr>))) p = Some n"
    using system_invD(3) [OF inv, of j p n] kept
    by (cases "j = i") (auto simp: finish_def set_phase_def split: option.splits)
next
  fix n j
  have same: "held_by (phase_of s j) = Some n \<Longrightarrow> held_by (phase_of s i) = Some n \<Longrightarrow> j = i"
    using system_invD(4) [OF inv, of n j] system_invD(4) [OF inv, of n i] by simp
  show "holder (finish i m (s\<lparr>esi_client := c\<rparr>)) n = Some j
      \<longleftrightarrow> held_by (phase_of (finish i m (s\<lparr>esi_client := c\<rparr>)) j) = Some n"
    using system_invD(4) [OF inv, of n j] m same
    by (cases "j = i") (auto simp: finish_def set_phase_def split: option.split)
qed

lemma inv_set_phase_same:
  assumes "system_inv s"
    and "\<And>gl. limiter_of ph = Some gl \<Longrightarrow> gl < length (heap (esi_client s))"
    and "\<And>p m. mutex_of ph = Some (p, m) \<Longrightarrow> unknownGroups (esi_client s) p = Some m"
    and "held_by ph = held_by (phase_of s i)"
  shows "system_inv (set_phase i ph s)"
  using inv_set_phase [OF assms(1) system_invD(1) [OF assms(1)] order_refl _ assms(2) assms(3) assms(4)] by simp

lemma inv_lock:
  assumes inv: "system_inv s" and ph: "phase_of s i = Wants p gl m" and free: "holder s m = None"
  shows "system_inv (set_phase i (Ready p gl (Some m)) (s\<lparr>holder := (holder s)(m \<mapsto> i)\<rparr>))"
proof (rule system_invI)
  show "client_ok (esi_client (set_phase i (Ready p gl (Some m)) (s\<lparr>holder := (holder s)(m \<mapsto> i)\<rparr>)))"
    using system_invD(1) [OF inv] by (simp add: set_phase_def)
next
  fix j g assume "limiter_of (phase_of (set_phase i (Ready p gl (Some m)) (s\<lparr>holder := (holder s)(m \<mapsto> i)\<rparr>)) j) = Some g"
  then show "g < length (heap (esi_client (set_phase i (Ready p gl (Some m)) (s\<lparr>holder := (holder s)(m \<mapsto> i)\<rparr>))))"
    using system_invD(2) [OF inv, of j g] ph by (cases "j = i") (auto simp: set_phase_def)
next
  fix j q n assume "mutex_of (phase_of (set_phase i (Ready p gl (Some m)) (s\<lparr>holder := (holder s)(m \<mapsto> i)\<rparr>)) j) = Some (q, n)"
  then show "unknownGroups (esi_client (set_phase i (Ready p gl (Some m)) (s\<lparr>holder := (holder s)(m \<mapsto> i)\<rparr>))) q = Some n"
    using system_invD(3) [OF inv, of j q n] ph by (cases "j = i") (auto simp: set_phase_def)
next
  fix n j
  show "holder (set_phase i (Ready p gl (Some m)) (s\<lparr>holder := (holder s)(m \<mapsto> i)\<rparr>)) n = Some j
      \<longleftrightarrow> held_by (phase_of (set_phase i (Ready p gl (Some m)) (s\<lparr>holder := (holder s)(m \<mapsto> i)\<rparr>)) j) = Some n"
    using system_invD(4) [OF inv, of n j] system_invD(4) [OF inv, of n i] ph free
    by (cases "j = i") (auto simp: set_phase_def)
qed

lemma preflight_unknownGroups:
  "preflight env c gl path = (c', e) \<Longrightarrow> unknownGroups c' = unknownGroups c"
  by (erule preflight_cases) simp_all

lemma call_step_inv: "call_step s s' \<Longrightarrow> system_inv s \<Longrightarrow> system_inv s'"
proof (induction rule: call_step.induct)
  case (begin_call s i p)
  then show ?case by (intro inv_set_phase_same) simp_all
next
  case (known_path s i p gl)
  then show ?case
    using getLimiterForPath_range [OF system_invD(1) [OF known_path(3)] known_path(2)]
    by (intro inv_set_phase_same) simp_all
next
  case (unknown_path s i p gl)
  then show ?case
    using getLimiterForPath_range [OF system_invD(1) [OF unknown_path(3)] unknown_path(2)]
    by (intro inv_set_phase_same) simp_all
next
  case (get_mutex s i p gl c m)
  note m = getMutexForUnknownPath_ok [OF system_invD(1) [OF get_mutex(3)] get_mutex(2)]
  show ?case
    using system_invD(2) [OF get_mutex(3), of i gl] get_mutex(1) m
    by (intro inv_set_phase [OF get_mutex(3) m(1) _ m(7)]) auto
next
  case (lock_mutex s i p gl m)
  then show ?case by (intro inv_lock)
next
  case (refused s i p gl m env c err)
  have gl: "gl < length (heap (esi_client s))" using system_invD(2) [OF refused(3), of i gl] refused(1) by simp
  note pf = preflight_ok [OF system_invD(1) [OF refused(3)] gl refused(2)]
  show ?case
    using preflight_unknownGroups [OF refused(2)] pf(2) refused(1)
    by (intro inv_finish [OF refused(3) pf(1)]) auto
next
  case (sent s i p gl m env c)
  have gl: "gl < length (heap (esi_client s))" using system_invD(2) [OF sent(3), of i gl] sent(1) by simp
  note pf = preflight_ok [OF system_invD(1) [OF sent(3)] gl sent(2)]
  have known: "mutex_of (phase_of s i) = mutex_of (InFlight p gl m)" using sent(1) by (cases m) auto
  show ?case
    using preflight_unknownGroups [OF sent(2)] pf(2) gl sent(1) system_invD(3) [OF sent(3), of i, unfolded known]
    by (intro inv_set_phase [OF sent(3) pf(1)]) auto
next
  case (failed s i p gl m)
  have "s\<lparr>esi_client := esi_client s\<rparr> = s" by simp
  then show ?case
    using inv_finish [OF failed(2) system_invD(1) [OF failed(2)] order_refl, of m i] failed(1) by simp
next
  case (answered s i p gl m newLim now tnew t1 resp c actual)
  have gl: "gl < length (heap (esi_client s))" using system_invD(2) [OF answered(3), of i gl] answered(1) by simp
  note up = updateFromHeaders_ok [OF system_invD(1) [OF answered(3)] gl answered(2)]
  show ?case
    using up(3,5) answered(1) by (intro inv_finish [OF answered(3) up(1)]) auto
qed

lemma quiet_inv: "client_ok c \<Longrightarrow> system_inv (quiet_system c)"
  by (rule system_invI) (simp_all add: quiet_system_def)

lemma system_reachable_inv: "system_reachable c s \<Longrightarrow> client_ok c \<Longrightarrow> system_inv s"
  by (induction rule: system_reachable.induct) (auto simp: quiet_inv call_step_inv)

section \<open>The calls one after the other\<close>

text \<open>What a call does to the client when nothing else runs, step by step, is \<open>DoRequest\<close>.\<close>

lemma lookup_alone:
  assumes "phase_of s i = Started p" and free: "\<And>m. holder s m = None"
    and "lookup_limiter (esi_client s) p = (c, gl)"
  shows "\<exists>m. call_step\<^sup>*\<^sup>* s (set_phase i (Ready p gl m)
      (s\<lparr>esi_client := c, holder := (case m of None \<Rightarrow> holder s | Some n \<Rightarrow> (holder s)(n \<mapsto> i))\<rparr>))"
proof (cases "getLimiterForPath (esi_client s) p")
  case (Pair g known)
  show ?thesis
  proof (cases known)
    case True
    then have "c = esi_client s" "g = gl" using assms(3) Pair by (simp_all add: lookup_limiter_def)
    then show ?thesis
      using call_step.known_path [OF assms(1), of gl] Pair True by (intro exI [of _ None]) (simp add: r_into_rtranclp)
  next
    case False
    obtain m where m: "getMutexForUnknownPath (esi_client s) p = (c, m)" and g: "g = gl"
      using assms(3) Pair False by (cases "getMutexForUnknownPath (esi_client s) p") (auto simp: lookup_limiter_def)
    let ?s1 = "set_phase i (Unknown p gl) s"
    let ?s2 = "set_phase i (Wants p gl m) (?s1\<lparr>esi_client := c\<rparr>)"
    let ?s3 = "set_phase i (Ready p gl (Some m)) (?s2\<lparr>holder := (holder ?s2)(m \<mapsto> i)\<rparr>)"
    have "call_step s ?s1" using call_step.unknown_path [OF assms(1)] Pair False g by simp
    moreover have "call_step ?s1 ?s2"
      by (rule call_step.get_mutex) (use m in \<open>simp_all add: set_phase_def\<close>)
    moreover have "call_step ?s2 ?s3"
      by (rule call_step.lock_mutex) (use free in \<open>simp_all add: set_phase_def\<close>)
    ultimately have "call_step\<^sup>*\<^sup>* s ?s3" by (meson converse_rtranclp_into_rtranclp rtranclp.rtrancl_refl)
    moreover have "?s3 = set_phase i (Ready p gl (Some m)) (s\<lparr>esi_client := c, holder := (holder s)(m \<mapsto> i)\<rparr>)"
      by (simp add: set_phase_def)
    ultimately show ?thesis by (intro exI [of _ "Some m"]) simp
  qed
qed

lemma call_alone:
  assumes idle: "phase_of s i = Idle" and free: "\<And>m. holder s m = None"
    and run: "DoRequest (env :: ('l, unit) call_env) (esi_client s) meth p headers = (c, res)"
  shows "\<exists>s'. call_step\<^sup>*\<^sup>* s s' \<and> esi_client s' = c \<and> phase_of s' i = Finished \<and> (\<forall>m. holder s' m = None)"
proof -
  let ?s1 = "set_phase i (Started p) s"
  have s1: "call_step s ?s1" using idle by (rule call_step.begin_call)
  have ready: "\<exists>s2 m. call_step\<^sup>*\<^sup>* s s2 \<and> phase_of s2 i = Ready p gl m \<and> esi_client s2 = c1
      \<and> (\<forall>c' ph. \<forall>n. holder (finish i m (set_phase i ph (s2\<lparr>esi_client := c'\<rparr>))) n = None)
      \<and> (\<forall>c'. \<forall>n. holder (finish i m (s2\<lparr>esi_client := c'\<rparr>)) n = None)"
    if l: "lookup_limiter (esi_client s) p = (c1, gl)" for c1 gl
  proof -
    obtain m where "call_step\<^sup>*\<^sup>* ?s1 (set_phase i (Ready p gl m)
        (?s1\<lparr>esi_client := c1, holder := (case m of None \<Rightarrow> holder ?s1 | Some n \<Rightarrow> (holder ?s1)(n \<mapsto> i))\<rparr>))"
      using lookup_alone [of ?s1 i p c1 gl] l free by (auto simp: set_phase_def)
    then show ?thesis
      using s1 free
      by (intro exI [of _ "set_phase i (Ready p gl m)
        (?s1\<lparr>esi_client := c1, holder := (case m of None \<Rightarrow> holder ?s1 | Some n \<Rightarrow> (holder ?s1)(n \<mapsto> i))\<rparr>)"]
          exI [of _ m])
        (auto simp: set_phase_def finish_def converse_rtranclp_into_rtranclp split: option.split)
  qed
  show ?thesis
  proof (rule DoRequest_cases [OF run])
    fix c1 gl err assume a: "lookup_limiter (esi_client s) p = (c1, gl)" "preflight env c1 gl p = (c, Some err)"
    obtain s2 m where s2: "call_step\<^sup>*\<^sup>* s s2" "phase_of s2 i = Ready p gl m" "esi_client s2 = c1"
      "\<forall>c' n. holder (finish i m (s2\<lparr>esi_client := c'\<rparr>)) n = None" using ready [OF a(1)] by blast
    have "call_step s2 (finish i m (s2\<lparr>esi_client := c\<rparr>))"
      by (rule call_step.refused [OF s2(2), of env c err]) (simp add: s2(3) a(2))
    then show ?thesis using s2
      by (intro exI [of _ "finish i m (s2\<lparr>esi_client := c\<rparr>)"])
        (auto simp: finish_def set_phase_def rtranclp.rtrancl_into_rtrancl split: option.split)
  next
    fix c1 gl err assume a: "lookup_limiter (esi_client s) p = (c1, gl)" "preflight env c1 gl p = (c, None)"
    obtain s2 m where s2: "call_step\<^sup>*\<^sup>* s s2" "phase_of s2 i = Ready p gl m" "esi_client s2 = c1"
      "\<forall>c' ph n. holder (finish i m (set_phase i ph (s2\<lparr>esi_client := c'\<rparr>))) n = None" using ready [OF a(1)] by blast
    let ?s3 = "set_phase i (InFlight p gl m) (s2\<lparr>esi_client := c\<rparr>)"
    have "call_step s2 ?s3" by (rule call_step.sent [OF s2(2), of env c]) (simp add: s2(3) a(2))
    moreover have "call_step ?s3 (finish i m ?s3)"
      by (rule call_step.failed [of _ _ p gl]) (simp add: set_phase_def)
    ultimately show ?thesis using s2
      by (intro exI [of _ "finish i m ?s3"])
        (auto simp: finish_def set_phase_def rtranclp.rtrancl_into_rtrancl split: option.split)
  next
    fix c1 gl c2 actual and resp :: "unit http_response" assume a: "lookup_limiter (esi_client s) p = (c1, gl)"
      "preflight env c1 gl p = (c2, None)"
      "updateFromHeaders (new_limiter env) (rd env 5) (rd env 6) (rd env 7) c2 gl resp
         (getTokensForStatus (StatusCode resp)) p = (c, actual)"
    obtain s2 m where s2: "call_step\<^sup>*\<^sup>* s s2" "phase_of s2 i = Ready p gl m" "esi_client s2 = c1"
      "\<forall>c' ph n. holder (finish i m (set_phase i ph (s2\<lparr>esi_client := c'\<rparr>))) n = None" using ready [OF a(1)] by blast
    let ?s3 = "set_phase i (InFlight p gl m) (s2\<lparr>esi_client := c2\<rparr>)"
    let ?s4 = "finish i m (?s3\<lparr>esi_client := c\<rparr>)"
    have "call_step s2 ?s3" by (rule call_step.sent [OF s2(2), of env c2]) (simp add: s2(3) a(2))
    moreover have "call_step ?s3 ?s4"
      by (rule call_step.answered [of _ _ p gl _ "new_limiter env" "rd env 5" "rd env 6" "rd env 7" resp _ actual])
        (use a(3) in \<open>simp_all add: set_phase_def\<close>)
    ultimately have "call_step\<^sup>*\<^sup>* s ?s4" using s2(1) by (meson rtranclp.rtrancl_into_rtrancl)
    moreover have idle_free: "holder (finish i m (set_phase i Idle (s2\<lparr>esi_client := c2\<rparr>))) n = None" for n
      using s2(4) by blast
    have "holder ?s4 n = None" for n using idle_free [of n] by (auto simp: finish_def set_phase_def split: option.splits)
    ultimately show ?thesis
      by (intro exI [of _ ?s4]) (auto simp: finish_def set_phase_def split: option.split)
  qed
qed

section \<open>Properties\<close>

text \<open>A call that holds the mutex of its path.\<close>

fun discovering :: "string \<Rightarrow> phase \<Rightarrow> bool" where
  "discovering p (Ready q gl (Some m)) = (q = p)"
| "discovering p (InFlight q gl (Some m)) = (q = p)"
| "discovering p _ = False"

lemma discovering_cases:
  "discovering p ph \<longleftrightarrow> (\<exists>m. held_by ph = Some m \<and> mutex_of ph = Some (p, m))"
  by (induction p ph rule: discovering.induct) auto

text \<open>C23: discovery is exclusive. Start any number of calls on any client the program can have built, and
  let them interleave: at any time at most one call on an unknown path is between the admission test and
  the end of its request; a mutex is held only by such a call, which has it for its own path, so every
  mutex is free once no call is running; and groups keep separate limiters throughout.\<close>

theorem discovery_exclusive:
  assumes "client_reachable c" and "system_reachable c s"
  shows "(\<forall>i j p. discovering p (phase_of s i) \<and> discovering p (phase_of s j) \<longrightarrow> i = j)
    \<and> (\<forall>m i. holder s m = Some i \<longrightarrow>
         (\<exists>p. discovering p (phase_of s i) \<and> unknownGroups (esi_client s) p = Some m))
    \<and> (\<forall>g h r. limiters (esi_client s) g = Some r \<and> limiters (esi_client s) h = Some r \<longrightarrow> g = h)"
proof -
  have inv: "system_inv s" by (rule system_reachable_inv [OF assms(2) client_reachable_ok [OF assms(1)]])
  note ok = system_invD(1) [OF inv]
  have excl: "i = j" if "discovering p (phase_of s i)" "discovering p (phase_of s j)" for i j p
  proof -
    obtain m n where m: "held_by (phase_of s i) = Some m" "mutex_of (phase_of s i) = Some (p, m)"
      "held_by (phase_of s j) = Some n" "mutex_of (phase_of s j) = Some (p, n)"
      using \<open>discovering p (phase_of s i)\<close> \<open>discovering p (phase_of s j)\<close> unfolding discovering_cases by blast
    then have "m = n" using system_invD(3) [OF inv, of i p m] system_invD(3) [OF inv, of j p n] by simp
    then show ?thesis
      using m system_invD(4) [OF inv, of m i] system_invD(4) [OF inv, of m j] by simp
  qed
  have held: "\<exists>p. discovering p (phase_of s i) \<and> unknownGroups (esi_client s) p = Some m"
    if "holder s m = Some i" for m i
  proof -
    have h: "held_by (phase_of s i) = Some m" using system_invD(4) [OF inv] that by simp
    then obtain p where p: "mutex_of (phase_of s i) = Some (p, m)" by (cases "phase_of s i") auto
    then show ?thesis using h system_invD(3) [OF inv p] unfolding discovering_cases by blast
  qed
  have "g = h" if "limiters (esi_client s) g = Some r" "limiters (esi_client s) h = Some r" for g h r
    using client_okD(4) [OF ok that(1)] client_okD(4) [OF ok that(2)] by simp
  then show ?thesis using excl held by blast
qed

text \<open>A call that waits for the mutex keeps the limiter it looked up before.\<close>

lemma waiting_keeps_limiter:
  "call_step s s' \<Longrightarrow> phase_of s i = Wants p gl m \<Longrightarrow> phase_of s' i \<in> {Wants p gl m, Ready p gl (Some m)}"
  by (erule call_stepE) (auto simp: set_phase_def finish_def split: option.splits if_splits)

section \<open>Witness\<close>

theorem discovery_exclusive_witness:
  "\<exists>s :: unit system. discovering ''/a'' (phase_of s 0) \<and> \<not> discovering ''/a'' (phase_of s 1)"
proof -
  let ?q = "set_phase 0 (Started ''/a'') (quiet_system sample_client)"
  have c: "client_reachable sample_client" unfolding sample_client_def by (rule client_reachable.created)
  have q: "system_reachable sample_client ?q"
    by (rule system_reachable.stepped [OF system_reachable.quiet call_step.begin_call])
      (simp add: quiet_system_def)
  have g: "getLimiterForPath (esi_client ?q) ''/a'' = (0, False)"
    by (simp add: set_phase_def quiet_system_def getLimiterForPath_def sample_client_def NewESIClient_def Let_def)
  have u: "system_reachable sample_client (set_phase 0 (Unknown ''/a'' 0) ?q)"
    by (rule system_reachable.stepped [OF q call_step.unknown_path [OF _ g]]) (simp add: set_phase_def)
  obtain d m where m: "getMutexForUnknownPath sample_client ''/a'' = (d, m)"
    by (cases "getMutexForUnknownPath sample_client ''/a''")
  have "system_reachable sample_client (set_phase 0 (Wants ''/a'' 0 m)
      ((set_phase 0 (Unknown ''/a'' 0) ?q)\<lparr>esi_client := d\<rparr>))" (is "system_reachable _ ?w")
    by (rule system_reachable.stepped [OF u call_step.get_mutex]) (use m in \<open>simp_all add: set_phase_def quiet_system_def\<close>)
  then have r: "system_reachable sample_client (set_phase 0 (Ready ''/a'' 0 (Some m)) (?w\<lparr>holder := (holder ?w)(m \<mapsto> 0)\<rparr>))"
    by (rule system_reachable.stepped [OF _ call_step.lock_mutex]) (simp_all add: set_phase_def quiet_system_def)
  have d: "discovering ''/a'' (phase_of (set_phase 0 (Ready ''/a'' 0 (Some m)) (?w\<lparr>holder := (holder ?w)(m \<mapsto> 0)\<rparr>)) 0)"
    by (simp add: set_phase_def)
  have "\<not> discovering ''/a'' (phase_of (set_phase 0 (Ready ''/a'' 0 (Some m)) (?w\<lparr>holder := (holder ?w)(m \<mapsto> 0)\<rparr>)) 1)"
    using discovery_exclusive [OF c r] d zero_neq_one by blast
  then show ?thesis using d by blast
qed

end
