(* ===== verification/Nats_Core.thy ===== *)
theory Nats_Core
  imports Esi_Errors
begin

text \<open>
  Messages and JetStream: \<open>internal/core/nats\<close> and the worker's message wrapper
  (\<open>cmd/worker/jetstream_wrapper.go\<close>).

  A JetStream message belongs to the NATS client library. What the code sees of one is its
  metadata (or the error of reading them), its payload, and the result of each call on it; what
  the code does to one is the list of the calls it made (\<open>Calls\<close>), to which every call appends.
  The answer to a call may depend on the calls so far. The JetStream server is a state with the
  functions the code calls on it (\<open>jetstream\<close>).
\<close>

section \<open>Messages\<close>

datatype msg_call = Ack | Nak | Term | InProgress | NakWithDelay duration

text \<open>The calls that end a delivery; \<open>InProgress\<close> only restarts its timer.\<close>

fun settles :: "msg_call \<Rightarrow> bool" where
  "settles InProgress = False"
| "settles _ = True"

record msg_metadata =
  NumDelivered :: uint64
  StreamSeq :: uint64
  ConsumerSeq :: uint64

record js_msg =
  Metadata :: "go_error + msg_metadata"
  Data :: string
  Answer :: "msg_call list \<Rightarrow> msg_call \<Rightarrow> go_error option"
  Calls :: "msg_call list"

text \<open>\<open>jetstreamMessageWrapper\<close>: every method forwards to the message.\<close>

definition wrapper_call :: "msg_call \<Rightarrow> js_msg \<Rightarrow> js_msg \<times> go_error option" where
  "wrapper_call a m = (m\<lparr>Calls := Calls m @ [a]\<rparr>, Answer m (Calls m) a)"

definition wrapper_NumDelivered :: "js_msg \<Rightarrow> uint64" where
  "wrapper_NumDelivered m = (case Metadata m of Inl err \<Rightarrow> 1 | Inr md \<Rightarrow> NumDelivered md)"

definition getMessageMetadata :: "js_msg \<Rightarrow> uint64 \<times> string" where
  "getMessageMetadata m =
     (case Metadata m of
        Inl err \<Rightarrow> (1, ''unknown'')
      | Inr md \<Rightarrow> (NumDelivered md,
          format_nat (unat (StreamSeq md)) @ ''/'' @ format_nat (unat (ConsumerSeq md))))"

section \<open>Redelivery with backoff\<close>

definition max_deliveries :: uint64 where
  "max_deliveries = 5"

text \<open>\<open>NackWithBackoff\<close> works on the \<open>MessageAcker\<close> interface: the delivery count and the calls.
  The subtraction in \<open>deliveries - 1\<close> is on \<open>uint64\<close>, the shift on \<open>int\<close>.\<close>

definition backoff_delay_secs :: "uint64 \<Rightarrow> int" where
  "backoff_delay_secs deliveries =
     (let delaySecs = shl64 1 (deliveries - 1) in if delaySecs > 60 then 60 else delaySecs)"

definition NackWithBackoff :: "('m \<Rightarrow> uint64) \<Rightarrow> (msg_call \<Rightarrow> 'm \<Rightarrow> 'm \<times> go_error option) \<Rightarrow> 'm \<Rightarrow> 'm" where
  "NackWithBackoff numDelivered call m =
     (let deliveries = numDelivered m
      in if deliveries \<ge> max_deliveries then fst (call Term m)
         else fst (call (NakWithDelay (dur_mul (backoff_delay_secs deliveries) second)) m))"

text \<open>What \<open>NackWithBackoff\<close> calls, as a function of the delivery count.\<close>

definition backoff_call :: "uint64 \<Rightarrow> msg_call" where
  "backoff_call deliveries =
     (if deliveries \<ge> 5 then Term
      else if deliveries = 0 then NakWithDelay 0
      else NakWithDelay (2 ^ (unat deliveries - 1) * second))"

text \<open>The contract of the interface: a call is recorded and leaves the delivery count alone.\<close>

locale message_acker =
  fixes num :: "'m \<Rightarrow> uint64"
    and call :: "msg_call \<Rightarrow> 'm \<Rightarrow> 'm \<times> go_error option"
    and calls :: "'m \<Rightarrow> msg_call list"
  assumes calls_call: "calls (fst (call a m)) = calls m @ [a]"
    and num_call: "num (fst (call a m)) = num m"
begin

lemma nack_calls:
  "calls (NackWithBackoff num call m) = calls m @
     [if num m \<ge> max_deliveries then Term
      else NakWithDelay (dur_mul (backoff_delay_secs (num m)) second)]"
  by (simp add: NackWithBackoff_def Let_def calls_call)

lemma nack_num: "num (NackWithBackoff num call m) = num m"
  by (simp add: NackWithBackoff_def Let_def num_call)

lemma nack_settles_once:
  "\<exists>a. calls (NackWithBackoff num call m) = calls m @ [a] \<and> settles a"
  by (simp add: nack_calls)

end

interpretation wrapper: message_acker wrapper_NumDelivered wrapper_call Calls
  by unfold_locales (simp_all add: wrapper_call_def wrapper_NumDelivered_def)

lemma small_word_cases:
  assumes "(n :: uint64) < 5"
  shows "n = 0 \<or> n = 1 \<or> n = 2 \<or> n = 3 \<or> n = 4"
proof -
  have "unat n < 5" using assms by (simp add: word_less_nat_alt)
  then have "unat n = 0 \<or> unat n = 1 \<or> unat n = 2 \<or> unat n = 3 \<or> unat n = 4" by linarith
  then show ?thesis
    by (elim disjE) (simp_all add: word_unat_eq_iff)
qed

text \<open>C18: the backoff schedule. \<open>NackWithBackoff\<close> makes exactly one call: it terminates a message
  delivered five times or more, and otherwise asks for redelivery after 1, 2, 4 or 8 seconds (at
  once for a delivery count of zero). The cap of 60 seconds never applies.\<close>

theorem backoff_schedule:
  "Calls (NackWithBackoff wrapper_NumDelivered wrapper_call m) =
     Calls m @ [backoff_call (wrapper_NumDelivered m)]
   \<and> {d. NakWithDelay d \<in> range backoff_call} = {0, 1 * second, 2 * second, 4 * second, 8 * second}"
proof
  have zero: "shl64 1 (- 1) = 0" by code_simp
  have small: "NakWithDelay (dur_mul (backoff_delay_secs n) second) = backoff_call n" if "n < 5" for n
    using small_word_cases [OF that]
  proof (elim disjE)
    assume "n = 0"
    then show ?thesis
      by (simp add: backoff_delay_secs_def zero dur_mul_def i64_def backoff_call_def word_le_nat_alt)
  qed (simp_all add: word_le_nat_alt backoff_delay_secs_def backoff_call_def shl64_def i64_def
        dur_mul_def second_def)
  show "Calls (NackWithBackoff wrapper_NumDelivered wrapper_call m) =
      Calls m @ [backoff_call (wrapper_NumDelivered m)]"
  proof (cases "5 \<le> wrapper_NumDelivered m")
    case True
    then show ?thesis by (simp add: wrapper.nack_calls max_deliveries_def backoff_call_def)
  next
    case False
    then show ?thesis using small [of "wrapper_NumDelivered m"]
      by (simp add: wrapper.nack_calls max_deliveries_def)
  qed
  have vals: "backoff_call n \<in> {Term, NakWithDelay 0, NakWithDelay (1 * second), NakWithDelay (2 * second),
      NakWithDelay (4 * second), NakWithDelay (8 * second)}" for n
  proof (cases "n < 5")
    case True
    show ?thesis using small_word_cases [OF True] by (elim disjE) (simp_all add: backoff_call_def word_le_nat_alt)
  qed (simp add: backoff_call_def not_less)
  have "backoff_call 0 = NakWithDelay 0" "backoff_call 1 = NakWithDelay (1 * second)"
    "backoff_call 2 = NakWithDelay (2 * second)" "backoff_call 3 = NakWithDelay (4 * second)"
    "backoff_call 4 = NakWithDelay (8 * second)"
    by (simp_all add: backoff_call_def word_le_nat_alt)
  then have "NakWithDelay d \<in> range backoff_call"
    if "d \<in> {0, 1 * second, 2 * second, 4 * second, 8 * second}" for d
    using that by (metis (no_types, lifting) empty_iff insert_iff rangeI)
  moreover have "d \<in> {0, 1 * second, 2 * second, 4 * second, 8 * second}"
    if "NakWithDelay d = backoff_call n" for d n
    using vals [of n] that by auto
  ultimately show "{d. NakWithDelay d \<in> range backoff_call} = {0, 1 * second, 2 * second, 4 * second, 8 * second}"
    by (intro equalityI subsetI) blast+
qed

section \<open>Streams and consumers\<close>

record StreamConfig =
  StreamName :: string
  Subjects :: "string list"
  MaxAge :: duration

datatype deliver_policy = DeliverAll | DeliverLast
datatype ack_policy = AckExplicit

record ConsumerConfig =
  Durable :: string
  FilterSubject :: string
  DeliverPolicy :: deliver_policy
  AckPolicy :: ack_policy
  AckWait :: duration
  MaxDeliver :: int

text \<open>The calls on the server: \<open>js.Stream\<close> (the flag says whether the stream returned is not nil),
  \<open>js.CreateStream\<close>, \<open>stream.Consumer\<close>, \<open>consumer.CachedInfo\<close>, \<open>stream.DeleteConsumer\<close>,
  \<open>stream.CreateConsumer\<close>. \<open>'h\<close> is a handle on a consumer.\<close>

record ('s, 'h) jetstream =
  js_stream :: "string \<Rightarrow> 's \<Rightarrow> go_error + bool"
  js_create_stream :: "StreamConfig \<Rightarrow> 's \<Rightarrow> 's \<times> go_error option"
  js_consumer :: "string \<Rightarrow> string \<Rightarrow> 's \<Rightarrow> go_error + 'h"
  js_cached_info :: "'h \<Rightarrow> ConsumerConfig option"
  js_delete_consumer :: "string \<Rightarrow> string \<Rightarrow> 's \<Rightarrow> 's \<times> go_error option"
  js_create_consumer :: "string \<Rightarrow> ConsumerConfig \<Rightarrow> 's \<Rightarrow> 's \<times> (go_error + 'h)"

fun EnsureStreams :: "('s, 'h) jetstream \<Rightarrow> StreamConfig list \<Rightarrow> 's \<Rightarrow> 's \<times> go_error option" where
  "EnsureStreams js [] s = (s, None)"
| "EnsureStreams js (cfg # rest) s =
     (if js_stream js (StreamName cfg) s = Inr True then EnsureStreams js rest s
      else case js_create_stream js cfg s of
          (s1, Some err) \<Rightarrow>
            (s1, Some (ErrWrap (''failed to create stream '' @ StreamName cfg @ '': '') err))
        | (s1, None) \<Rightarrow> EnsureStreams js rest s1)"

definition same_immutable :: "ConsumerConfig \<Rightarrow> ConsumerConfig \<Rightarrow> bool" where
  "same_immutable info cfg \<longleftrightarrow>
     DeliverPolicy info = DeliverPolicy cfg \<and> FilterSubject info = FilterSubject cfg"

definition GetOrCreateConsumer :: "('s, 'h) jetstream \<Rightarrow> string \<Rightarrow> ConsumerConfig \<Rightarrow> 's
    \<Rightarrow> 's \<times> (go_error + 'h)" where
  "GetOrCreateConsumer js strm cfg s =
     (let create = (\<lambda>s1. case js_create_consumer js strm cfg s1 of
            (s2, Inl err) \<Rightarrow>
              (s2, Inl (ErrWrap (''failed to create consumer '' @ Durable cfg @ '': '') err))
          | (s2, Inr c) \<Rightarrow> (s2, Inr c))
      in case js_consumer js strm (Durable cfg) s of
           Inl err \<Rightarrow> create s
         | Inr existing \<Rightarrow>
             (case js_cached_info js existing of
                None \<Rightarrow> create (fst (js_delete_consumer js strm (Durable cfg) s))
              | Some info \<Rightarrow>
                  if \<not> same_immutable info cfg
                  then create (fst (js_delete_consumer js strm (Durable cfg) s))
                  else (s, Inr existing)))"

text \<open>After \<open>EnsureStreams\<close> without an error every requested stream exists, provided the server
  keeps its streams: a stream created without an error exists, and creating one leaves the others.\<close>

theorem EnsureStreams_ensures:
  assumes "\<And>cfg s s1. js_create_stream js cfg s = (s1, None) \<Longrightarrow> js_stream js (StreamName cfg) s1 = Inr True"
    and "\<And>cfg s n. js_stream js n s = Inr True \<Longrightarrow> js_stream js n (fst (js_create_stream js cfg s)) = Inr True"
    and "EnsureStreams js cfgs s = (s', None)" and "cfg \<in> set cfgs"
  shows "js_stream js (StreamName cfg) s' = Inr True"
proof -
  have keep: "js_stream js n s' = Inr True" if "js_stream js n s = Inr True"
      "EnsureStreams js cs s = (s', None)" for n cs s
    using that
  proof (induction cs arbitrary: s)
    case (Cons c cs)
    then show ?case using assms(2) [of n s c] by (auto split: if_splits prod.splits option.splits)
  qed simp
  show ?thesis
    using assms(3,4)
  proof (induction cfgs arbitrary: s)
    case (Cons c cs)
    show ?case
    proof (cases "js_stream js (StreamName c) s = Inr True")
      case True
      then show ?thesis using Cons keep by auto
    next
      case False
      then obtain s1 where s1: "js_create_stream js c s = (s1, None)" "EnsureStreams js cs s1 = (s', None)"
        using Cons.prems(1) by (auto split: prod.splits option.splits)
      then show ?thesis using Cons.IH [OF s1(2)] Cons.prems(2) keep [OF assms(1) [OF s1(1)] s1(2)] by auto
    qed
  qed simp
qed

text \<open>\<open>GetOrCreateConsumer\<close> never hands out a consumer whose filter or delivery policy differs
  from the requested one: what it returns is either the existing consumer with both equal, the
  server untouched, or one just created from the requested configuration.\<close>

theorem GetOrCreateConsumer_matches:
  assumes "GetOrCreateConsumer js strm cfg s = (s', Inr h)"
  shows "(s' = s \<and> js_consumer js strm (Durable cfg) s = Inr h \<and>
           (\<exists>info. js_cached_info js h = Some info \<and> DeliverPolicy info = DeliverPolicy cfg
              \<and> FilterSubject info = FilterSubject cfg))
    \<or> (\<exists>s1. s1 \<in> {s, fst (js_delete_consumer js strm (Durable cfg) s)}
          \<and> js_create_consumer js strm cfg s1 = (s', Inr h))"
  using assms
  by (auto simp: GetOrCreateConsumer_def Let_def same_immutable_def
      split: sum.splits option.splits prod.splits if_splits)

section \<open>Names\<close>

definition StreamESIRefresh :: string where "StreamESIRefresh = ''ESI_REFRESH''"
definition StreamScheduler :: string where "StreamScheduler = ''SCHEDULER''"
definition SubjectRefreshSystemIndexes :: string where
  "SubjectRefreshSystemIndexes = ''refreshSystemIndexes''"
definition SubjectRefreshAdjustedPrices :: string where
  "SubjectRefreshAdjustedPrices = ''refreshAdjustedPrices''"
definition SubjectSchedulerSchedule :: string where
  "SubjectSchedulerSchedule = ''scheduler:schedule''"
definition ConsumerWorkerSystemIndexes :: string where
  "ConsumerWorkerSystemIndexes = ''worker-system-indexes''"
definition ConsumerWorkerAdjustedPrices :: string where
  "ConsumerWorkerAdjustedPrices = ''worker-adjusted-prices''"
definition ConsumerScheduler :: string where "ConsumerScheduler = ''scheduler''"

section \<open>Witnesses\<close>

text \<open>A server that holds stream names, and one consumer for each of them.\<close>

definition sample_consumer :: ConsumerConfig where
  "sample_consumer = \<lparr>Durable = ConsumerScheduler, FilterSubject = [], DeliverPolicy = DeliverAll,
     AckPolicy = AckExplicit, AckWait = 30 * second, MaxDeliver = 5\<rparr>"

definition sample_js :: "(string list, ConsumerConfig) jetstream" where
  "sample_js =
     \<lparr>js_stream = (\<lambda>n s. if n \<in> set s then Inr True else Inl (ErrText ''stream not found'')),
      js_create_stream = (\<lambda>cfg s. (StreamName cfg # s, None)),
      js_consumer = (\<lambda>strm d s. Inr sample_consumer),
      js_cached_info = Some,
      js_delete_consumer = (\<lambda>strm d s. (s, None)),
      js_create_consumer = (\<lambda>strm cfg s. (s, Inr cfg))\<rparr>"

theorem EnsureStreams_ensures_witness:
  "js_stream sample_js StreamScheduler
     (fst (EnsureStreams sample_js [\<lparr>StreamName = StreamScheduler, Subjects = [], MaxAge = 0\<rparr>] [])) = Inr True"
proof -
  let ?cfg = "\<lparr>StreamName = StreamScheduler, Subjects = [], MaxAge = 0\<rparr>"
  have run: "EnsureStreams sample_js [?cfg] [] = (fst (EnsureStreams sample_js [?cfg] []), None)"
    by (simp add: sample_js_def)
  have "js_stream sample_js (StreamName ?cfg) (fst (EnsureStreams sample_js [?cfg] [])) = Inr True"
    by (rule EnsureStreams_ensures [OF _ _ run]) (auto simp: sample_js_def split: if_splits)
  then show ?thesis by simp
qed

theorem GetOrCreateConsumer_matches_witness:
  "GetOrCreateConsumer sample_js StreamScheduler sample_consumer [] = ([], Inr sample_consumer)
   \<and> (\<exists>info. js_cached_info sample_js sample_consumer = Some info \<and> DeliverPolicy info = DeliverAll)"
proof -
  have run: "GetOrCreateConsumer sample_js StreamScheduler sample_consumer [] = ([], Inr sample_consumer)"
    by (simp add: GetOrCreateConsumer_def sample_js_def same_immutable_def)
  moreover have "js_cached_info sample_js sample_consumer = Some sample_consumer" by (simp add: sample_js_def)
  ultimately show ?thesis
    using GetOrCreateConsumer_matches [OF run] by (auto simp: sample_consumer_def)
qed

end
