(* ===== verification/Redis_Core.thy ===== *)
theory Redis_Core
  imports Esi_Errors
begin

text \<open>
  The cache and the refresh locks in Redis: \<open>internal/core/redis/redis.go\<close>.

  The server and the client library go-redis are outside: \<open>'r\<close> is the state the client sees and
  \<open>redis_client\<close> the commands the code issues, each of which may fail. \<open>redis_ok\<close> states what
  Redis documents of these commands over the store of string values (\<open>db\<close>); a command that fails
  (a lost connection, an expired context) may or may not have been executed. \<open>json.Marshal\<close> and
  \<open>json.Unmarshal\<close> of a value are arguments.
\<close>

section \<open>The client\<close>

record 'r redis_client =
  redis_Set :: "string \<Rightarrow> string \<Rightarrow> duration \<Rightarrow> 'r \<Rightarrow> 'r \<times> go_error option"
  redis_Get :: "string \<Rightarrow> 'r \<Rightarrow> 'r \<times> (go_error + string)"
  redis_SetNX :: "string \<Rightarrow> string \<Rightarrow> duration \<Rightarrow> 'r \<Rightarrow> 'r \<times> (go_error + bool)"
  redis_Del :: "string \<Rightarrow> 'r \<Rightarrow> 'r \<times> go_error option"
  redis_Scan :: "uint64 \<Rightarrow> string \<Rightarrow> int \<Rightarrow> 'r \<Rightarrow> 'r \<times> (go_error + string list \<times> uint64)"

text \<open>A write that failed left the store alone or took effect.\<close>

definition redis_ok :: "'r redis_client \<Rightarrow> ('r \<Rightarrow> string \<rightharpoonup> string) \<Rightarrow> bool" where
  "redis_ok rc db \<longleftrightarrow>
     (\<forall>k v ttl r. let (r1, e) = redis_Set rc k v ttl r in
        db r1 = (db r)(k \<mapsto> v) \<or> (e \<noteq> None \<and> db r1 = db r))
   \<and> (\<forall>k r. let (r1, res) = redis_Get rc k r in
        db r1 = db r \<and> (case res of Inr v \<Rightarrow> db r k = Some v
                         | Inl e \<Rightarrow> e = ErrRedisNil \<longrightarrow> db r k = None))
   \<and> (\<forall>k v ttl r. let (r1, res) = redis_SetNX rc k v ttl r in
        case res of Inr b \<Rightarrow> b = (db r k = None) \<and> db r1 = (if b then (db r)(k \<mapsto> v) else db r)
        | Inl e \<Rightarrow> db r1 = db r \<or> (db r k = None \<and> db r1 = (db r)(k \<mapsto> v)))
   \<and> (\<forall>k r. let (r1, e) = redis_Del rc k r in
        db r1 = (db r)(k := None) \<or> (e \<noteq> None \<and> db r1 = db r))"

lemma redis_okD:
  assumes "redis_ok rc db"
  shows redis_Set_ok: "redis_Set rc k v ttl r = (r1, None) \<Longrightarrow> db r1 = (db r)(k \<mapsto> v)"
    and redis_Set_any: "redis_Set rc k v ttl r = (r1, e) \<Longrightarrow> db r1 = (db r)(k \<mapsto> v) \<or> db r1 = db r"
    and redis_Get_same: "redis_Get rc k r = (r1, res) \<Longrightarrow> db r1 = db r"
    and redis_Get_val: "redis_Get rc k r = (r1, Inr v) \<Longrightarrow> db r k = Some v"
    and redis_Get_nil: "redis_Get rc k r = (r1, Inl ErrRedisNil) \<Longrightarrow> db r k = None"
    and redis_SetNX_True: "redis_SetNX rc k v ttl r = (r1, Inr True) \<Longrightarrow> db r k = None \<and> db r1 = (db r)(k \<mapsto> v)"
    and redis_SetNX_False: "redis_SetNX rc k v ttl r = (r1, Inr False) \<Longrightarrow> db r k \<noteq> None \<and> db r1 = db r"
    and redis_SetNX_err: "redis_SetNX rc k v ttl r = (r1, Inl err) \<Longrightarrow> db r1 = db r \<or> db r1 = (db r)(k \<mapsto> v)"
    and redis_Del_ok: "redis_Del rc k r = (r1, None) \<Longrightarrow> db r1 = (db r)(k := None)"
    and redis_Del_any: "redis_Del rc k r = (r1, e) \<Longrightarrow> db r1 = (db r)(k := None) \<or> db r1 = db r"
proof -
  note a = assms [unfolded redis_ok_def]
  show "redis_Set rc k v ttl r = (r1, None) \<Longrightarrow> db r1 = (db r)(k \<mapsto> v)"
    and "redis_Set rc k v ttl r = (r1, e) \<Longrightarrow> db r1 = (db r)(k \<mapsto> v) \<or> db r1 = db r"
    using a [THEN conjunct1, rule_format, of k v ttl r] by auto
  show "redis_Get rc k r = (r1, res) \<Longrightarrow> db r1 = db r"
    and "redis_Get rc k r = (r1, Inr v) \<Longrightarrow> db r k = Some v"
    and "redis_Get rc k r = (r1, Inl ErrRedisNil) \<Longrightarrow> db r k = None"
    using a [THEN conjunct2, THEN conjunct1, rule_format, of k r] by auto
  show "redis_SetNX rc k v ttl r = (r1, Inr True) \<Longrightarrow> db r k = None \<and> db r1 = (db r)(k \<mapsto> v)"
    and "redis_SetNX rc k v ttl r = (r1, Inr False) \<Longrightarrow> db r k \<noteq> None \<and> db r1 = db r"
    and "redis_SetNX rc k v ttl r = (r1, Inl err) \<Longrightarrow> db r1 = db r \<or> db r1 = (db r)(k \<mapsto> v)"
    using a [THEN conjunct2, THEN conjunct2, THEN conjunct1, rule_format, of k v ttl r] by auto
  show "redis_Del rc k r = (r1, None) \<Longrightarrow> db r1 = (db r)(k := None)"
    and "redis_Del rc k r = (r1, e) \<Longrightarrow> db r1 = (db r)(k := None) \<or> db r1 = db r"
    using a [THEN conjunct2, THEN conjunct2, THEN conjunct2, rule_format, of k r] by auto
qed

section \<open>Values\<close>

definition SaveJSON :: "'r redis_client \<Rightarrow> ('v \<Rightarrow> go_error + string) \<Rightarrow> string \<Rightarrow> 'v \<Rightarrow> duration \<Rightarrow> 'r
    \<Rightarrow> 'r \<times> go_error option" where
  "SaveJSON rc marshal key v ttl r =
     (case marshal v of Inl err \<Rightarrow> (r, Some err) | Inr b \<Rightarrow> redis_Set rc key b ttl r)"

definition SetString :: "'r redis_client \<Rightarrow> string \<Rightarrow> string \<Rightarrow> duration \<Rightarrow> 'r \<Rightarrow> 'r \<times> go_error option" where
  "SetString rc key v ttl r = redis_Set rc key v ttl r"

definition GetString :: "'r redis_client \<Rightarrow> string \<Rightarrow> 'r \<Rightarrow> 'r \<times> (go_error + string)" where
  "GetString rc key r = redis_Get rc key r"

definition GetJSON :: "'r redis_client \<Rightarrow> (string \<Rightarrow> go_error + 'v) \<Rightarrow> string \<Rightarrow> 'r \<Rightarrow> 'r \<times> (go_error + 'v)" where
  "GetJSON rc unmarshal key r =
     (case redis_Get rc key r of
        (r1, Inl err) \<Rightarrow> (r1, Inl err)
      | (r1, Inr v) \<Rightarrow> (r1, unmarshal v))"

text \<open>\<open>url.PathEscape\<close>: the bytes that stay as they are in a path segment, and \<open>%XX\<close> for the others.\<close>

definition path_safe :: "char \<Rightarrow> bool" where
  "path_safe c \<longleftrightarrow> is_lower c \<or> is_upper c \<or> is_digit c \<or> c \<in> set ''-_.~$&+:=@''"

definition hex_digit :: "nat \<Rightarrow> char" where
  "hex_digit d = (if d < 10 then char_of (48 + d) else char_of (55 + d))"

fun path_escape :: "string \<Rightarrow> string" where
  "path_escape [] = []"
| "path_escape (c # cs) =
     (if path_safe c then [c]
      else [CHR ''%'', hex_digit (of_char c div 16), hex_digit (of_char c mod 16)]) @ path_escape cs"

definition int32_text :: "int32 \<Rightarrow> string" where
  "int32_text n = path_escape (format_int (sint n))"

section \<open>Industry systems\<close>

definition industry_index_key :: "int32 \<Rightarrow> string" where
  "industry_index_key solarSystemID = ''esi:industry_systems:'' @ int32_text solarSystemID"

definition industry_etag_key :: string where "industry_etag_key = ''esi:industry_systems:etag''"
definition industry_updated_key :: string where
  "industry_updated_key = ''esi:industry_systems:last_updated''"
definition industry_next_key :: string where
  "industry_next_key = ''esi:industry_systems:next_refresh''"

definition SaveIndustrySystemIndex :: "'r redis_client \<Rightarrow> ('v \<Rightarrow> go_error + string) \<Rightarrow> int32 \<Rightarrow> 'v \<Rightarrow> 'r
    \<Rightarrow> 'r \<times> go_error option" where
  "SaveIndustrySystemIndex rc marshal solarSystemID v =
     SaveJSON rc marshal (industry_index_key solarSystemID) v 0"

definition GetIndustrySystemIndex :: "'r redis_client \<Rightarrow> (string \<Rightarrow> go_error + 'v) \<Rightarrow> int32 \<Rightarrow> 'r
    \<Rightarrow> 'r \<times> (go_error + 'v)" where
  "GetIndustrySystemIndex rc unmarshal solarSystemID =
     GetJSON rc unmarshal (industry_index_key solarSystemID)"

definition SaveIndustrySystemsETag :: "'r redis_client \<Rightarrow> string \<Rightarrow> 'r \<Rightarrow> 'r \<times> go_error option" where
  "SaveIndustrySystemsETag rc etag r =
     (if etag = [] then (r, None) else SetString rc industry_etag_key etag 0 r)"

definition GetIndustrySystemsETag :: "'r redis_client \<Rightarrow> 'r \<Rightarrow> 'r \<times> (go_error + string)" where
  "GetIndustrySystemsETag rc = GetString rc industry_etag_key"

definition SaveIndustrySystemsLastUpdated :: "'r redis_client \<Rightarrow> int \<Rightarrow> 'r \<Rightarrow> 'r \<times> go_error option" where
  "SaveIndustrySystemsLastUpdated rc unixMillis =
     SetString rc industry_updated_key (format_int unixMillis) 0"

text \<open>\<open>ParseInt\<close>'s error is its own.\<close>

definition GetIndustrySystemsNextRefresh :: "'r redis_client \<Rightarrow> 'r \<Rightarrow> 'r \<times> (go_error + int)" where
  "GetIndustrySystemsNextRefresh rc r =
     (case GetString rc industry_next_key r of
        (r1, Inl err) \<Rightarrow> (r1, Inl err)
      | (r1, Inr s) \<Rightarrow>
          (r1, case parse_int 64 s of None \<Rightarrow> Inl (ErrText ''strconv.ParseInt'') | Some n \<Rightarrow> Inr n))"

section \<open>Market prices\<close>

definition market_price_key :: "int32 \<Rightarrow> string" where
  "market_price_key typeID = ''esi:market_prices:'' @ int32_text typeID"

definition market_etag_key :: string where "market_etag_key = ''esi:market_prices:etag''"
definition market_updated_key :: string where "market_updated_key = ''esi:market_prices:last_updated''"
definition market_next_key :: string where "market_next_key = ''esi:market_prices:next_refresh''"

definition SaveMarketPrice :: "'r redis_client \<Rightarrow> ('v \<Rightarrow> go_error + string) \<Rightarrow> int32 \<Rightarrow> 'v \<Rightarrow> 'r
    \<Rightarrow> 'r \<times> go_error option" where
  "SaveMarketPrice rc marshal typeID v = SaveJSON rc marshal (market_price_key typeID) v 0"

definition GetMarketPrice :: "'r redis_client \<Rightarrow> (string \<Rightarrow> go_error + 'v) \<Rightarrow> int32 \<Rightarrow> 'r
    \<Rightarrow> 'r \<times> (go_error + 'v)" where
  "GetMarketPrice rc unmarshal typeID = GetJSON rc unmarshal (market_price_key typeID)"

definition SaveMarketPricesETag :: "'r redis_client \<Rightarrow> string \<Rightarrow> 'r \<Rightarrow> 'r \<times> go_error option" where
  "SaveMarketPricesETag rc etag r =
     (if etag = [] then (r, None) else SetString rc market_etag_key etag 0 r)"

definition GetMarketPricesETag :: "'r redis_client \<Rightarrow> 'r \<Rightarrow> 'r \<times> (go_error + string)" where
  "GetMarketPricesETag rc = GetString rc market_etag_key"

definition SaveMarketPricesLastUpdated :: "'r redis_client \<Rightarrow> int \<Rightarrow> 'r \<Rightarrow> 'r \<times> go_error option" where
  "SaveMarketPricesLastUpdated rc unixMillis = SetString rc market_updated_key (format_int unixMillis) 0"

definition GetMarketPricesNextRefresh :: "'r redis_client \<Rightarrow> 'r \<Rightarrow> 'r \<times> (go_error + int)" where
  "GetMarketPricesNextRefresh rc r =
     (case GetString rc market_next_key r of
        (r1, Inl err) \<Rightarrow> (r1, Inl err)
      | (r1, Inr s) \<Rightarrow>
          (r1, case parse_int 64 s of None \<Rightarrow> Inl (ErrText ''strconv.ParseInt'') | Some n \<Rightarrow> Inr n))"

section \<open>The refresh lock\<close>

text \<open>The cleanup function that \<open>AcquireRefreshLock\<close> returns is \<open>ReleaseRefreshLock\<close> on the key.\<close>

definition AcquireRefreshLock :: "'r redis_client \<Rightarrow> time \<Rightarrow> string \<Rightarrow> 'r \<Rightarrow> 'r \<times> (go_error + bool)" where
  "AcquireRefreshLock rc now lockKey r =
     redis_SetNX rc lockKey (format_int (unix_milli now)) (300 * second) r"

definition ReleaseRefreshLock :: "'r redis_client \<Rightarrow> string \<Rightarrow> 'r \<Rightarrow> 'r" where
  "ReleaseRefreshLock rc lockKey r = fst (redis_Del rc lockKey r)"

definition industry_lock_key :: string where "industry_lock_key = ''esi:industry_systems:refresh_lock''"
definition market_lock_key :: string where "market_lock_key = ''esi:market_prices:refresh_lock''"

lemma AcquireRefreshLock_cases:
  assumes "redis_ok rc db" and "AcquireRefreshLock rc now key r = (r1, res)"
  obtains v where "res = Inr True" "db r key = None" "db r1 = (db r)(key \<mapsto> v)"
  | "res = Inr False" "db r key \<noteq> None" "db r1 = db r"
  | e where "res = Inl e" "db r1 = db r"
  | e v where "res = Inl e" "db r key = None" "db r1 = (db r)(key \<mapsto> v)"
proof -
  let ?v = "format_int (unix_milli now)"
  have x: "redis_SetNX rc key ?v (300 * second) r = (r1, res)"
    using assms(2) by (simp add: AcquireRefreshLock_def)
  have "\<forall>k v ttl r. let (r1, res) = redis_SetNX rc k v ttl r in
        case res of Inr b \<Rightarrow> b = (db r k = None) \<and> db r1 = (if b then (db r)(k \<mapsto> v) else db r)
        | Inl e \<Rightarrow> db r1 = db r \<or> (db r k = None \<and> db r1 = (db r)(k \<mapsto> v))"
    using assms(1) by (simp add: redis_ok_def)
  then have "let (r1, res) = redis_SetNX rc key ?v (300 * second) r in
        case res of Inr b \<Rightarrow> b = (db r key = None) \<and> db r1 = (if b then (db r)(key \<mapsto> ?v) else db r)
        | Inl e \<Rightarrow> db r1 = db r \<or> (db r key = None \<and> db r1 = (db r)(key \<mapsto> ?v))"
    by blast
  then have c: "case res of Inr b \<Rightarrow> b = (db r key = None) \<and> db r1 = (if b then (db r)(key \<mapsto> ?v) else db r)
        | Inl e \<Rightarrow> db r1 = db r \<or> (db r key = None \<and> db r1 = (db r)(key \<mapsto> ?v))"
    unfolding x Let_def by simp
  show ?thesis
  proof (cases res)
    case (Inl e)
    then show ?thesis using c that(3) that(4) by auto
  next
    case (Inr b)
    then show ?thesis using c that(1) that(2) by (cases b) auto
  qed
qed

section \<open>Key spaces\<close>

lemma digit_safe: "d < 10 \<Longrightarrow> path_safe (digit_char d)"
  by (auto simp: path_safe_def is_digit_def digit_char_def)

lemma path_escape_safe: "list_all path_safe s \<Longrightarrow> path_escape s = s"
  by (induction s) auto

lemma format_nat_safe: "list_all path_safe (format_nat n)"
  unfolding list_all_iff using format_nat_digits digit_safe by blast

lemma minus_safe: "path_safe (CHR ''-'')"
  by (simp add: path_safe_def)

lemma int32_text_eq: "int32_text n = format_int (sint n)"
proof -
  have "list_all path_safe (format_int (sint n))"
    using format_nat_safe minus_safe by (simp add: format_int_def)
  then show ?thesis by (simp add: int32_text_def path_escape_safe)
qed

lemma int32_text_inj: "int32_text m = int32_text n \<longleftrightarrow> m = n"
  using signed_word_eqI [of m n] by (auto simp: int32_text_eq format_int_inj)

lemma int32_text_first: "\<exists>c cs. int32_text n = c # cs \<and> (c = CHR ''-'' \<or> (\<exists>d<10. c = digit_char d))"
proof -
  obtain c cs where "format_nat (nat (sint n)) = c # cs" by (metis format_nat_ne neq_Nil_conv)
  moreover have "\<exists>d<10. c = digit_char d" using calculation format_nat_digits by (metis list.set_intros(1))
  ultimately show ?thesis by (auto simp: int32_text_eq format_int_def)
qed

lemma int32_text_not_word:
  assumes "is_lower c" shows "int32_text n \<noteq> c # cs"
proof
  assume "int32_text n = c # cs"
  then have "c = CHR ''-'' \<or> (\<exists>d<10. c = digit_char d)" using int32_text_first [of n] by auto
  then show False using assms by (auto simp: is_lower_def digit_char_def)
qed

text \<open>One family of keys: an item per number, and the keys of the family's own data.\<close>

locale cache_keys =
  fixes item_key :: "int32 \<Rightarrow> string" and etag_key updated_key lock_key :: string
  assumes item_key_inj: "item_key m = item_key n \<longleftrightarrow> m = n"
    and item_key_own: "item_key n \<notin> {etag_key, updated_key, lock_key}"
    and own_distinct: "distinct [etag_key, updated_key, lock_key]"
begin

lemma own_keys_simps:
  "item_key n \<noteq> etag_key" "item_key n \<noteq> updated_key" "item_key n \<noteq> lock_key"
  "etag_key \<noteq> item_key n" "updated_key \<noteq> item_key n" "lock_key \<noteq> item_key n"
  "etag_key \<noteq> updated_key" "etag_key \<noteq> lock_key" "updated_key \<noteq> lock_key"
  "updated_key \<noteq> etag_key" "lock_key \<noteq> etag_key" "lock_key \<noteq> updated_key"
  using item_key_own [of n] own_distinct by auto

lemma save_frame:
  assumes "redis_ok rc db" and "SaveJSON rc marshal (item_key n) v ttl r = (r1, e)"
  shows "db r1 etag_key = db r etag_key" and "db r1 updated_key = db r updated_key"
    and "db r1 lock_key = db r lock_key"
    and "m \<noteq> n \<Longrightarrow> db r1 (item_key m) = db r (item_key m)"
proof -
  have "db r1 = db r \<or> (\<exists>b. db r1 = (db r)(item_key n \<mapsto> b))"
    using assms(2) by (fastforce simp: SaveJSON_def split: sum.splits dest: redis_Set_any [OF assms(1)])
  then show "db r1 etag_key = db r etag_key" "db r1 updated_key = db r updated_key"
    "db r1 lock_key = db r lock_key"
    "m \<noteq> n \<Longrightarrow> db r1 (item_key m) = db r (item_key m)"
    using own_keys_simps item_key_inj [of m n] by auto
qed

lemma save_get:
  assumes ok: "redis_ok rc db"
    and codec: "\<And>s. marshal v = Inr s \<Longrightarrow> unmarshal s = Inr v"
    and save: "SaveJSON rc marshal (item_key n) v ttl r = (r1, None)"
    and later: "db r2 (item_key n) = db r1 (item_key n)"
    and get: "redis_Get rc (item_key n) r2 = (r3, Inr s)"
  shows "GetJSON rc unmarshal (item_key n) r2 = (r3, Inr v)"
proof -
  obtain b where b: "marshal v = Inr b" "redis_Set rc (item_key n) b ttl r = (r1, None)"
    using save by (auto simp: SaveJSON_def split: sum.splits)
  have "db r1 (item_key n) = Some b" using redis_Set_ok [OF ok b(2)] by simp
  then have "s = b" using redis_Get_val [OF ok get] later by simp
  then show ?thesis using get codec [OF b(1)] by (simp add: GetJSON_def)
qed

end

interpretation industry: cache_keys industry_index_key industry_etag_key industry_updated_key industry_lock_key
proof
  show "industry_index_key m = industry_index_key n \<longleftrightarrow> m = n" for m n
    by (simp add: industry_index_key_def int32_text_inj)
  have "is_lower (CHR ''e'')" "is_lower (CHR ''l'')" "is_lower (CHR ''r'')"
    by (simp_all add: is_lower_def)
  then show "industry_index_key n \<notin> {industry_etag_key, industry_updated_key, industry_lock_key}" for n
    using int32_text_not_word [of _ n]
    by (simp add: industry_index_key_def industry_etag_key_def industry_updated_key_def
        industry_lock_key_def)
qed (simp add: industry_etag_key_def industry_updated_key_def industry_lock_key_def)

interpretation market: cache_keys market_price_key market_etag_key market_updated_key market_lock_key
proof
  show "market_price_key m = market_price_key n \<longleftrightarrow> m = n" for m n
    by (simp add: market_price_key_def int32_text_inj)
  have "is_lower (CHR ''e'')" "is_lower (CHR ''l'')" "is_lower (CHR ''r'')"
    by (simp_all add: is_lower_def)
  then show "market_price_key n \<notin> {market_etag_key, market_updated_key, market_lock_key}" for n
    using int32_text_not_word [of _ n]
    by (simp add: market_price_key_def market_etag_key_def market_updated_key_def market_lock_key_def)
qed (simp add: market_etag_key_def market_updated_key_def market_lock_key_def)

lemma families_apart:
  "market_price_key t \<noteq> industry_index_key n" "market_etag_key \<noteq> industry_index_key n"
  "market_updated_key \<noteq> industry_index_key n" "market_lock_key \<noteq> industry_index_key n"
  "industry_lock_key \<noteq> market_lock_key"
  by (simp_all add: market_price_key_def industry_index_key_def market_etag_key_def
      market_updated_key_def market_lock_key_def industry_lock_key_def)

section \<open>Properties\<close>

text \<open>C16: the cache gives back what was saved. After an index is saved without an error, neither
  saving another system's index nor saving a market price (successful or not) disturbs it: a read
  that reaches Redis returns the value.\<close>

theorem saved_index_read_back:
  assumes ok: "redis_ok rc db"
    and codec: "\<And>s. marshal v = Inr s \<Longrightarrow> unmarshal s = Inr v"
    and save: "SaveIndustrySystemIndex rc marshal n v r = (r1, None)"
    and other: "m \<noteq> n" "SaveIndustrySystemIndex rc marshal m w r1 = (r2, e2)"
    and price: "SaveMarketPrice rc marshal2 t p r2 = (r3, e3)"
    and get: "redis_Get rc (industry_index_key n) r3 = (r4, Inr s)"
  shows "GetIndustrySystemIndex rc unmarshal n r3 = (r4, Inr v)"
proof -
  have "db r2 (industry_index_key n) = db r1 (industry_index_key n)"
    using industry.save_frame(4) [OF ok, of marshal m w 0 r1 r2 e2 n] other
    by (simp add: SaveIndustrySystemIndex_def)
  moreover have "db r3 (industry_index_key n) = db r2 (industry_index_key n)"
  proof -
    have "db r3 = db r2 \<or> (\<exists>b. db r3 = (db r2)(market_price_key t \<mapsto> b))"
      using price by (fastforce simp: SaveMarketPrice_def SaveJSON_def split: sum.splits
          dest: redis_Set_any [OF ok])
    then show ?thesis using families_apart(1) [of t n] by auto
  qed
  ultimately show ?thesis
    unfolding GetIndustrySystemIndex_def
    using industry.save_get [OF ok, of marshal v unmarshal n 0 r r1 r3 r4 s] codec save get
    by (simp add: SaveIndustrySystemIndex_def)
qed

text \<open>C17: the refresh lock is exclusive. Once it is acquired, no second attempt acquires it while
  the key stands; after its release without an error the next attempt that reaches Redis does, and the
  release touches no other key.\<close>

theorem refresh_lock_exclusive:
  assumes ok: "redis_ok rc db"
    and got: "AcquireRefreshLock rc t1 key r = (r1, Inr True)"
    and stands: "db r2 key = db r1 key"
    and second_try: "AcquireRefreshLock rc t2 key r2 = (r3, Inr b)"
    and del: "snd (redis_Del rc key r3) = None"
    and third: "AcquireRefreshLock rc t3 key (ReleaseRefreshLock rc key r3) = (r4, Inr c)"
  shows "\<not> b \<and> c \<and> (\<forall>k. k \<noteq> key \<longrightarrow> db r4 k = db r2 k)"
proof -
  have "db r1 key \<noteq> None" using redis_SetNX_True [OF ok got [unfolded AcquireRefreshLock_def]] by simp
  then have nb: "\<not> b" and same: "db r3 = db r2"
    using second_try stands redis_SetNX_True [OF ok] redis_SetNX_False [OF ok]
    unfolding AcquireRefreshLock_def by (cases b; fastforce)+
  obtain r3' where d: "redis_Del rc key r3 = (r3', None)" using del by (cases "redis_Del rc key r3") auto
  have free: "db r3' = (db r3)(key := None)" by (rule redis_Del_ok [OF ok d])
  then have "c" using third d redis_SetNX_False [OF ok]
    unfolding AcquireRefreshLock_def ReleaseRefreshLock_def by (cases c) fastforce+
  then have "\<exists>v. db r4 = (db r3')(key \<mapsto> v)"
    using third d redis_SetNX_True [OF ok] unfolding AcquireRefreshLock_def ReleaseRefreshLock_def
    by fastforce
  then show ?thesis using nb \<open>c\<close> free same by auto
qed

section \<open>Witnesses\<close>

text \<open>An in-memory server that never fails.\<close>

definition memory_redis :: "(string \<rightharpoonup> string) redis_client" where
  "memory_redis =
     \<lparr>redis_Set = (\<lambda>k v ttl r. (r(k \<mapsto> v), None)),
      redis_Get = (\<lambda>k r. (r, case r k of None \<Rightarrow> Inl ErrRedisNil | Some v \<Rightarrow> Inr v)),
      redis_SetNX = (\<lambda>k v ttl r. case r k of None \<Rightarrow> (r(k \<mapsto> v), Inr True) | Some _ \<Rightarrow> (r, Inr False)),
      redis_Del = (\<lambda>k r. (r(k := None), None)),
      redis_Scan = (\<lambda>cursor pat n r. (r, Inr ([], 0)))\<rparr>"

lemma memory_redis_ok: "redis_ok memory_redis (\<lambda>r. r)"
  by (simp add: redis_ok_def memory_redis_def split: option.split)

theorem saved_index_read_back_witness:
  "snd (GetIndustrySystemIndex memory_redis Inr 30000142
      (fst (SaveMarketPrice memory_redis Inr 34 ''y''
        (fst (SaveIndustrySystemIndex memory_redis Inr 30000144 ''z''
          (fst (SaveIndustrySystemIndex memory_redis Inr 30000142 ''x'' Map.empty))))))) = Inr ''x''"
proof -
  let ?r1 = "fst (SaveIndustrySystemIndex memory_redis Inr 30000142 ''x'' Map.empty)"
  let ?r2 = "fst (SaveIndustrySystemIndex memory_redis Inr 30000144 ''z'' ?r1)"
  let ?r3 = "fst (SaveMarketPrice memory_redis Inr 34 ''y'' ?r2)"
  have m: "\<And>k v ttl r. redis_Set memory_redis k v ttl r = (r(k \<mapsto> v), None)"
    by (simp add: memory_redis_def)
  have s1: "SaveIndustrySystemIndex memory_redis Inr 30000142 ''x'' Map.empty = (?r1, None)"
    and s2: "SaveIndustrySystemIndex memory_redis Inr 30000144 ''z'' ?r1 = (?r2, None)"
    and s3: "SaveMarketPrice memory_redis Inr 34 ''y'' ?r2 = (?r3, None)"
    by (simp_all add: SaveIndustrySystemIndex_def SaveMarketPrice_def SaveJSON_def m)
  have ne: "(30000144 :: int32) \<noteq> 30000142" by simp
  have "?r3 (industry_index_key 30000142) = Some ''x''"
    using ne families_apart(1) [of 34 30000142] industry.item_key_inj [of 30000144 30000142]
    by (simp add: SaveIndustrySystemIndex_def SaveMarketPrice_def SaveJSON_def m)
  then have g: "redis_Get memory_redis (industry_index_key 30000142) ?r3 = (?r3, Inr ''x'')"
    by (simp add: memory_redis_def)
  have "GetIndustrySystemIndex memory_redis Inr 30000142 ?r3 = (?r3, Inr ''x'')"
    by (rule saved_index_read_back [OF memory_redis_ok _ s1 ne s2 s3 g]) simp
  then show ?thesis by simp
qed

theorem refresh_lock_exclusive_witness:
  "snd (AcquireRefreshLock memory_redis 7 industry_lock_key
      (fst (AcquireRefreshLock memory_redis 5 industry_lock_key Map.empty))) = Inr False"
proof -
  let ?k = industry_lock_key
  let ?r1 = "fst (AcquireRefreshLock memory_redis 5 ?k Map.empty)"
  have a: "AcquireRefreshLock memory_redis 5 ?k Map.empty = (?r1, Inr True)"
    by (simp add: AcquireRefreshLock_def memory_redis_def)
  have b: "\<exists>b. AcquireRefreshLock memory_redis 7 ?k ?r1 = (?r1, Inr b)"
    by (auto simp: AcquireRefreshLock_def memory_redis_def)
  have d: "snd (redis_Del memory_redis ?k ?r1) = None" by (simp add: memory_redis_def)
  have c: "\<exists>r4. AcquireRefreshLock memory_redis 9 ?k (ReleaseRefreshLock memory_redis ?k ?r1) = (r4, Inr True)"
    by (simp add: AcquireRefreshLock_def ReleaseRefreshLock_def memory_redis_def)
  from b obtain b1 where b1: "AcquireRefreshLock memory_redis 7 ?k ?r1 = (?r1, Inr b1)" by auto
  from c obtain r4 where "AcquireRefreshLock memory_redis 9 ?k (ReleaseRefreshLock memory_redis ?k ?r1) = (r4, Inr True)"
    by auto
  from refresh_lock_exclusive [OF memory_redis_ok a refl b1 d this] b1 show ?thesis by simp
qed

end
