(* ===== verification/Esi_Stream.thy ===== *)
theory Esi_Stream
  imports Esi_Requests Nats_Core Redis_Core
begin

text \<open>
  Streaming downloads from ESI: \<open>StreamIndustrySystems\<close> and \<open>StreamAdjustedPrices\<close> of
  \<open>internal/tasks/esi/refreshSystemIndexes.go\<close> and \<open>refreshAdjustedPrices.go\<close>, \<open>parseCacheSeconds\<close> of
  \<open>helpers.go\<close>, and the \<open>ClientInterface\<close> they call (\<open>internal/core/esi/client_interface.go\<close>).

  The body of a response is seen as the JSON decoder sees it (\<open>json_stream\<close>): the first token, what
  decoding each element gives while there are more, the last token, and the bytes read up to each
  point. \<open>gzip\<close>, \<open>io.ReadAll\<close>, \<open>http.ParseTime\<close>, the readings of the clock and the random jitter
  are fields of \<open>stream_env\<close>. Logging is left out.
\<close>

section \<open>Data\<close>

record ESICostIndice =
  Activity :: string
  CostIndex :: float64

record ESIIndustrySystem =
  CostIndices :: "ESICostIndice list"
  SystemID :: int32

record SystemIndexes =
  SolarSystemID :: int32
  LastUpdated :: int
  Manufacturing :: float64
  ResearchTime :: float64
  ResearchMaterial :: float64
  Copying :: float64
  Invention :: float64
  Reaction :: float64

record ESIAdjustedPrice =
  ItemTypeID :: int32
  ItemAdjustedPrice :: float64
  ItemAveragePrice :: float64

record AdjustedPrice =
  TypeID :: int32
  Adjusted :: float64
  PriceUpdated :: int

definition set_index :: "ESICostIndice \<Rightarrow> SystemIndexes \<Rightarrow> SystemIndexes" where
  "set_index ci s =
     (if Activity ci = ''manufacturing'' then s\<lparr>Manufacturing := CostIndex ci\<rparr>
      else if Activity ci = ''researching_time_efficiency'' then s\<lparr>ResearchTime := CostIndex ci\<rparr>
      else if Activity ci = ''researching_material_efficiency'' then s\<lparr>ResearchMaterial := CostIndex ci\<rparr>
      else if Activity ci = ''copying'' then s\<lparr>Copying := CostIndex ci\<rparr>
      else if Activity ci = ''invention'' then s\<lparr>Invention := CostIndex ci\<rparr>
      else if Activity ci = ''reaction'' then s\<lparr>Reaction := CostIndex ci\<rparr>
      else s)"

fun set_indexes :: "ESICostIndice list \<Rightarrow> SystemIndexes \<Rightarrow> SystemIndexes" where
  "set_indexes [] s = s"
| "set_indexes (ci # cis) s = set_indexes cis (set_index ci s)"

definition normalize_system :: "int \<Rightarrow> ESIIndustrySystem \<Rightarrow> SystemIndexes" where
  "normalize_system nowMs item =
     set_indexes (CostIndices item)
       \<lparr>SolarSystemID = SystemID item, LastUpdated = nowMs, Manufacturing = 0, ResearchTime = 0,
        ResearchMaterial = 0, Copying = 0, Invention = 0, Reaction = 0\<rparr>"

definition normalize_price :: "int \<Rightarrow> ESIAdjustedPrice \<Rightarrow> AdjustedPrice" where
  "normalize_price nowMs item =
     \<lparr>TypeID = ItemTypeID item, Adjusted = ItemAdjustedPrice item, PriceUpdated = nowMs\<rparr>"

section \<open>Cache headers\<close>

fun max_age_of :: "string list \<Rightarrow> int option" where
  "max_age_of [] = None"
| "max_age_of (p # parts) =
     (let q = trim_space p
      in if has_prefix q ''max-age='' then
           (case atoi (trim_prefix q ''max-age='') of
              Some secs \<Rightarrow> if secs > 0 then Some secs else max_age_of parts
            | None \<Rightarrow> max_age_of parts)
         else max_age_of parts)"

text \<open>\<open>int(d.Seconds())\<close> is the whole seconds of \<open>d\<close>; the conversion through \<open>float64\<close> is exact
  for periods below about 48 days.\<close>

definition parseCacheSeconds :: "(string \<Rightarrow> time option) \<Rightarrow> time \<Rightarrow> 'b http_response \<Rightarrow> int" where
  "parseCacheSeconds parseTime now resp =
     (let cc = header_get (Header resp) ''Cache-Control'';
          expires = header_get (Header resp) ''Expires'';
          from_cc = (if cc \<noteq> [] then max_age_of (split_on (CHR '','') cc) else None)
      in case from_cc of
           Some secs \<Rightarrow> secs
         | None \<Rightarrow>
             if expires \<noteq> [] then
               (case parseTime expires of
                  Some t \<Rightarrow> (let d = time_sub t now in if d > 0 then d div second else 0)
                | None \<Rightarrow> 0)
             else 0)"

section \<open>Requests with retries\<close>

datatype json_token = Delim char | OtherToken

record 'i json_stream =
  first_token :: "go_error + json_token"
  first_bytes :: int
  elements :: "((go_error + 'i) \<times> int) list"
  last_token :: "go_error option"
  last_bytes :: int

record ('b, 'i) stream_env =
  jitter :: "nat \<Rightarrow> int"
  gunzip :: "'b \<Rightarrow> go_error + 'b"
  json_of :: "'b \<Rightarrow> 'i json_stream"
  body_text :: "'b \<Rightarrow> string"
  parse_time :: "string \<Rightarrow> time option"
  cache_now :: time
  stream_now :: time

text \<open>\<open>ClientInterface.DoRequest\<close>: the number of the attempt selects what the outside does.\<close>

type_synonym ('s, 'b) do_request =
  "nat \<Rightarrow> string \<Rightarrow> string \<Rightarrow> (string \<times> string) list \<Rightarrow> 's \<Rightarrow> 's \<times> 'b http_response option \<times> go_error option"

definition maxAttempts :: nat where
  "maxAttempts = 4"

definition retry_wait :: "(nat \<Rightarrow> int) \<Rightarrow> nat \<Rightarrow> duration" where
  "retry_wait jit attempt =
     (let backoff = dur_mul (i64 (500 * shl64 1 (of_nat (attempt - 1)))) millisecond;
          jitter_time = dur_mul (jit attempt) millisecond
      in i64 (backoff + jitter_time))"

text \<open>The loop with \<open>n\<close> attempts left; \<open>waits\<close> are the sleeps so far. When no attempt is left the
  response is still nil.\<close>

fun request_loop :: "('s, 'b) do_request \<Rightarrow> (nat \<Rightarrow> int) \<Rightarrow> string \<Rightarrow> (string \<times> string) list \<Rightarrow> nat \<Rightarrow> nat
    \<Rightarrow> duration list \<Rightarrow> 's \<Rightarrow> 's \<times> duration list \<times> (go_error + 'b http_response option)" where
  "request_loop call jit path headers 0 attempt waits s = (s, waits, Inr None)"
| "request_loop call jit path headers (Suc n) attempt waits s =
     (case call attempt ''GET'' path headers s of
        (s1, resp, None) \<Rightarrow> (s1, waits, Inr resp)
      | (s1, resp, Some err) \<Rightarrow>
          if IsRateLimitError (Some err) then (s1, waits, Inl err)
          else if attempt \<ge> maxAttempts then (s1, waits, Inl err)
          else request_loop call jit path headers n (Suc attempt)
                 (waits @ [retry_wait jit attempt]) s1)"

section \<open>Streams\<close>

record stream_result =
  NewETag :: string
  NotModified :: bool
  BytesRead :: int
  StreamErr :: "go_error option"
  CacheSeconds :: "int option"

fun decode_items :: "('n \<Rightarrow> 's \<Rightarrow> 's \<times> go_error option) \<Rightarrow> ('i \<Rightarrow> 'n) \<Rightarrow> ((go_error + 'i) \<times> int) list \<Rightarrow> 's
    \<Rightarrow> 's \<times> (go_error \<times> int) option" where
  "decode_items onItem norm [] s = (s, None)"
| "decode_items onItem norm ((Inl err, n) # rest) s = (s, Some (err, n))"
| "decode_items onItem norm ((Inr item, n) # rest) s =
     (case onItem (norm item) s of
        (s1, Some err) \<Rightarrow> (s1, Some (err, n))
      | (s1, None) \<Rightarrow> decode_items onItem norm rest s1)"

definition stream_body :: "('n \<Rightarrow> 's \<Rightarrow> 's \<times> go_error option) \<Rightarrow> ('i \<Rightarrow> 'n) \<Rightarrow> 'i json_stream \<Rightarrow> 's
    \<Rightarrow> 's \<times> int \<times> go_error option" where
  "stream_body onItem norm js s =
     (case first_token js of
        Inl err \<Rightarrow> (s, first_bytes js, Some err)
      | Inr tok \<Rightarrow>
          if tok \<noteq> Delim (CHR ''['') then
            (s, first_bytes js, Some (ErrText ''invalid JSON: expected array start''))
          else case decode_items onItem norm (elements js) s of
                 (s1, Some (err, n)) \<Rightarrow> (s1, n, Some err)
               | (s1, None) \<Rightarrow> (s1, last_bytes js, last_token js))"

definition stream_response :: "('b, 'i) stream_env \<Rightarrow> (int \<Rightarrow> 'i \<Rightarrow> 'n)
    \<Rightarrow> ('n \<Rightarrow> 's \<Rightarrow> 's \<times> go_error option) \<Rightarrow> 'b http_response \<Rightarrow> 's \<Rightarrow> 's \<times> stream_result" where
  "stream_response env norm onItem resp s =
     (let newETag = header_get (Header resp) ''ETag'';
          cache = parseCacheSeconds (parse_time env) (cache_now env) resp
      in if StatusCode resp = status_not_modified then
           (s, \<lparr>NewETag = newETag, NotModified = True, BytesRead = 0, StreamErr = None,
                CacheSeconds = Some cache\<rparr>)
         else if StatusCode resp \<noteq> status_ok then
           (s, \<lparr>NewETag = newETag, NotModified = False, BytesRead = 0,
                StreamErr = Some (ErrText (body_text env (Body resp))), CacheSeconds = None\<rparr>)
         else
           (case (if header_get (Header resp) ''Content-Encoding'' = ''gzip''
                  then gunzip env (Body resp) else Inr (Body resp)) of
              Inl err \<Rightarrow>
                (s, \<lparr>NewETag = newETag, NotModified = False, BytesRead = 0, StreamErr = Some err,
                     CacheSeconds = Some cache\<rparr>)
            | Inr body \<Rightarrow>
                (case stream_body onItem (norm (unix_milli (stream_now env))) (json_of env body) s of
                   (s1, n, err) \<Rightarrow>
                     (s1, \<lparr>NewETag = newETag, NotModified = False, BytesRead = n, StreamErr = err,
                           CacheSeconds = Some cache\<rparr>))))"

definition failed_stream :: "go_error \<Rightarrow> stream_result" where
  "failed_stream err =
     \<lparr>NewETag = [], NotModified = False, BytesRead = 0, StreamErr = Some err, CacheSeconds = None\<rparr>"

definition stream_headers :: "string \<Rightarrow> (string \<times> string) list" where
  "stream_headers etag =
     [(''Accept'', ''application/json''), (''Accept-Encoding'', ''gzip'')]
     @ (if etag \<noteq> [] then [(''If-None-Match'', etag)] else [])"

text \<open>The two streams have the same text but for the path and the element type. \<open>None\<close> is a nil
  client or callback.\<close>

definition stream_list :: "('b, 'i) stream_env \<Rightarrow> string \<Rightarrow> (int \<Rightarrow> 'i \<Rightarrow> 'n) \<Rightarrow> ('s, 'b) do_request option
    \<Rightarrow> string \<Rightarrow> ('n \<Rightarrow> 's \<Rightarrow> 's \<times> go_error option) option \<Rightarrow> 's \<Rightarrow> 's \<times> stream_result" where
  "stream_list env path norm client etag onItem s =
     (case client of
        None \<Rightarrow> (s, failed_stream (ErrText ''ESI client is nil''))
      | Some call \<Rightarrow>
          (case onItem of
             None \<Rightarrow> (s, failed_stream (ErrText ''onItem callback is nil''))
           | Some f \<Rightarrow>
               (case request_loop call (jitter env) path (stream_headers etag) maxAttempts 1 [] s of
                  (s1, waits, Inl err) \<Rightarrow> (s1, failed_stream err)
                | (s1, waits, Inr None) \<Rightarrow> (s1, failed_stream (ErrText ''nil HTTP response''))
                | (s1, waits, Inr (Some resp)) \<Rightarrow> stream_response env norm f resp s1)))"

definition StreamIndustrySystems :: "('b, ESIIndustrySystem) stream_env \<Rightarrow> ('s, 'b) do_request option
    \<Rightarrow> string \<Rightarrow> (SystemIndexes \<Rightarrow> 's \<Rightarrow> 's \<times> go_error option) option \<Rightarrow> 's \<Rightarrow> 's \<times> stream_result" where
  "StreamIndustrySystems env = stream_list env ''/v1/industry/systems/'' normalize_system"

definition StreamAdjustedPrices :: "('b, ESIAdjustedPrice) stream_env \<Rightarrow> ('s, 'b) do_request option
    \<Rightarrow> string \<Rightarrow> (AdjustedPrice \<Rightarrow> 's \<Rightarrow> 's \<times> go_error option) option \<Rightarrow> 's \<Rightarrow> 's \<times> stream_result" where
  "StreamAdjustedPrices env = stream_list env ''/v1/markets/prices/'' normalize_price"

section \<open>Normalisation\<close>

text \<open>The last index of an activity, zero when there is none.\<close>

definition index_of :: "string \<Rightarrow> ESICostIndice list \<Rightarrow> float64" where
  "index_of activity cis =
     (case rev (filter (\<lambda>ci. Activity ci = activity) cis) of [] \<Rightarrow> 0 | ci # _ \<Rightarrow> CostIndex ci)"

lemma index_of_snoc:
  "index_of a (cis @ [ci]) = (if Activity ci = a then CostIndex ci else index_of a cis)"
  by (simp add: index_of_def)

lemma set_indexes_append: "set_indexes (xs @ ys) s = set_indexes ys (set_indexes xs s)"
  by (induction xs arbitrary: s) auto

lemma set_index_id: "SolarSystemID (set_index ci s) = SolarSystemID s"
  by (simp add: set_index_def)

lemma normalize_system_id: "SolarSystemID (normalize_system now item) = SystemID item"
proof -
  have "SolarSystemID (set_indexes cis s) = SolarSystemID s" for cis s
    by (induction cis arbitrary: s) (simp_all add: set_index_id)
  then show ?thesis by (simp add: normalize_system_def)
qed

text \<open>Normalisation. Each of the six fields holds the last cost index that the response lists
  for its activity, zero when it lists none; other activities are ignored, and the identity and
  the time stamp are those of the item and of the pass.\<close>

theorem normalize_system_fields:
  "normalize_system now item =
     \<lparr>SolarSystemID = SystemID item, LastUpdated = now,
      Manufacturing = index_of ''manufacturing'' (CostIndices item),
      ResearchTime = index_of ''researching_time_efficiency'' (CostIndices item),
      ResearchMaterial = index_of ''researching_material_efficiency'' (CostIndices item),
      Copying = index_of ''copying'' (CostIndices item),
      Invention = index_of ''invention'' (CostIndices item),
      Reaction = index_of ''reaction'' (CostIndices item)\<rparr>"
proof -
  have "set_indexes cis \<lparr>SolarSystemID = i, LastUpdated = now, Manufacturing = 0, ResearchTime = 0,
        ResearchMaterial = 0, Copying = 0, Invention = 0, Reaction = 0\<rparr> =
     \<lparr>SolarSystemID = i, LastUpdated = now,
      Manufacturing = index_of ''manufacturing'' cis,
      ResearchTime = index_of ''researching_time_efficiency'' cis,
      ResearchMaterial = index_of ''researching_material_efficiency'' cis,
      Copying = index_of ''copying'' cis, Invention = index_of ''invention'' cis,
      Reaction = index_of ''reaction'' cis\<rparr>" for i cis
    by (induction cis rule: rev_induct)
      (simp_all add: set_indexes_append set_index_def index_of_snoc, simp add: index_of_def)
  then show ?thesis by (simp add: normalize_system_def)
qed

section \<open>The retry loop\<close>

lemma small_shl: "n < 4 \<Longrightarrow> shl64 1 (of_nat n) = 2 ^ n"
proof -
  assume "n < 4"
  then have "n = 0 \<or> n = 1 \<or> n = 2 \<or> n = 3" by linarith
  then show ?thesis by (elim disjE) (simp_all add: shl64_def i64_def word_le_nat_alt)
qed

lemma retry_wait_bounds:
  assumes "1 \<le> k" and "k \<le> 4" and "0 \<le> jit k" and "jit k < 100"
  shows "500 * 2 ^ (k - 1) * millisecond \<le> retry_wait jit k"
    and "retry_wait jit k < (500 * 2 ^ (k - 1) + 100) * millisecond"
proof -
  have "(2 :: int) ^ (k - 1) \<le> 2 ^ 3" using assms(2) by (intro power_increasing) auto
  then obtain x :: int where x: "2 ^ (k - 1) = x" "0 < x" "x \<le> 8" by simp
  have a: "i64 (500 * x) = 500 * x" using x(2,3) by (intro i64_id) (simp add: in_i64_def)
  have b: "dur_mul (500 * x) millisecond = 500 * x * millisecond"
    unfolding dur_mul_def using x(2,3) by (intro i64_id) (simp add: in_i64_def millisecond_def)
  have c: "dur_mul (jit k) millisecond = jit k * millisecond"
    unfolding dur_mul_def using assms(3,4) by (intro i64_id) (simp add: in_i64_def millisecond_def)
  have d: "i64 (500 * x * millisecond + jit k * millisecond) = 500 * x * millisecond + jit k * millisecond"
    using x(2,3) assms(3,4) by (intro i64_id) (simp add: in_i64_def millisecond_def)
  have e: "shl64 1 (of_nat (k - 1)) = x" using small_shl [of "k - 1"] assms(1,2) x(1) by simp
  have w: "retry_wait jit k = 500 * x * millisecond + jit k * millisecond"
    unfolding retry_wait_def Let_def e a b c by (rule d)
  show "500 * 2 ^ (k - 1) * millisecond \<le> retry_wait jit k"
    and "retry_wait jit k < (500 * 2 ^ (k - 1) + 100) * millisecond"
    unfolding w x(1) using assms(3,4) by (simp_all add: millisecond_def distrib_right)
qed

text \<open>The contract of \<open>ClientInterface.DoRequest\<close> that the streams rely on: a call without an error
  has a response, and a call leaves alone what does not belong to the client (\<open>frame\<close>).\<close>

locale esi_interface =
  fixes call :: "('s, 'b) do_request" and frame :: "'s \<Rightarrow> 'f"
  assumes call_answers: "call k meth path headers s = (s', resp, None) \<Longrightarrow> resp \<noteq> None"
    and call_frame: "call k meth path headers s = (s', resp, err) \<Longrightarrow> frame s' = frame s"
begin

lemma loop_frame:
  "request_loop call jit path headers n k w s = (s', w', res) \<Longrightarrow> frame s' = frame s"
proof (induction n arbitrary: k w s)
  case (Suc n)
  then show ?case
    by (auto split: prod.splits option.splits if_splits dest: call_frame)
qed simp

lemma loop_answers:
  "request_loop call jit path headers n k w s = (s', w', Inr resp) \<Longrightarrow> maxAttempts < k + n \<Longrightarrow> 0 < n
    \<Longrightarrow> resp \<noteq> None"
proof (induction n arbitrary: k w s)
  case (Suc n)
  then show ?case
    by (cases n) (auto split: prod.splits option.splits if_splits dest: call_answers)
qed simp

lemma loop_waits:
  "request_loop call jit path headers n k w s = (s', w', res) \<Longrightarrow>
    \<exists>j. j \<le> maxAttempts - k \<and> w' = w @ map (retry_wait jit) [k..<k + j]"
proof (induction n arbitrary: k w s)
  case 0
  then show ?case by (intro exI [of _ 0]) simp
next
  case (Suc n)
  obtain s1 resp err where c: "call k ''GET'' path headers s = (s1, resp, err)"
    by (cases "call k ''GET'' path headers s")
  show ?case
  proof (cases "\<exists>e. err = Some e \<and> \<not> IsRateLimitError (Some e) \<and> k < maxAttempts")
    case True
    then have r: "request_loop call jit path headers n (Suc k) (w @ [retry_wait jit k]) s1 = (s', w', res)"
      using Suc.prems c by auto
    obtain j where j: "j \<le> maxAttempts - Suc k"
        "w' = (w @ [retry_wait jit k]) @ map (retry_wait jit) [Suc k..<Suc k + j]"
      using Suc.IH [OF r] by blast
    have up: "[k..<k + Suc j] = k # [Suc k..<Suc k + j]" by (simp add: upt_rec)
    show ?thesis
      by (rule exI [of _ "Suc j"]) (use True j up in auto)
  next
    case False
    then have "w' = w" using Suc.prems c by (auto split: option.splits if_splits)
    then show ?thesis by (intro exI [of _ 0]) simp
  qed
qed

text \<open>A rate-limit error comes straight from the client and ends the loop.\<close>

lemma loop_rate_limit:
  "call k ''GET'' path headers s = (s1, resp, Some err) \<Longrightarrow> IsRateLimitError (Some err) \<Longrightarrow>
    request_loop call jit path headers (Suc n) k w s = (s1, w, Inl err)"
  by simp

end

section \<open>The client of a task\<close>

datatype metric =
    MErrors string
  | MRequests duration
  | MBytes int
  | MItems int
  | MNextRefresh int
  | MLastUpdated int

text \<open>What a refresh task works on: Redis, the ESI client, the message (nil is \<open>None\<close>), and the
  Prometheus updates it made, in order.\<close>

record ('r, 'c) task_state =
  Redis :: 'r
  Client :: 'c
  Msg :: "js_msg option"
  Metrics :: "metric list"

text \<open>\<open>ESIClient\<close> as a \<open>ClientInterface\<close>; attempt \<open>k\<close> meets the outside \<open>envs k\<close>.\<close>

definition client_call :: "(nat \<Rightarrow> ('l, 'b) call_env)
    \<Rightarrow> (('r, 'l ESIClient, 'z) task_state_scheme, 'b) do_request" where
  "client_call envs k meth path headers st =
     (case DoRequest (envs k) (Client st) meth path headers of
        (c, Inl err) \<Rightarrow> (st\<lparr>Client := c\<rparr>, None, Some err)
      | (c, Inr resp) \<Rightarrow> (st\<lparr>Client := c\<rparr>, Some resp, None))"

interpretation esi: esi_interface "client_call envs" "\<lambda>st. (Redis st, Msg st, Metrics st)"
  for envs :: "nat \<Rightarrow> ('l, 'b) call_env"
  by unfold_locales (auto simp: client_call_def split: prod.splits sum.splits)

section \<open>What a stream does\<close>

fun deliver :: "('n \<Rightarrow> 's \<Rightarrow> 's \<times> go_error option) \<Rightarrow> 'n list \<Rightarrow> 's \<Rightarrow> 's option" where
  "deliver f [] s = Some s"
| "deliver f (x # xs) s = (case f x s of (s1, None) \<Rightarrow> deliver f xs s1 | (s1, Some _) \<Rightarrow> None)"

lemma decode_items_all:
  "decode_items f norm els s = (s', None) \<Longrightarrow>
    \<exists>items. map fst els = map Inr items \<and> deliver f (map norm items) s = Some s'"
proof (induction f norm els s rule: decode_items.induct)
  case (1 f norm s)
  then show ?case by simp
next
  case (2 f norm err n rest s)
  then show ?case by simp
next
  case (3 f norm item n rest s)
  then obtain s1 where s1: "f (norm item) s = (s1, None)" "decode_items f norm rest s1 = (s', None)"
    by (auto split: prod.splits option.splits)
  obtain items where "map fst rest = map Inr items" "deliver f (map norm items) s1 = Some s'"
    using "3.IH" [OF s1(1) [symmetric] refl] s1(2) by blast
  then show ?case using s1(1) by (intro exI [of _ "item # items"]) simp
qed

lemma decode_items_inv:
  assumes "\<And>n s. P s \<Longrightarrow> P (fst (f n s))" and "P s"
  shows "P (fst (decode_items f norm els s))"
  using assms
proof (induction f norm els s rule: decode_items.induct)
  case (3 f norm item n rest s)
  obtain s1 e where f: "f (norm item) s = (s1, e)" by (cases "f (norm item) s")
  have "P s1" using "3.prems"(1) [of s "norm item"] "3.prems"(2) f by simp
  then show ?case using "3.IH" [OF f [symmetric]] "3.prems" f by (cases e) auto
qed simp_all

lemma stream_response_inv:
  assumes "\<And>n s. P s \<Longrightarrow> P (fst (f n s))" and "P s"
  shows "P (fst (stream_response env norm f resp s))"
proof -
  have body: "P (fst (stream_body f g js s))" for js g
    using decode_items_inv [of P f s g "elements js"] assms unfolding stream_body_def
    by (auto split: sum.split prod.split option.split)
  show ?thesis unfolding stream_response_def Let_def
    using assms(2) body [of "norm (unix_milli (stream_now env))"]
    by (auto split: sum.split prod.split) (metis fst_conv)+
qed

lemma request_loop_inv:
  assumes "\<And>k m p h s. P s \<Longrightarrow> P (fst (call k m p h s))" and "P s"
  shows "P (fst (request_loop call jit path headers n k w s))"
  using assms(2)
proof (induction n arbitrary: k w s)
  case (Suc n)
  have "P (fst (call k ''GET'' path headers s))" using assms(1) Suc.prems by blast
  then show ?case using Suc.IH by (auto split: prod.split option.split)
qed simp

text \<open>A property that the client's calls and the callback keep holds after the stream.\<close>

lemma stream_list_inv:
  assumes "\<And>k m p h s. P s \<Longrightarrow> P (fst (call k m p h s))" and "\<And>n s. P s \<Longrightarrow> P (fst (f n s))" and "P s"
  shows "P (fst (stream_list env path norm (Some call) etag (Some f) s))"
proof -
  have "P (fst (request_loop call (jitter env) path (stream_headers etag) maxAttempts 1 [] s))"
    by (rule request_loop_inv) (use assms in auto)
  then show ?thesis
    using stream_response_inv [of P f, OF assms(2)]
    by (auto simp: stream_list_def split: prod.split sum.split option.split)
qed

lemma stream_list_complete:
  assumes "stream_list env path norm (Some call) etag (Some f) s = (s', res)"
    and "StreamErr res = None" and "\<not> NotModified res"
  shows "\<exists>s1 waits resp body items.
    request_loop call (jitter env) path (stream_headers etag) maxAttempts 1 [] s = (s1, waits, Inr (Some resp))
    \<and> StatusCode resp = status_ok
    \<and> (if header_get (Header resp) ''Content-Encoding'' = ''gzip'' then gunzip env (Body resp) else Inr (Body resp)) = Inr body
    \<and> first_token (json_of env body) = Inr (Delim (CHR ''[''))
    \<and> map fst (elements (json_of env body)) = map Inr items
    \<and> last_token (json_of env body) = None
    \<and> deliver f (map (norm (unix_milli (stream_now env))) items) s1 = Some s'
    \<and> NewETag res = header_get (Header resp) ''ETag''"
proof -
  obtain s1 waits r where loop: "request_loop call (jitter env) path (stream_headers etag) maxAttempts 1 [] s = (s1, waits, r)"
    by (cases "request_loop call (jitter env) path (stream_headers etag) maxAttempts 1 [] s")
  obtain resp where r: "r = Inr (Some resp)" and run: "stream_response env norm f resp s1 = (s', res)"
    using assms loop by (cases r) (auto simp: stream_list_def failed_stream_def split: option.splits)
  have st: "StatusCode resp = status_ok"
    using run assms(2,3) by (auto simp: stream_response_def Let_def split: if_splits)
  let ?b = "if header_get (Header resp) ''Content-Encoding'' = ''gzip'' then gunzip env (Body resp) else Inr (Body resp)"
  have nm: "StatusCode resp \<noteq> status_not_modified" using st by (simp add: http_statuses)
  obtain body where body: "?b = Inr body"
    using run assms(2) st nm unfolding stream_response_def Let_def
    by (cases ?b) (auto simp: http_statuses)
  obtain n where sb: "stream_body f (norm (unix_milli (stream_now env))) (json_of env body) s1 = (s', n, None)"
    and et: "NewETag res = header_get (Header resp) ''ETag''"
    using run assms(2) st nm body unfolding stream_response_def Let_def
    by (auto simp: http_statuses split: prod.splits)
  have ft: "first_token (json_of env body) = Inr (Delim (CHR ''[''))"
    using sb by (auto simp: stream_body_def split: sum.splits if_splits)
  then have "decode_items f (norm (unix_milli (stream_now env))) (elements (json_of env body)) s1 = (s', None)"
    and lt: "last_token (json_of env body) = None"
    using sb by (auto simp: stream_body_def split: prod.splits option.splits)
  with decode_items_all obtain items where "map fst (elements (json_of env body)) = map Inr items"
    "deliver f (map (norm (unix_milli (stream_now env))) items) s1 = Some s'" by metis
  then show ?thesis using loop r st body ft lt et by blast
qed

section \<open>Properties\<close>

text \<open>The retry schedule. Whatever the client does, a download sleeps at most three times, the
  \<open>i\<close>-th time for 500, 1000 or 2000 milliseconds plus a jitter below 100, less than 3.8 seconds in
  all, and it never ends without a response or an error.\<close>

theorem retry_schedule:
  assumes "\<And>k. 0 \<le> jit k \<and> jit k < 100"
  shows "(let (st', waits, res) = request_loop (client_call envs) jit path headers maxAttempts 1 [] st
    in length waits \<le> 3
     \<and> (\<forall>i<length waits. 500 * 2 ^ i * millisecond \<le> waits ! i
                         \<and> waits ! i < (500 * 2 ^ i + 100) * millisecond)
     \<and> sum_list waits < 3800 * millisecond
     \<and> res \<noteq> Inr None)"
proof -
  obtain st' waits res where run:
      "request_loop (client_call envs) jit path headers maxAttempts 1 [] st = (st', waits, res)"
    by (cases "request_loop (client_call envs) jit path headers maxAttempts 1 [] st")
  obtain j where j: "j \<le> 3" "waits = map (retry_wait jit) [1..<1 + j]"
    using esi.loop_waits [OF run] by (auto simp: maxAttempts_def)
  have b: "500 * 2 ^ (k - 1) * millisecond \<le> retry_wait jit k
      \<and> retry_wait jit k < (500 * 2 ^ (k - 1) + 100) * millisecond" if "1 \<le> k" "k \<le> 4" for k
    using retry_wait_bounds [OF that] assms [of k] by blast
  have each: "500 * 2 ^ i * millisecond \<le> waits ! i \<and> waits ! i < (500 * 2 ^ i + 100) * millisecond"
    if "i < length waits" for i
  proof -
    have "waits ! i = retry_wait jit (Suc i)" "i < 3" using that j by (simp_all del: upt_Suc)
    then show ?thesis using b [of "Suc i"] by simp
  qed
  have "res \<noteq> Inr None"
    using esi.loop_answers [of envs jit path headers maxAttempts 1 "[]" st st' waits] run
    by (auto simp: maxAttempts_def)
  moreover have "sum_list waits < 3800 * millisecond"
  proof -
    have "j = 0 \<or> j = 1 \<or> j = 2 \<or> j = 3" using j(1) by linarith
    then show ?thesis
      using b [of 1] b [of 2] b [of 3] j(2)
      by (elim disjE) (simp_all add: upt_rec eval_nat_numeral millisecond_def)
  qed
  ultimately show ?thesis using run each j by simp
qed


text \<open>C14: a download that reports new data has delivered all of it. If the stream of industry systems
  returns without an error and is not a 304, the server answered 200 with a well-formed array, the
  callback was run on every system of the array in its order and never failed, and the ETag
  returned is the one of that response.\<close>

theorem stream_complete:
  fixes env :: "('b, ESIIndustrySystem) stream_env"
  assumes "StreamIndustrySystems env (Some (client_call envs)) etag (Some f) st = (st', res)"
    and "StreamErr res = None" and "\<not> NotModified res"
  shows "\<exists>st1 (resp :: 'b http_response) body items. StatusCode resp = status_ok
    \<and> (if header_get (Header resp) ''Content-Encoding'' = ''gzip'' then gunzip env (Body resp)
       else Inr (Body resp)) = Inr body
    \<and> map fst (elements (json_of env body)) = map Inr items
    \<and> last_token (json_of env body) = None
    \<and> deliver f (map (normalize_system (unix_milli (stream_now env))) items) st1 = Some st'
    \<and> NewETag res = header_get (Header resp) ''ETag''
    \<and> (Redis st1, Msg st1, Metrics st1) = (Redis st, Msg st, Metrics st)"
proof -
  obtain st1 waits resp body items where s:
    "request_loop (client_call envs) (jitter env) ''/v1/industry/systems/'' (stream_headers etag)
       maxAttempts 1 [] st = (st1, waits, Inr (Some resp))"
    "StatusCode resp = status_ok"
    "(if header_get (Header resp) ''Content-Encoding'' = ''gzip'' then gunzip env (Body resp)
       else Inr (Body resp)) = Inr body"
    "map fst (elements (json_of env body)) = map Inr items"
    "last_token (json_of env body) = None"
    "deliver f (map (normalize_system (unix_milli (stream_now env))) items) st1 = Some st'"
    "NewETag res = header_get (Header resp) ''ETag''"
    using stream_list_complete [OF assms(1) [unfolded StreamIndustrySystems_def] assms(2,3)] by blast
  show ?thesis
    by (rule exI [of _ st1], rule exI [of _ resp], rule exI [of _ body], rule exI [of _ items])
      (use s esi.loop_frame [OF s(1)] in simp)
qed

lemma split_on_char_free: "sep \<notin> set s \<Longrightarrow> split_on sep s = [s]"
  by (induction s) auto

lemma max_age_of_pos: "max_age_of parts = Some n \<Longrightarrow> 0 < n"
  by (induction parts) (auto simp: Let_def split: if_splits option.splits)

lemma format_nat_chars: "c \<in> set (format_nat n) \<Longrightarrow> 48 \<le> (of_char c :: nat) \<and> (of_char c :: nat) < 58"
  using format_nat_digits [of c n] by (auto simp: digit_char_def)

text \<open>\<open>parseCacheSeconds\<close> finds a positive \<open>max-age\<close> that follows another directive of
  \<open>Cache-Control\<close> and reads back its number of seconds, whatever the \<open>Expires\<close> header says.\<close>

theorem cache_seconds_max_age:
  assumes "header_get (Header resp) ''Cache-Control'' = dirs @ '', max-age='' @ format_int n"
    and "CHR '','' \<notin> set dirs" and "\<not> has_prefix (trim_space dirs) ''max-age=''"
    and "0 < n" and "n < 2 ^ 63"
  shows "parseCacheSeconds pt now resp = n"
proof -
  let ?m = "'' max-age='' @ format_int n"
  have fn: "format_int n = format_nat (nat n)" using assms(4) by (simp add: format_int_def)
  have nc: "CHR '','' \<notin> set ?m" using format_nat_chars [of "CHR '',''" "nat n"] by (auto simp: fn)
  have "split_on (CHR '','') (dirs @ CHR '','' # ?m) = [dirs, ?m]"
    using assms(2) split_on_char_free [OF nc] by (induction dirs) auto
  moreover have "trim_space ?m = ''max-age='' @ format_int n"
  proof -
    obtain c cs where c: "rev (format_nat (nat n)) = c # cs" by (metis format_nat_ne neq_Nil_conv rev_is_Nil_conv)
    then have "c \<in> set (format_nat (nat n))" by (metis list.set_intros(1) set_rev)
    then have "\<not> is_space c" using format_nat_chars [of c "nat n"] by (auto simp: is_space_def)
    moreover have "is_space (CHR '' '')" "\<not> is_space (CHR ''m'')" by (simp_all add: is_space_def)
    ultimately show ?thesis using c
      by (simp add: trim_space_def fn)
  qed
  moreover have "atoi (format_int n) = Some n" using assms(4,5) by (intro atoi_format) (simp add: in_i64_def)
  ultimately have "max_age_of (split_on (CHR '','') (dirs @ CHR '','' # ?m)) = Some n"
    using assms(3,4) trim_prefix_append [of "''max-age=''"] has_prefix_append [of "''max-age=''"]
    by (simp add: Let_def)
  then show ?thesis using assms(1) by (simp add: parseCacheSeconds_def Let_def)
qed

section \<open>Witnesses\<close>

definition sample_state :: "(unit, unit ESIClient) task_state" where
  "sample_state = \<lparr>Redis = (), Client = sample_client, Msg = None, Metrics = []\<rparr>"

definition sample_stream :: "'i list \<Rightarrow> (unit, 'i) stream_env" where
  "sample_stream items =
     \<lparr>jitter = (\<lambda>_. 7), gunzip = Inr,
      json_of = (\<lambda>_. \<lparr>first_token = Inr (Delim (CHR ''['')), first_bytes = 1,
        elements = map (\<lambda>i. (Inr i, 10)) items, last_token = None, last_bytes = 20\<rparr>),
      body_text = (\<lambda>_. []), parse_time = (\<lambda>_. None), cache_now = 0, stream_now = 1000000\<rparr>"

definition sample_system :: ESIIndustrySystem where
  "sample_system = \<lparr>CostIndices = [\<lparr>Activity = ''copying'', CostIndex = 5\<rparr>], SystemID = 30000142\<rparr>"

definition count_item :: "SystemIndexes \<Rightarrow> ('r, 'c) task_state \<Rightarrow> ('r, 'c) task_state \<times> go_error option" where
  "count_item x st = (st\<lparr>Metrics := Metrics st @ [MItems (sint (SolarSystemID x))]\<rparr>, None)"

theorem retry_schedule_witness:
  "(let (st', waits, res) = request_loop (client_call (\<lambda>_. sample_env 1 (sample_response 200 ''g'' [])))
      (\<lambda>_. 7) ''/p'' [] maxAttempts 1 [] sample_state
    in length waits \<le> 3 \<and> sum_list waits < 3800 * millisecond \<and> res \<noteq> Inr None)"
  using retry_schedule [of "\<lambda>_. 7" "\<lambda>_. sample_env 1 (sample_response 200 ''g'' [])" "''/p''" "[]" sample_state]
  by (auto simp: Let_def split: prod.splits)

lemma sample_stream_answer:
  "\<exists>c. client_call (\<lambda>_. sample_env 1 (sample_response 200 ''g'' [])) k ''GET'' p h sample_state =
     (sample_state\<lparr>Client := c\<rparr>, Some (sample_response 200 ''g'' []), None)"
proof -
  have "snd (DoRequest (sample_env 1 (sample_response 200 ''g'' [])) sample_client ''GET'' p h)
      = Inr (sample_response 200 ''g'' [])"
    by (rule sample_answer) (simp_all add: sample_response_def status_too_many_requests_def)
  then show ?thesis
    by (cases "DoRequest (sample_env 1 (sample_response 200 ''g'' [])) sample_client ''GET'' p h")
      (auto simp: client_call_def sample_state_def)
qed

theorem stream_complete_witness:
  "\<exists>st1 items. deliver count_item (map (normalize_system 1) items) st1 =
     Some (fst (StreamIndustrySystems (sample_stream [sample_system])
       (Some (client_call (\<lambda>_. sample_env 1 (sample_response 200 ''g'' [])))) [] (Some count_item) sample_state))"
proof -
  let ?resp = "sample_response 200 ''g'' []"
  let ?call = "client_call (\<lambda>_. sample_env 1 ?resp)"
  let ?run = "StreamIndustrySystems (sample_stream [sample_system]) (Some ?call) [] (Some count_item) sample_state"
  obtain c where c: "?call 1 ''GET'' ''/v1/industry/systems/'' (stream_headers []) sample_state =
      (sample_state\<lparr>Client := c\<rparr>, Some ?resp, None)" using sample_stream_answer by blast
  have st: "StatusCode ?resp = 200" by (simp add: sample_response_def)
  have "StreamErr (snd ?run) = None \<and> \<not> NotModified (snd ?run)"
    using c st by (simp add: StreamIndustrySystems_def stream_list_def maxAttempts_def numeral_eq_Suc
        stream_response_def status_not_modified_def status_ok_def stream_body_def sample_stream_def
        count_item_def split: prod.split)
  moreover have "unix_milli (stream_now (sample_stream [sample_system])) = 1"
    by (simp add: sample_stream_def unix_milli_def i64_def millisecond_def)
  ultimately show ?thesis
    using stream_complete [OF prod.collapse [symmetric], of "sample_stream [sample_system]"
        "\<lambda>_. sample_env 1 ?resp" "[]" count_item sample_state] by auto
qed


theorem cache_seconds_max_age_witness:
  "parseCacheSeconds (\<lambda>_. None) 0
     \<lparr>StatusCode = 200, Header = [''Cache-Control'' \<mapsto> ''public, max-age=300''], Body = ()\<rparr> = 300"
proof -
  let ?r = "\<lparr>StatusCode = 200, Header = [''Cache-Control'' \<mapsto> ''public, max-age=300''], Body = ()\<rparr>"
  have f: "format_int 300 = ''300''" by code_simp
  have k: "canonical_key ''Cache-Control'' = ''Cache-Control''" by code_simp
  have h: "header_get (Header ?r) ''Cache-Control'' = ''public'' @ '', max-age='' @ format_int 300"
    by (simp add: header_get_def k f)
  have p: "\<not> has_prefix (trim_space ''public'') ''max-age=''" by code_simp
  show ?thesis by (rule cache_seconds_max_age [OF h _ p]) simp_all
qed

end
