(* ===== verification/Esi_Refresh.thy ===== *)
theory Esi_Refresh
  imports Esi_Stream
begin

text \<open>
  The worker's refresh tasks: \<open>RefreshSystemIndexes\<close> and \<open>RefreshAdjustedPrices\<close> of
  \<open>internal/tasks/esi\<close>. The two functions are the same text over two families of Redis keys and
  two streams, so the text is \<open>refresh_task\<close> and a family is a record of its operations.

  The readings of the clock are \<open>task_clock\<close>. Logging is left out, and so is the context with its
  15-second timeout: an expired context shows as failing calls.
\<close>

section \<open>State\<close>

text \<open>\<open>count\<close> and \<open>lastProgress\<close> are the variables that the stream's callback captures.\<close>

record ('r, 'c) refresh_state = "('r, 'c) task_state" +
  Count :: nat
  LastProgress :: time

record task_clock =
  lock_now :: time
  progress_start :: time
  start_now :: time
  since_at :: "nat \<Rightarrow> time"
  progress_at :: "nat \<Rightarrow> time"
  wait_now :: time
  updated_now :: time
  next_now :: time
  done_now :: time
  done_updated :: time

record ('r, 'n, 's) refresh_ops =
  LockKey :: string
  LoadETag :: "'r \<Rightarrow> 'r \<times> (go_error + string)"
  SaveItem :: "'n \<Rightarrow> 'r \<Rightarrow> 'r \<times> go_error option"
  SaveETag :: "string \<Rightarrow> 'r \<Rightarrow> 'r \<times> go_error option"
  SaveUpdated :: "int \<Rightarrow> 'r \<Rightarrow> 'r \<times> go_error option"
  StreamItems :: "string \<Rightarrow> ('n \<Rightarrow> 's \<Rightarrow> 's \<times> go_error option) option \<Rightarrow> 's \<Rightarrow> 's \<times> stream_result"

section \<open>Operations\<close>

text \<open>Calls on the message when there is one.\<close>

definition on_message :: "msg_call \<Rightarrow> ('r, 'c, 'z) task_state_scheme
    \<Rightarrow> ('r, 'c, 'z) task_state_scheme \<times> go_error option" where
  "on_message a st =
     (case Msg st of
        None \<Rightarrow> (st, None)
      | Some m \<Rightarrow> (case wrapper_call a m of (m1, err) \<Rightarrow> (st\<lparr>Msg := Some m1\<rparr>, err)))"

definition nack_message :: "('r, 'c, 'z) task_state_scheme \<Rightarrow> ('r, 'c, 'z) task_state_scheme" where
  "nack_message st =
     st\<lparr>Msg := map_option (NackWithBackoff wrapper_NumDelivered wrapper_call) (Msg st)\<rparr>"

definition add_metrics :: "metric list \<Rightarrow> ('r, 'c, 'z) task_state_scheme \<Rightarrow> ('r, 'c, 'z) task_state_scheme" where
  "add_metrics ms st = st\<lparr>Metrics := Metrics st @ ms\<rparr>"

text \<open>The callback of the stream.\<close>

definition on_item :: "('r, 'n, ('r, 'c) refresh_state) refresh_ops \<Rightarrow> task_clock \<Rightarrow> 'n
    \<Rightarrow> ('r, 'c) refresh_state \<Rightarrow> ('r, 'c) refresh_state \<times> go_error option" where
  "on_item ops clk x st =
     (case SaveItem ops x (Redis st) of
        (r, Some err) \<Rightarrow> (st\<lparr>Redis := r\<rparr>, Some err)
      | (r, None) \<Rightarrow>
          (let n = Suc (Count st);
               st1 = st\<lparr>Redis := r, Count := n\<rparr>
           in if Msg st1 \<noteq> None \<and> time_sub (since_at clk n) (LastProgress st1) \<ge> 5 * second
              then ((fst (on_message InProgress st1))\<lparr>LastProgress := progress_at clk n\<rparr>, None)
              else (st1, None)))"

definition stream_failed :: "('r, 'c) refresh_state \<Rightarrow> ('r, 'c) refresh_state" where
  "stream_failed st = add_metrics [MErrors ''stream''] (nack_message st)"

text \<open>What a stream that returned an error does to the message.\<close>

definition refresh_error :: "task_clock \<Rightarrow> go_error \<Rightarrow> ('r, 'c) refresh_state \<Rightarrow> ('r, 'c) refresh_state" where
  "refresh_error clk err st =
     (case GetRateLimitError (Some err) of
        None \<Rightarrow> stream_failed st
      | Some rl \<Rightarrow>
          if IsRetryableRateLimitError (Some err) then
            (if Msg st \<noteq> None then
               (let waitDuration = time_sub (RetryAfter rl) (wait_now clk)
                in if waitDuration > 0 then
                     (case on_message (NakWithDelay waitDuration) st of
                        (st1, Some nakErr) \<Rightarrow> nack_message st1
                      | (st1, None) \<Rightarrow> st1)
                   else nack_message st)
             else stream_failed st)
          else nack_message st)"

definition next_refresh :: "task_clock \<Rightarrow> stream_result \<Rightarrow> metric list" where
  "next_refresh clk res =
     (case CacheSeconds res of
        None \<Rightarrow> []
      | Some cacheSeconds \<Rightarrow>
          if cacheSeconds > 0
          then [MNextRefresh (unix_milli (time_add (next_now clk) (dur_mul cacheSeconds second)))]
          else [])"

text \<open>From the return of the stream on.\<close>

definition refresh_finish :: "('r, 'n, ('r, 'c) refresh_state) refresh_ops \<Rightarrow> task_clock
    \<Rightarrow> stream_result \<Rightarrow> ('r, 'c) refresh_state \<Rightarrow> ('r, 'c) refresh_state" where
  "refresh_finish ops clk res st2 =
     (case StreamErr res of
        Some err \<Rightarrow> refresh_error clk err st2
      | None \<Rightarrow>
          if NotModified res then
            add_metrics ([MRequests (time_sub (done_now clk) (start_now clk)), MBytes (BytesRead res)]
                @ next_refresh clk res)
              (fst (on_message Ack st2))
          else
            (case SaveETag ops (NewETag res) (Redis st2) of
               (r3, Some err) \<Rightarrow>
                 add_metrics [MErrors ''etag_save''] (nack_message (st2\<lparr>Redis := r3\<rparr>))
             | (r3, None) \<Rightarrow>
                 (case SaveUpdated ops (unix_milli (updated_now clk)) r3 of
                    (r4, Some err) \<Rightarrow>
                      add_metrics [MErrors ''last_updated_save''] (nack_message (st2\<lparr>Redis := r4\<rparr>))
                  | (r4, None) \<Rightarrow>
                      add_metrics
                        [MRequests (time_sub (done_now clk) (start_now clk)),
                         MBytes (BytesRead res), MItems (int (Count st2)),
                         MLastUpdated (unix_milli (done_updated clk))]
                        (fst (on_message Ack
                          (add_metrics (next_refresh clk res) (st2\<lparr>Redis := r4\<rparr>)))))))"

definition refresh_body :: "('r, 'n, ('r, 'c) refresh_state) refresh_ops \<Rightarrow> task_clock
    \<Rightarrow> ('r, 'c) refresh_state \<Rightarrow> ('r, 'c) refresh_state" where
  "refresh_body ops clk st =
     (case LoadETag ops (Redis st) of (r, etagRes) \<Rightarrow>
       (let prevETag = (case etagRes of Inl err \<Rightarrow> [] | Inr etag \<Rightarrow> etag);
            st1 = fst (on_message InProgress
                    (st\<lparr>Redis := r, Count := 0, LastProgress := progress_start clk\<rparr>))
        in case StreamItems ops prevETag (Some (on_item ops clk)) st1 of (st2, res) \<Rightarrow>
             refresh_finish ops clk res st2))"

text \<open>The lock, the body, and the deferred release of the lock.\<close>

definition refresh_task :: "'r redis_client \<Rightarrow> ('r, 'n, ('r, 'c) refresh_state) refresh_ops \<Rightarrow> task_clock
    \<Rightarrow> ('r, 'c) refresh_state \<Rightarrow> ('r, 'c) refresh_state" where
  "refresh_task rc ops clk st =
     (case AcquireRefreshLock rc (lock_now clk) (LockKey ops) (Redis st) of
        (r, Inl err) \<Rightarrow> fst (on_message Ack (st\<lparr>Redis := r\<rparr>))
      | (r, Inr lockAcquired) \<Rightarrow>
          if \<not> lockAcquired then fst (on_message Ack (st\<lparr>Redis := r\<rparr>))
          else (let st1 = refresh_body ops clk (st\<lparr>Redis := r\<rparr>)
                in st1\<lparr>Redis := ReleaseRefreshLock rc (LockKey ops) (Redis st1)\<rparr>))"

definition industry_ops :: "'r redis_client \<Rightarrow> (SystemIndexes \<Rightarrow> go_error + string)
    \<Rightarrow> ('b, ESIIndustrySystem) stream_env \<Rightarrow> (('r, 'c) refresh_state, 'b) do_request option
    \<Rightarrow> ('r, SystemIndexes, ('r, 'c) refresh_state) refresh_ops" where
  "industry_ops rc marshal env esiClient =
     \<lparr>LockKey = industry_lock_key, LoadETag = GetIndustrySystemsETag rc,
      SaveItem = (\<lambda>s. SaveIndustrySystemIndex rc marshal (SolarSystemID s) s),
      SaveETag = SaveIndustrySystemsETag rc, SaveUpdated = SaveIndustrySystemsLastUpdated rc,
      StreamItems = StreamIndustrySystems env esiClient\<rparr>"

definition price_ops :: "'r redis_client \<Rightarrow> (AdjustedPrice \<Rightarrow> go_error + string)
    \<Rightarrow> ('b, ESIAdjustedPrice) stream_env \<Rightarrow> (('r, 'c) refresh_state, 'b) do_request option
    \<Rightarrow> ('r, AdjustedPrice, ('r, 'c) refresh_state) refresh_ops" where
  "price_ops rc marshal env esiClient =
     \<lparr>LockKey = market_lock_key, LoadETag = GetMarketPricesETag rc,
      SaveItem = (\<lambda>m. SaveMarketPrice rc marshal (TypeID m) m),
      SaveETag = SaveMarketPricesETag rc, SaveUpdated = SaveMarketPricesLastUpdated rc,
      StreamItems = StreamAdjustedPrices env esiClient\<rparr>"

definition RefreshSystemIndexes :: "'r redis_client \<Rightarrow> (SystemIndexes \<Rightarrow> go_error + string)
    \<Rightarrow> ('b, ESIIndustrySystem) stream_env \<Rightarrow> (('r, 'c) refresh_state, 'b) do_request option
    \<Rightarrow> task_clock \<Rightarrow> ('r, 'c) refresh_state \<Rightarrow> ('r, 'c) refresh_state" where
  "RefreshSystemIndexes rc marshal env esiClient = refresh_task rc (industry_ops rc marshal env esiClient)"

definition RefreshAdjustedPrices :: "'r redis_client \<Rightarrow> (AdjustedPrice \<Rightarrow> go_error + string)
    \<Rightarrow> ('b, ESIAdjustedPrice) stream_env \<Rightarrow> (('r, 'c) refresh_state, 'b) do_request option
    \<Rightarrow> task_clock \<Rightarrow> ('r, 'c) refresh_state \<Rightarrow> ('r, 'c) refresh_state" where
  "RefreshAdjustedPrices rc marshal env esiClient = refresh_task rc (price_ops rc marshal env esiClient)"

text \<open>The price task from the return of its stream on.\<close>

definition prices_finish :: "'r redis_client \<Rightarrow> (AdjustedPrice \<Rightarrow> go_error + string)
    \<Rightarrow> ('b, ESIAdjustedPrice) stream_env \<Rightarrow> (('r, 'c) refresh_state, 'b) do_request option
    \<Rightarrow> task_clock \<Rightarrow> stream_result \<Rightarrow> ('r, 'c) refresh_state \<Rightarrow> ('r, 'c) refresh_state" where
  "prices_finish rc marshal env esiClient = refresh_finish (price_ops rc marshal env esiClient)"

section \<open>The message\<close>

text \<open>What may have happened to a message: any number of \<open>InProgress\<close>, then one call that settles it;
  a second settling call only after a \<open>NakWithDelay\<close> that returned an error.\<close>

definition settled_by :: "js_msg \<Rightarrow> msg_call list \<Rightarrow> bool" where
  "settled_by m cs \<longleftrightarrow> (\<exists>beats fin a. cs = Calls m @ beats @ fin \<and> set beats \<subseteq> {InProgress} \<and> settles a
     \<and> (fin = [a] \<or> (\<exists>d. fin = [NakWithDelay d, a] \<and> Answer m (Calls m @ beats) (NakWithDelay d) \<noteq> None)))"

definition in_flight :: "js_msg \<Rightarrow> ('r, 'c, 'z) task_state_scheme \<Rightarrow> bool" where
  "in_flight m st \<longleftrightarrow> (\<exists>beats. Msg st = Some (m\<lparr>Calls := Calls m @ beats\<rparr>) \<and> set beats \<subseteq> {InProgress})"

definition settled :: "js_msg \<Rightarrow> ('r, 'c, 'z) task_state_scheme \<Rightarrow> bool" where
  "settled m st \<longleftrightarrow> (\<exists>m'. Msg st = Some m' \<and> settled_by m (Calls m'))"

lemma in_flight_start: "Msg st = Some m \<Longrightarrow> in_flight m st"
  unfolding in_flight_def by (intro exI [of _ "[]"]) simp

lemma in_flight_frame [simp]:
  "in_flight m (st\<lparr>Redis := r\<rparr>) = in_flight m st"
  "in_flight m (st\<lparr>Client := c\<rparr>) = in_flight m st"
  "settled m (st\<lparr>Redis := r\<rparr>) = settled m st"
  "in_flight m (add_metrics ms st) = in_flight m st"
  "settled m (add_metrics ms st) = settled m st"
  by (simp_all add: in_flight_def settled_def add_metrics_def)

lemma in_flight_vars [simp]:
  "in_flight m (st\<lparr>Count := n\<rparr>) = in_flight m st"
  "in_flight m (st\<lparr>LastProgress := t\<rparr>) = in_flight m st"
  by (simp_all add: in_flight_def)

lemma in_flight_beat: "in_flight m st \<Longrightarrow> in_flight m (fst (on_message InProgress st))"
  unfolding in_flight_def on_message_def wrapper_call_def
  by (elim exE conjE, rule_tac x = "beats @ [InProgress]" in exI) simp

lemma settledI:
  assumes "Msg st = Some m'" and "Calls m' = Calls m @ beats @ fin" and "set beats \<subseteq> {InProgress}"
    and "settles a"
    and "fin = [a] \<or> (\<exists>d. fin = [NakWithDelay d, a] \<and> Answer m (Calls m @ beats) (NakWithDelay d) \<noteq> None)"
  shows "settled m st"
proof -
  have "settled_by m (Calls m')" unfolding settled_by_def using assms(2-5) by blast
  then show ?thesis using assms(1) by (simp add: settled_def)
qed

lemma settle_once:
  assumes "in_flight m st" and "settles a"
  shows "settled m (fst (on_message a st))"
proof -
  obtain beats where b: "Msg st = Some (m\<lparr>Calls := Calls m @ beats\<rparr>)" "set beats \<subseteq> {InProgress}"
    using assms(1) by (auto simp: in_flight_def)
  then show ?thesis using assms(2)
    by (intro settledI [of _ "m\<lparr>Calls := Calls m @ beats @ [a]\<rparr>" m beats "[a]" a])
      (simp_all add: on_message_def wrapper_call_def)
qed

lemma nack_once:
  assumes "in_flight m st" shows "settled m (nack_message st)"
proof -
  obtain beats where b: "Msg st = Some (m\<lparr>Calls := Calls m @ beats\<rparr>)" "set beats \<subseteq> {InProgress}"
    using assms by (auto simp: in_flight_def)
  let ?m = "m\<lparr>Calls := Calls m @ beats\<rparr>"
  obtain a where "Calls (NackWithBackoff wrapper_NumDelivered wrapper_call ?m) = Calls ?m @ [a]" "settles a"
    using wrapper.nack_settles_once by blast
  then show ?thesis using b
    by (intro settledI [of _ "NackWithBackoff wrapper_NumDelivered wrapper_call ?m" m beats "[a]" a])
      (simp_all add: nack_message_def)
qed

lemma delayed_nack_once:
  assumes "in_flight m st"
  shows "on_message (NakWithDelay d) st = (st1, None) \<Longrightarrow> settled m st1"
    and "on_message (NakWithDelay d) st = (st1, Some e) \<Longrightarrow> settled m (nack_message st1)"
proof -
  obtain beats where b: "Msg st = Some (m\<lparr>Calls := Calls m @ beats\<rparr>)" "set beats \<subseteq> {InProgress}"
    using assms by (auto simp: in_flight_def)
  let ?m = "m\<lparr>Calls := Calls m @ beats @ [NakWithDelay d]\<rparr>"
  have run: "on_message (NakWithDelay d) st
      = (st\<lparr>Msg := Some ?m\<rparr>, Answer m (Calls m @ beats) (NakWithDelay d))"
    using b by (simp add: on_message_def wrapper_call_def)
  show "on_message (NakWithDelay d) st = (st1, None) \<Longrightarrow> settled m st1"
    using settle_once [OF assms, of "NakWithDelay d"] by simp
  assume e: "on_message (NakWithDelay d) st = (st1, Some e)"
  then have ans: "Answer m (Calls m @ beats) (NakWithDelay d) \<noteq> None" using run by simp
  obtain a where "Calls (NackWithBackoff wrapper_NumDelivered wrapper_call ?m) = Calls ?m @ [a]" "settles a"
    using wrapper.nack_settles_once by blast
  then have "settled m (nack_message (st\<lparr>Msg := Some ?m\<rparr>))"
    using b ans
    by (intro settledI [of _ "NackWithBackoff wrapper_NumDelivered wrapper_call ?m" m beats
          "[NakWithDelay d, a]" a]) (simp_all add: nack_message_def)
  then show "settled m (nack_message st1)" using run e by simp
qed

lemma on_item_in_flight: "in_flight m st \<Longrightarrow> in_flight m (fst (on_item ops clk x st))"
  by (auto simp: on_item_def Let_def in_flight_beat split: prod.split option.split)

lemma refresh_error_settles:
  assumes "in_flight m st" shows "settled m (refresh_error clk err st)"
proof -
  have "Msg st \<noteq> None" using assms by (auto simp: in_flight_def)
  then show ?thesis
    using nack_once [OF assms] delayed_nack_once [OF assms]
    by (auto simp: refresh_error_def stream_failed_def Let_def split: option.splits prod.splits)
qed

section \<open>A family of refreshed data\<close>

text \<open>What a refresh task relies on: separate keys, the cache operations of its family, and a
  stream that touches the task's state through the client and the callback alone and has delivered
  everything when it reports new data.\<close>

locale refresh_family =
  fixes rc :: "'r redis_client"
    and ops :: "('r, 'n, ('r, 'c) refresh_state) refresh_ops"
    and codec :: "'n \<Rightarrow> go_error + string"
    and item_key :: "'n \<Rightarrow> string" and etag_key updated_key :: string
  assumes keys_distinct: "distinct [LockKey ops, etag_key, updated_key]"
    and item_key_apart: "item_key x \<notin> {LockKey ops, etag_key, updated_key}"
    and load_etag: "LoadETag ops r = redis_Get rc etag_key r"
    and save_item: "SaveItem ops x r = SaveJSON rc codec (item_key x) x 0 r"
    and save_etag: "SaveETag ops e r = (if e = [] then (r, None) else redis_Set rc etag_key e 0 r)"
    and save_updated: "SaveUpdated ops ms r = redis_Set rc updated_key (format_int ms) 0 r"
    and stream_keeps: "(\<And>x s. P s \<Longrightarrow> P (fst (f x s))) \<Longrightarrow> (\<And>c s. P s \<Longrightarrow> P (s\<lparr>Client := c\<rparr>)) \<Longrightarrow> P s
        \<Longrightarrow> P (fst (StreamItems ops e (Some f) s))"
    and stream_delivers: "StreamItems ops e (Some f) s = (s', res) \<Longrightarrow> StreamErr res = None \<Longrightarrow> \<not> NotModified res
        \<Longrightarrow> \<exists>xs c. deliver f xs (s\<lparr>Client := c\<rparr>) = Some s'"
begin

lemma finish_settles:
  assumes "in_flight m st2" shows "settled m (refresh_finish ops clk res st2)"
proof -
  have "settled m (fst (on_message Ack (add_metrics ms (st2\<lparr>Redis := r'\<rparr>))))" for ms r'
    by (rule settle_once) (use assms in simp_all)
  moreover have "settled m (fst (on_message Ack st2))" by (rule settle_once [OF assms]) simp
  moreover have "settled m (nack_message (st2\<lparr>Redis := r'\<rparr>))" for r'
    by (rule nack_once) (use assms in simp)
  ultimately show ?thesis
    unfolding refresh_finish_def
    using refresh_error_settles [OF assms] by (auto split: option.split prod.split)
qed

lemma body_settles:
  assumes "Msg st = Some m"
  shows "settled m (refresh_body ops clk st)"
proof -
  obtain r etagRes where l: "LoadETag ops (Redis st) = (r, etagRes)" by (cases "LoadETag ops (Redis st)")
  define st1 where "st1 = fst (on_message InProgress
      (st\<lparr>Redis := r, Count := 0, LastProgress := progress_start clk\<rparr>))"
  have i1: "in_flight m st1" unfolding st1_def
    using in_flight_start [OF assms] by (intro in_flight_beat) simp
  obtain st2 res where s: "StreamItems ops (case etagRes of Inl err \<Rightarrow> [] | Inr etag \<Rightarrow> etag)
      (Some (on_item ops clk)) st1 = (st2, res)"
    by (cases "StreamItems ops (case etagRes of Inl err \<Rightarrow> [] | Inr etag \<Rightarrow> etag) (Some (on_item ops clk)) st1")
  have i2: "in_flight m st2"
    using stream_keeps [of "in_flight m" "on_item ops clk" st1] on_item_in_flight i1 s
    by (metis fst_conv in_flight_frame(2))
  show ?thesis
    unfolding refresh_body_def l prod.case Let_def st1_def [symmetric] s
    by (rule finish_settles [OF i2])
qed

lemma task_settles:
  assumes "Msg st = Some m"
  shows "settled m (refresh_task rc ops clk st)"
proof -
  have "settled m (fst (on_message Ack (st\<lparr>Redis := r\<rparr>)))" for r
    by (rule settle_once) (use in_flight_start [OF assms] in simp_all)
  moreover have "settled m (refresh_body ops clk (st\<lparr>Redis := r\<rparr>))" for r
    by (rule body_settles) (use assms in simp)
  ultimately show ?thesis
    by (auto simp: refresh_task_def Let_def split: prod.split sum.split)
qed

end

section \<open>Redis\<close>

lemma message_frame [simp]:
  "Redis (fst (on_message a st)) = Redis st" "Client (fst (on_message a st)) = Client st"
  "Redis (nack_message st) = Redis st" "Client (nack_message st) = Client st"
  "Redis (add_metrics ms st) = Redis st" "Client (add_metrics ms st) = Client st"
  "Metrics (nack_message st) = Metrics st" "Metrics (fst (on_message a st)) = Metrics st"
  by (simp_all add: on_message_def nack_message_def add_metrics_def split: option.split prod.split)

lemma refresh_error_Redis [simp]: "Redis (refresh_error clk err st) = Redis st"
proof -
  have "Redis st1 = Redis st" if "on_message a st = (st1, e)" for a st1 e
    using message_frame(1) [of a st] that by simp
  then show ?thesis
    by (auto simp: refresh_error_def stream_failed_def Let_def split: option.split prod.split)
qed

lemma deliver_append:
  "deliver f (xs @ ys) s = (case deliver f xs s of None \<Rightarrow> None | Some s1 \<Rightarrow> deliver f ys s1)"
  by (induction xs arbitrary: s) (auto split: prod.split option.split)

lemma on_item_Redis:
  "Redis (fst (on_item ops clk x st)) = fst (SaveItem ops x (Redis st))"
  "snd (on_item ops clk x st) = None \<Longrightarrow> snd (SaveItem ops x (Redis st)) = None"
  by (auto simp: on_item_def Let_def split: prod.splits option.splits)

context refresh_family
begin

lemma save_item_db:
  assumes "redis_ok rc db"
  shows "db (fst (SaveItem ops x r)) = db r
      \<or> (\<exists>t. codec x = Inr t \<and> db (fst (SaveItem ops x r)) = (db r)(item_key x \<mapsto> t))"
    and "snd (SaveItem ops x r) = None \<Longrightarrow>
      \<exists>t. codec x = Inr t \<and> db (fst (SaveItem ops x r)) = (db r)(item_key x \<mapsto> t)"
proof -
  show "db (fst (SaveItem ops x r)) = db r
      \<or> (\<exists>t. codec x = Inr t \<and> db (fst (SaveItem ops x r)) = (db r)(item_key x \<mapsto> t))"
    using redis_Set_any [OF assms, of "item_key x" _ 0 r]
    by (cases "codec x") (auto simp: save_item SaveJSON_def, metis prod.collapse)
  show "snd (SaveItem ops x r) = None \<Longrightarrow>
      \<exists>t. codec x = Inr t \<and> db (fst (SaveItem ops x r)) = (db r)(item_key x \<mapsto> t)"
    using redis_Set_ok [OF assms, of "item_key x" _ 0 r]
    by (cases "codec x") (auto simp: save_item SaveJSON_def, metis prod.collapse)
qed

text \<open>The callback keeps the family's own keys.\<close>

lemma on_item_own_keys:
  assumes "redis_ok rc db" and "k \<in> {LockKey ops, etag_key, updated_key}"
  shows "db (Redis (fst (on_item ops clk x st))) k = db (Redis st) k"
  using save_item_db(1) [OF assms(1), of x "Redis st"] item_key_apart [of x] assms(2)
  by (auto simp: on_item_Redis)

lemma stream_own_keys:
  assumes "redis_ok rc db" and "k \<in> {LockKey ops, etag_key, updated_key}"
    and "StreamItems ops e (Some (on_item ops clk)) st = (st', res)"
  shows "db (Redis st') k = db (Redis st) k"
  using stream_keeps [of "\<lambda>s. db (Redis s) k = db (Redis st) k" "on_item ops clk" st e]
    on_item_own_keys [OF assms(1,2)] assms(3) by simp

text \<open>After a complete pass every item of the pass has the text of an item of its key.\<close>

lemma deliver_saved:
  assumes "redis_ok rc db" and "deliver (on_item ops clk) xs st = Some st'" and "x \<in> set xs"
  shows "\<exists>y t. y \<in> set xs \<and> item_key y = item_key x \<and> codec y = Inr t
    \<and> db (Redis st') (item_key x) = Some t"
  using assms(2,3)
proof (induction xs arbitrary: st' rule: rev_induct)
  case (snoc a xs)
  obtain s1 where s1: "deliver (on_item ops clk) xs st = Some s1" "on_item ops clk a s1 = (st', None)"
    using snoc.prems(1) by (auto simp: deliver_append split: option.splits prod.splits)
  obtain t where t: "codec a = Inr t" "db (Redis st') = (db (Redis s1))(item_key a \<mapsto> t)"
    using save_item_db(2) [OF assms(1), of a "Redis s1"] on_item_Redis [of ops clk a s1] s1(2) by auto
  show ?case
  proof (cases "item_key a = item_key x")
    case True
    then show ?thesis using t by (intro exI [of _ a] exI [of _ t]) simp
  next
    case False
    then have "x \<in> set xs" using snoc.prems(2) by auto
    then obtain y u where "y \<in> set xs" "item_key y = item_key x" "codec y = Inr u"
        "db (Redis s1) (item_key x) = Some u"
      using snoc.IH [OF s1(1)] by blast
    then show ?thesis using False t by (intro exI [of _ y] exI [of _ u]) simp
  qed
qed simp

lemma own_keys:
  "LockKey ops \<noteq> etag_key" "LockKey ops \<noteq> updated_key" "etag_key \<noteq> updated_key"
  "etag_key \<noteq> LockKey ops" "updated_key \<noteq> LockKey ops" "updated_key \<noteq> etag_key"
  using keys_distinct by auto

lemma own_keys_item:
  "item_key x \<noteq> LockKey ops" "item_key x \<noteq> etag_key" "item_key x \<noteq> updated_key"
  using item_key_apart [of x] by auto

lemma save_etag_db:
  assumes "redis_ok rc db" and "k \<noteq> etag_key" and "SaveETag ops e r = (r1, err)"
  shows "db r1 k = db r k"
  using assms(3) redis_Set_any [OF assms(1), of etag_key e 0 r r1 err] assms(2)
  by (auto simp: save_etag split: if_splits)

lemma save_updated_db:
  assumes "redis_ok rc db" and "k \<noteq> updated_key" and "SaveUpdated ops ms r = (r1, err)"
  shows "db r1 k = db r k"
  using assms(3) redis_Set_any [OF assms(1), of updated_key "format_int ms" 0 r r1 err] assms(2)
  by (auto simp: save_updated)

lemma load_etag_db:
  assumes "redis_ok rc db" and "LoadETag ops r = (r1, res)"
  shows "db r1 = db r"
  using redis_Get_same [OF assms(1)] assms(2) by (simp add: load_etag)

lemma finish_db:
  assumes "redis_ok rc db"
  shows "k \<notin> {etag_key, updated_key} \<Longrightarrow> db (Redis (refresh_finish ops clk res st)) k = db (Redis st) k"
    and "db (Redis (refresh_finish ops clk res st)) etag_key \<noteq> db (Redis st) etag_key \<Longrightarrow>
      StreamErr res = None \<and> \<not> NotModified res
      \<and> db (Redis (refresh_finish ops clk res st)) etag_key = Some (NewETag res)"
    and "StreamErr res = None \<Longrightarrow> NotModified res \<Longrightarrow> Redis (refresh_finish ops clk res st) = Redis st"
proof -
  obtain r3 e3 where r3: "SaveETag ops (NewETag res) (Redis st) = (r3, e3)"
    by (cases "SaveETag ops (NewETag res) (Redis st)")
  obtain r4 e4 where r4: "SaveUpdated ops (unix_milli (updated_now clk)) r3 = (r4, e4)"
    by (cases "SaveUpdated ops (unix_milli (updated_now clk)) r3")
  have R: "Redis (refresh_finish ops clk res st) =
      (if StreamErr res = None \<and> \<not> NotModified res then (if e3 = None then r4 else r3) else Redis st)"
    by (simp add: refresh_finish_def r3 r4 split: option.split)
  show "k \<notin> {etag_key, updated_key} \<Longrightarrow> db (Redis (refresh_finish ops clk res st)) k = db (Redis st) k"
    using save_etag_db [OF assms _ r3, of k] save_updated_db [OF assms _ r4, of k] by (simp add: R)
  have "db r3 etag_key = db (Redis st) etag_key \<or> db r3 etag_key = Some (NewETag res)"
    using r3 redis_Set_any [OF assms, of etag_key "NewETag res" 0 "Redis st" r3 e3]
    by (auto simp: save_etag split: if_splits)
  then show "db (Redis (refresh_finish ops clk res st)) etag_key \<noteq> db (Redis st) etag_key \<Longrightarrow>
      StreamErr res = None \<and> \<not> NotModified res
      \<and> db (Redis (refresh_finish ops clk res st)) etag_key = Some (NewETag res)"
    using save_updated_db [OF assms own_keys(3) r4] by (auto simp: R split: if_splits)
  show "StreamErr res = None \<Longrightarrow> NotModified res \<Longrightarrow> Redis (refresh_finish ops clk res st) = Redis st"
    by (simp add: R)
qed

text \<open>The stream of a body: it starts from the store that the reading of the ETag left, and the
  body is what \<open>refresh_finish\<close> makes of its result.\<close>

lemma body_run:
  assumes "redis_ok rc db"
  obtains e st1 st2 res where "StreamItems ops e (Some (on_item ops clk)) st1 = (st2, res)"
    and "refresh_body ops clk st = refresh_finish ops clk res st2"
    and "db (Redis st1) = db (Redis st)" and "Client st1 = Client st" and "Metrics st1 = Metrics st"
    and "Msg st1 = Msg (fst (on_message InProgress st))"
    and "e = (case snd (LoadETag ops (Redis st)) of Inl err \<Rightarrow> [] | Inr etag \<Rightarrow> etag)"
proof -
  obtain r etagRes where l: "LoadETag ops (Redis st) = (r, etagRes)" by (cases "LoadETag ops (Redis st)")
  let ?e = "case etagRes of Inl err \<Rightarrow> [] | Inr etag \<Rightarrow> etag"
  let ?st1 = "fst (on_message InProgress (st\<lparr>Redis := r, Count := 0, LastProgress := progress_start clk\<rparr>))"
  obtain st2 res where s: "StreamItems ops ?e (Some (on_item ops clk)) ?st1 = (st2, res)"
    by (cases "StreamItems ops ?e (Some (on_item ops clk)) ?st1")
  have "refresh_body ops clk st = refresh_finish ops clk res st2"
    by (simp add: refresh_body_def l s)
  moreover have "Msg ?st1 = Msg (fst (on_message InProgress st))"
    by (simp add: on_message_def split: option.split prod.split)
  ultimately show ?thesis using that s l load_etag_db [OF assms l] by simp
qed

text \<open>The body never touches the lock.\<close>

lemma body_lock:
  assumes "redis_ok rc db"
  shows "db (Redis (refresh_body ops clk st)) (LockKey ops) = db (Redis st) (LockKey ops)"
  using assms
proof (rule body_run [where clk = clk and st = st])
  fix e st1 st2 res
  assume a: "StreamItems ops e (Some (on_item ops clk)) st1 = (st2, res)"
    "refresh_body ops clk st = refresh_finish ops clk res st2" "db (Redis st1) = db (Redis st)"
  then show ?thesis
    using stream_own_keys [OF assms, of "LockKey ops" e clk st1 st2 res] own_keys
      finish_db(1) [OF assms, of "LockKey ops" clk res st2] by simp
qed

lemma task_cases:
  obtains (skipped) r res where "AcquireRefreshLock rc (lock_now clk) (LockKey ops) (Redis st) = (r, res)"
      "res \<noteq> Inr True" "refresh_task rc ops clk st = fst (on_message Ack (st\<lparr>Redis := r\<rparr>))"
  | (ran) r where "AcquireRefreshLock rc (lock_now clk) (LockKey ops) (Redis st) = (r, Inr True)"
      "refresh_task rc ops clk st =
        (refresh_body ops clk (st\<lparr>Redis := r\<rparr>))\<lparr>Redis := ReleaseRefreshLock rc (LockKey ops)
           (Redis (refresh_body ops clk (st\<lparr>Redis := r\<rparr>)))\<rparr>"
proof -
  obtain r res where a: "AcquireRefreshLock rc (lock_now clk) (LockKey ops) (Redis st) = (r, res)"
    by (cases "AcquireRefreshLock rc (lock_now clk) (LockKey ops) (Redis st)")
  show ?thesis
  proof (cases "res = Inr True")
    case True
    then show ?thesis using ran a by (simp add: refresh_task_def Let_def)
  next
    case False
    then have "refresh_task rc ops clk st = fst (on_message Ack (st\<lparr>Redis := r\<rparr>))"
      using a by (auto simp: refresh_task_def split: sum.split)
    then show ?thesis using skipped a False by blast
  qed
qed

lemma lock_db:
  assumes "redis_ok rc db"
  shows "AcquireRefreshLock rc now key r = (r1, res) \<Longrightarrow> k \<noteq> key \<Longrightarrow> db r1 k = db r k"
    and "k \<noteq> key \<Longrightarrow> db (ReleaseRefreshLock rc key r) k = db r k"
proof -
  show "AcquireRefreshLock rc now key r = (r1, res) \<Longrightarrow> k \<noteq> key \<Longrightarrow> db r1 k = db r k"
    by (erule AcquireRefreshLock_cases [OF assms]) simp_all
  show "k \<noteq> key \<Longrightarrow> db (ReleaseRefreshLock rc key r) k = db r k"
    using redis_Del_any [OF assms, of key r] unfolding ReleaseRefreshLock_def
    by (cases "redis_Del rc key r") auto
qed

text \<open>A changed ETag comes from a complete pass, whose items are all in the final store.\<close>

lemma task_etag:
  assumes ok: "redis_ok rc db"
    and changed: "db (Redis (refresh_task rc ops clk st)) etag_key \<noteq> db (Redis st) etag_key"
  shows "\<exists>e st1 st2 res. StreamItems ops e (Some (on_item ops clk)) st1 = (st2, res)
    \<and> StreamErr res = None \<and> \<not> NotModified res
    \<and> db (Redis (refresh_task rc ops clk st)) etag_key = Some (NewETag res)
    \<and> (\<forall>x. db (Redis (refresh_task rc ops clk st)) (item_key x) = db (Redis st2) (item_key x))"
proof (cases rule: task_cases [of clk st])
  case (skipped r res)
  then show ?thesis using changed lock_db(1) [OF ok skipped(1)] own_keys by simp
next
  case (ran r)
  let ?b = "refresh_body ops clk (st\<lparr>Redis := r\<rparr>)"
  have fin: "db (Redis (refresh_task rc ops clk st)) k = db (Redis ?b) k" if "k \<noteq> LockKey ops" for k
    using ran(2) lock_db(2) [OF ok that] by simp
  show ?thesis
    using ok
  proof (rule body_run [where clk = clk and st = "st\<lparr>Redis := r\<rparr>"])
    fix e st1 st2 res
    assume s: "StreamItems ops e (Some (on_item ops clk)) st1 = (st2, res)"
      "?b = refresh_finish ops clk res st2" "db (Redis st1) = db (Redis (st\<lparr>Redis := r\<rparr>))"
    have "db (Redis st2) etag_key = db (Redis st) etag_key"
      using stream_own_keys [OF ok, of etag_key e clk st1 st2 res] s lock_db(1) [OF ok ran(1)] own_keys by simp
    moreover have "db (Redis (refresh_task rc ops clk st)) etag_key = db (Redis ?b) etag_key"
      using fin own_keys by simp
    ultimately have "StreamErr res = None \<and> \<not> NotModified res
        \<and> db (Redis ?b) etag_key = Some (NewETag res)"
      using finish_db(2) [OF ok, of clk res st2] changed s(2) by simp
    moreover have "db (Redis (refresh_task rc ops clk st)) (item_key x) = db (Redis st2) (item_key x)" for x
      using fin own_keys_item [of x] finish_db(1) [OF ok, of "item_key x" clk res st2] s(2) by simp
    ultimately show ?thesis using s(1) fin own_keys by metis
  qed
qed

text \<open>The lock after a run: as the release leaves it.\<close>

lemma task_lock:
  assumes ok: "redis_ok rc db"
  shows "db (Redis st) (LockKey ops) \<noteq> None \<Longrightarrow>
      db (Redis (refresh_task rc ops clk st)) (LockKey ops) = db (Redis st) (LockKey ops)
      \<and> (\<exists>r. refresh_task rc ops clk st = fst (on_message Ack (st\<lparr>Redis := r\<rparr>)) \<and> db r = db (Redis st))"
    and "AcquireRefreshLock rc (lock_now clk) (LockKey ops) (Redis st) = (r, Inr True) \<Longrightarrow>
      (\<And>s. snd (redis_Del rc (LockKey ops) s) = None) \<Longrightarrow>
      db (Redis (refresh_task rc ops clk st)) (LockKey ops) = None"
    and "AcquireRefreshLock rc (lock_now clk) (LockKey ops) (Redis st) = (r, Inr True) \<Longrightarrow>
      (\<And>s. db (fst (redis_Del rc (LockKey ops) s)) = db s) \<Longrightarrow>
      db (Redis (refresh_task rc ops clk st)) (LockKey ops) \<noteq> None"
proof -
  assume held: "db (Redis st) (LockKey ops) \<noteq> None"
  show "db (Redis (refresh_task rc ops clk st)) (LockKey ops) = db (Redis st) (LockKey ops)
      \<and> (\<exists>r. refresh_task rc ops clk st = fst (on_message Ack (st\<lparr>Redis := r\<rparr>)) \<and> db r = db (Redis st))"
  proof (cases rule: task_cases [of clk st])
    case (skipped r res)
    have "db r = db (Redis st)"
      by (rule AcquireRefreshLock_cases [OF ok skipped(1)]) (use held skipped(2) in simp_all)
    then show ?thesis using skipped(3) by auto
  next
    case (ran r)
    show ?thesis by (rule AcquireRefreshLock_cases [OF ok ran(1)]) (use held in simp_all)
  qed
next
  assume a: "AcquireRefreshLock rc (lock_now clk) (LockKey ops) (Redis st) = (r, Inr True)"
  then have t: "Redis (refresh_task rc ops clk st) = fst (redis_Del rc (LockKey ops)
      (Redis (refresh_body ops clk (st\<lparr>Redis := r\<rparr>))))"
    by (simp add: refresh_task_def ReleaseRefreshLock_def Let_def)
  show "(\<And>s. snd (redis_Del rc (LockKey ops) s) = None) \<Longrightarrow>
      db (Redis (refresh_task rc ops clk st)) (LockKey ops) = None"
    using redis_Del_ok [OF ok, of "LockKey ops"] t by (metis fun_upd_same prod.collapse)
  have "db r (LockKey ops) \<noteq> None" by (rule AcquireRefreshLock_cases [OF ok a]) simp_all
  then show "(\<And>s. db (fst (redis_Del rc (LockKey ops) s)) = db s) \<Longrightarrow>
      db (Redis (refresh_task rc ops clk st)) (LockKey ops) \<noteq> None"
    using t body_lock [OF ok, of clk "st\<lparr>Redis := r\<rparr>"] by simp
qed

text \<open>A run that reports a failure to save the time stamp has saved the ETag of a complete pass.\<close>

lemma on_item_Metrics: "Metrics (fst (on_item ops clk x s)) = Metrics s"
  by (auto simp: on_item_def Let_def split: prod.split option.split)

lemma refresh_error_Metrics:
  "Metrics (refresh_error clk err s) \<in> {Metrics s, Metrics s @ [MErrors ''stream'']}"
proof -
  have "Metrics s1 = Metrics s" if "on_message a s = (s1, e)" for a s1 e
    using message_frame(8) [of a s] that by simp
  then show ?thesis
    by (auto simp: refresh_error_def stream_failed_def add_metrics_def Let_def nack_message_def
        split: option.split prod.split)
qed

lemma finish_timestamp:
  assumes ok: "redis_ok rc db"
    and "Metrics (refresh_finish ops clk res s) = Metrics s @ ms" and "MErrors ''last_updated_save'' \<in> set ms"
  shows "StreamErr res = None \<and> \<not> NotModified res
    \<and> (NewETag res \<noteq> [] \<longrightarrow> db (Redis (refresh_finish ops clk res s)) etag_key = Some (NewETag res))"
proof -
  obtain r3 e3 where r3: "SaveETag ops (NewETag res) (Redis s) = (r3, e3)"
    by (cases "SaveETag ops (NewETag res) (Redis s)")
  obtain r4 e4 where r4: "SaveUpdated ops (unix_milli (updated_now clk)) r3 = (r4, e4)"
    by (cases "SaveUpdated ops (unix_milli (updated_now clk)) r3")
  have n: "MErrors a \<notin> set (next_refresh clk res)" for a
    by (simp add: next_refresh_def split: option.split)
  have "StreamErr res = None \<and> \<not> NotModified res \<and> e3 = None"
  proof (cases "StreamErr res")
    case (Some err)
    then show ?thesis using assms(2,3) refresh_error_Metrics [of clk err s]
      by (auto simp: refresh_finish_def)
  next
    case None
    then show ?thesis using assms(2,3) n
      by (auto simp: refresh_finish_def r3 r4 add_metrics_def split: if_splits option.splits)
  qed
  then have "Redis (refresh_finish ops clk res s) = r4" and "e3 = None" and
    st: "StreamErr res = None \<and> \<not> NotModified res"
    by (simp_all add: refresh_finish_def r3 r4 split: option.split)
  moreover have "NewETag res \<noteq> [] \<longrightarrow> db r3 etag_key = Some (NewETag res)"
    using r3 redis_Set_ok [OF ok, of etag_key "NewETag res" 0 "Redis s" r3] calculation(2)
    by (simp add: save_etag split: if_splits)
  ultimately show ?thesis using save_updated_db [OF ok own_keys(3) r4] by simp
qed

lemma task_timestamp:
  assumes ok: "redis_ok rc db"
    and ms: "Metrics (refresh_task rc ops clk st) = Metrics st @ ms" "MErrors ''last_updated_save'' \<in> set ms"
  shows "\<exists>e st1 st2 res. StreamItems ops e (Some (on_item ops clk)) st1 = (st2, res)
    \<and> StreamErr res = None \<and> \<not> NotModified res
    \<and> (NewETag res \<noteq> [] \<longrightarrow> db (Redis (refresh_task rc ops clk st)) etag_key = Some (NewETag res))"
proof (cases rule: task_cases [of clk st])
  case (skipped r res)
  then show ?thesis using ms by simp
next
  case (ran r)
  show ?thesis
    using ok
  proof (rule body_run [where clk = clk and st = "st\<lparr>Redis := r\<rparr>"])
    fix e st1 st2 res
    assume s: "StreamItems ops e (Some (on_item ops clk)) st1 = (st2, res)"
      "refresh_body ops clk (st\<lparr>Redis := r\<rparr>) = refresh_finish ops clk res st2"
      "Metrics st1 = Metrics (st\<lparr>Redis := r\<rparr>)"
    have "Metrics st2 = Metrics st"
      using stream_keeps [of "\<lambda>s. Metrics s = Metrics st" "on_item ops clk" st1 e] on_item_Metrics s by simp
    then have m: "Metrics (refresh_finish ops clk res st2) = Metrics st2 @ ms" using ms(1) ran(2) s(2) by simp
    have "db (Redis (refresh_task rc ops clk st)) etag_key = db (Redis (refresh_finish ops clk res st2)) etag_key"
      using ran(2) s(2) lock_db(2) [OF ok own_keys(4)] by simp
    then show ?thesis using finish_timestamp [OF ok m ms(2)] s(1) by auto
  qed
qed

end

section \<open>The two families\<close>

lemma client_call_client: "\<exists>c. fst (client_call envs k m p h st) = st\<lparr>Client := c\<rparr>"
  by (auto simp: client_call_def split: prod.split sum.split)

lemma stream_list_keeps:
  assumes "\<And>x s. P s \<Longrightarrow> P (fst (f x s))" and "\<And>c s. P s \<Longrightarrow> P (s\<lparr>Client := c\<rparr>)" and "P s"
  shows "P (fst (stream_list env path norm (Some (client_call envs)) e (Some f) s))"
  by (rule stream_list_inv) (use assms client_call_client in \<open>metis\<close>)+

lemma stream_list_delivers:
  assumes "stream_list env path norm (Some (client_call envs)) e (Some f) s = (s', res)"
    and "StreamErr res = None" and "\<not> NotModified res"
  shows "\<exists>xs c. deliver f xs (s\<lparr>Client := c\<rparr>) = Some s'"
proof -
  obtain s1 w resp xs where l: "request_loop (client_call envs) (jitter env) path (stream_headers e)
      maxAttempts 1 [] s = (s1, w, Inr (Some resp))" "deliver f xs s1 = Some s'"
    using stream_list_complete [OF assms] by blast
  have "\<exists>c. fst (request_loop (client_call envs) (jitter env) path (stream_headers e) maxAttempts 1 [] s)
      = s\<lparr>Client := c\<rparr>"
  proof (rule request_loop_inv)
    fix k m p h t assume "\<exists>c. t = s\<lparr>Client := c\<rparr>"
    then obtain c where t: "t = s\<lparr>Client := c\<rparr>" by blast
    obtain c' where "fst (client_call envs k m p h t) = t\<lparr>Client := c'\<rparr>" using client_call_client by blast
    then show "\<exists>c. fst (client_call envs k m p h t) = s\<lparr>Client := c\<rparr>"
      using t by (intro exI [of _ c']) simp
  qed (rule exI [of _ "Client s"], simp)
  then show ?thesis using l by auto
qed

interpretation industry_task: refresh_family rc "industry_ops rc marshal env (Some (client_call envs))"
  marshal "\<lambda>s. industry_index_key (SolarSystemID s)" industry_etag_key industry_updated_key
  for rc :: "'r redis_client" and marshal and env :: "('b, ESIIndustrySystem) stream_env"
    and envs :: "nat \<Rightarrow> ('l, 'b) call_env"
proof
  fix P :: "('r, 'l ESIClient) refresh_state \<Rightarrow> bool" and e s
    and f :: "SystemIndexes \<Rightarrow> ('r, 'l ESIClient) refresh_state \<Rightarrow> ('r, 'l ESIClient) refresh_state \<times> go_error option"
  assume "\<And>x s. P s \<Longrightarrow> P (fst (f x s))" "\<And>c s. P s \<Longrightarrow> P (s\<lparr>Client := c\<rparr>)" "P s"
  then show "P (fst (StreamItems (industry_ops rc marshal env (Some (client_call envs))) e (Some f) s))"
    unfolding industry_ops_def StreamIndustrySystems_def refresh_ops.simps by (rule stream_list_keeps)
next
  fix e s s' res
    and f :: "SystemIndexes \<Rightarrow> ('r, 'l ESIClient) refresh_state \<Rightarrow> ('r, 'l ESIClient) refresh_state \<times> go_error option"
  assume "StreamItems (industry_ops rc marshal env (Some (client_call envs))) e (Some f) s = (s', res)"
    "StreamErr res = None" "\<not> NotModified res"
  then show "\<exists>xs c. deliver f xs (s\<lparr>Client := c\<rparr>) = Some s'"
    unfolding industry_ops_def StreamIndustrySystems_def refresh_ops.simps by (rule stream_list_delivers)
qed (use industry.own_distinct industry.item_key_own in
    \<open>auto simp: industry_ops_def GetIndustrySystemsETag_def GetString_def SaveIndustrySystemIndex_def
       SaveIndustrySystemsETag_def SaveIndustrySystemsLastUpdated_def SetString_def\<close>)

interpretation price_task: refresh_family rc "price_ops rc marshal env (Some (client_call envs))"
  marshal "\<lambda>m. market_price_key (TypeID m)" market_etag_key market_updated_key
  for rc :: "'r redis_client" and marshal and env :: "('b, ESIAdjustedPrice) stream_env"
    and envs :: "nat \<Rightarrow> ('l, 'b) call_env"
proof
  fix P :: "('r, 'l ESIClient) refresh_state \<Rightarrow> bool" and e s
    and f :: "AdjustedPrice \<Rightarrow> ('r, 'l ESIClient) refresh_state \<Rightarrow> ('r, 'l ESIClient) refresh_state \<times> go_error option"
  assume "\<And>x s. P s \<Longrightarrow> P (fst (f x s))" "\<And>c s. P s \<Longrightarrow> P (s\<lparr>Client := c\<rparr>)" "P s"
  then show "P (fst (StreamItems (price_ops rc marshal env (Some (client_call envs))) e (Some f) s))"
    unfolding price_ops_def StreamAdjustedPrices_def refresh_ops.simps by (rule stream_list_keeps)
next
  fix e s s' res
    and f :: "AdjustedPrice \<Rightarrow> ('r, 'l ESIClient) refresh_state \<Rightarrow> ('r, 'l ESIClient) refresh_state \<times> go_error option"
  assume "StreamItems (price_ops rc marshal env (Some (client_call envs))) e (Some f) s = (s', res)"
    "StreamErr res = None" "\<not> NotModified res"
  then show "\<exists>xs c. deliver f xs (s\<lparr>Client := c\<rparr>) = Some s'"
    unfolding price_ops_def StreamAdjustedPrices_def refresh_ops.simps by (rule stream_list_delivers)
qed (use market.own_distinct market.item_key_own in
    \<open>auto simp: price_ops_def GetMarketPricesETag_def GetString_def SaveMarketPrice_def
       SaveMarketPricesETag_def SaveMarketPricesLastUpdated_def SetString_def\<close>)

section \<open>Properties\<close>

text \<open>C9: every delivery of a refresh message is settled exactly once, on every path (lock taken,
  lock error, rate limit, stream error, not modified, failed saves, success) and for both tasks: after
  any number of \<open>InProgress\<close> there is one \<open>Ack\<close>, \<open>Term\<close> or \<open>NakWithDelay\<close>, and a second such
  call only when a \<open>NakWithDelay\<close> returned an error.\<close>

theorem refresh_settles_once:
  assumes "Msg st = Some m"
  shows "settled m (RefreshSystemIndexes rc marshal1 env1 (Some (client_call envs)) clk st)
    \<and> settled m (RefreshAdjustedPrices rc marshal2 env2 (Some (client_call envs)) clk st)"
  unfolding RefreshSystemIndexes_def RefreshAdjustedPrices_def
  using industry_task.task_settles [OF assms] price_task.task_settles [OF assms] by blast

lemma etag_change_complete:
  fixes env :: "('b, ESIIndustrySystem) stream_env"
  assumes ok: "redis_ok rc db"
    and st': "st' = RefreshSystemIndexes rc marshal env (Some (client_call envs)) clk st"
    and changed: "db (Redis st') industry_etag_key \<noteq> db (Redis st) industry_etag_key"
  shows "\<exists>(resp :: 'b http_response) body items.
    StatusCode resp = status_ok
    \<and> db (Redis st') industry_etag_key = Some (header_get (Header resp) ''ETag'')
    \<and> map fst (elements (json_of env body)) = map Inr items
    \<and> (\<forall>x\<in>set items. \<exists>y\<in>set items. SystemID y = SystemID x \<and>
        (\<exists>t. marshal (normalize_system (unix_milli (stream_now env)) y) = Inr t
             \<and> db (Redis st') (industry_index_key (SystemID x)) = Some t))"
proof -
  let ?ops = "industry_ops rc marshal env (Some (client_call envs))"
  let ?norm = "normalize_system (unix_milli (stream_now env))"
  have sid: "SolarSystemID (?norm x) = SystemID x" for x by (simp add: normalize_system_id)
  obtain e st1 st2 res where s: "StreamItems ?ops e (Some (on_item ?ops clk)) st1 = (st2, res)"
      "StreamErr res = None" "\<not> NotModified res"
      "db (Redis st') industry_etag_key = Some (NewETag res)"
      "\<And>x :: SystemIndexes. db (Redis st') (industry_index_key (SolarSystemID x)) = db (Redis st2) (industry_index_key (SolarSystemID x))"
    using industry_task.task_etag [OF ok changed [unfolded st' RefreshSystemIndexes_def]]
    unfolding st' RefreshSystemIndexes_def by blast
  have run: "stream_list env ''/v1/industry/systems/'' normalize_system (Some (client_call envs)) e
      (Some (on_item ?ops clk)) st1 = (st2, res)"
    using s(1) by (simp add: industry_ops_def StreamIndustrySystems_def)
  obtain s1 w resp body items where l: "StatusCode (resp :: 'b http_response) = status_ok"
      "map fst (elements (json_of env body)) = map Inr items"
      "deliver (on_item ?ops clk) (map ?norm items) s1 = Some st2"
      "NewETag res = header_get (Header resp) ''ETag''"
    using stream_list_complete [OF run s(2,3)] by blast
  have "\<exists>y\<in>set items. SystemID y = SystemID x \<and> (\<exists>t. marshal (?norm y) = Inr t
      \<and> db (Redis st') (industry_index_key (SystemID x)) = Some t)" if "x \<in> set items" for x
    using industry_task.deliver_saved [OF ok l(3), of "?norm x"] that s(5) [of "?norm x"]
    by (auto simp: sid industry.item_key_inj)
  then show ?thesis using l s(4) by (intro exI [of _ resp] exI [of _ body] exI [of _ items]) simp
qed

text \<open>C10: the stored ETag stands for stored data. A run of the system-index refresh that changes the
  ETag in Redis has received a 200 response with that ETag, and every system of the response's array is
  in the final store under its key, as the JSON of an item of that array with the same identity.\<close>

theorem etag_means_complete:
  fixes env :: "('b, ESIIndustrySystem) stream_env"
  assumes ok: "redis_ok rc db"
    and st': "st' = RefreshSystemIndexes rc marshal env (Some (client_call envs)) clk st"
    and changed: "db (Redis st') industry_etag_key \<noteq> db (Redis st) industry_etag_key"
  shows "\<exists>(resp :: 'b http_response) body items.
    StatusCode resp = status_ok
    \<and> db (Redis st') industry_etag_key = Some (header_get (Header resp) ''ETag'')
    \<and> map fst (elements (json_of env body)) = map Inr items
    \<and> (\<forall>x\<in>set items. \<exists>y\<in>set items. SystemID y = SystemID x \<and>
        (\<exists>t. marshal (normalize_system (unix_milli (stream_now env)) y) = Inr t
             \<and> db (Redis st') (industry_index_key (SystemID x)) = Some t))"
  using assms by (rule etag_change_complete)

lemma industry_lock [simp]: "LockKey (industry_ops rc marshal env c) = industry_lock_key"
  by (simp add: industry_ops_def)

lemma price_lock [simp]: "LockKey (price_ops rc marshal env c) = market_lock_key"
  by (simp add: price_ops_def)

text \<open>A price run after it got the lock: the stream starts from the store as it was, and \<open>prices_finish\<close> ends the run.\<close>

lemma prices_run:
  assumes "redis_ok rc db"
  obtains e st1 st2 res where
    "StreamAdjustedPrices env (Some (client_call envs)) e
       (Some (on_item (price_ops rc marshal env (Some (client_call envs))) clk)) st1 = (st2, res)"
    and "refresh_body (price_ops rc marshal env (Some (client_call envs))) clk st
       = prices_finish rc marshal env (Some (client_call envs)) clk res st2"
    and "db (Redis st1) = db (Redis st)"
proof (rule price_task.body_run [OF assms])
  let ?ops = "price_ops rc marshal env (Some (client_call envs))"
  fix e st1 st2 res
  assume "StreamItems ?ops e (Some (on_item ?ops clk)) st1 = (st2, res)"
    and "refresh_body ?ops clk st = refresh_finish ?ops clk res st2" and "db (Redis st1) = db (Redis st)"
  moreover have "StreamItems ?ops = StreamAdjustedPrices env (Some (client_call envs))" by (simp add: price_ops_def)
  ultimately show thesis using that unfolding prices_finish_def by simp
qed

text \<open>C11: the refresh lock is given back. A run of either task that acquired the lock leaves the lock
  key free on every path, when Redis executes the deferred \<open>Del\<close>.\<close>

theorem refresh_lock_released:
  assumes ok: "redis_ok rc db"
    and del: "\<And>k s. snd (redis_Del rc k s) = None"
  shows "(\<forall>r. AcquireRefreshLock rc (lock_now clk) industry_lock_key (Redis st) = (r, Inr True) \<longrightarrow>
        db (Redis (RefreshSystemIndexes rc marshal1 env1 (Some (client_call envs)) clk st)) industry_lock_key = None)
    \<and> (\<forall>r. AcquireRefreshLock rc (lock_now clk) market_lock_key (Redis st) = (r, Inr True) \<longrightarrow>
        db (Redis (RefreshAdjustedPrices rc marshal2 env2 (Some (client_call envs)) clk st)) market_lock_key = None)"
proof -
  have "db (Redis (RefreshSystemIndexes rc marshal1 env1 (Some (client_call envs)) clk st)) industry_lock_key = None"
    if "AcquireRefreshLock rc (lock_now clk) industry_lock_key (Redis st) = (r, Inr True)" for r
    using industry_task.task_lock(2) [where clk = clk and st = st and r = r and marshal = marshal1
        and env = env1 and envs = envs, OF ok] that del
    by (simp add: RefreshSystemIndexes_def)
  moreover have "db (Redis (RefreshAdjustedPrices rc marshal2 env2 (Some (client_call envs)) clk st)) market_lock_key = None"
    if "AcquireRefreshLock rc (lock_now clk) market_lock_key (Redis st) = (r, Inr True)" for r
    using price_task.task_lock(2) [where clk = clk and st = st and r = r and marshal = marshal2
        and env = env2 and envs = envs, OF ok] that del
    by (simp add: RefreshAdjustedPrices_def)
  ultimately show ?thesis by blast
qed

text \<open>C12: a lock that is not released swallows the redelivery. When the deferred \<open>Del\<close> of a run does not
  reach Redis (its context, which it shares with the run, has expired after 15 seconds), the next
  delivery of the message before the lock's 300 seconds are over is acknowledged without a request and
  without touching the data, whatever the first run had left undone.\<close>

theorem unreleased_lock_swallows_redelivery:
  assumes ok: "redis_ok rc db"
    and acquired: "AcquireRefreshLock rc (lock_now clk1) industry_lock_key (Redis st) = (r, Inr True)"
    and stuck: "\<And>s. db (fst (redis_Del rc industry_lock_key s)) = db s"
    and st1: "st1 = RefreshSystemIndexes rc marshal env (Some (client_call envs1)) clk1 st"
    and st2: "st2 = RefreshSystemIndexes rc marshal env (Some (client_call envs2)) clk2 (st1\<lparr>Msg := Some m\<rparr>)"
  shows "Msg st2 = Some (m\<lparr>Calls := Calls m @ [Ack]\<rparr>) \<and> Client st2 = Client st1
    \<and> db (Redis st2) = db (Redis st1) \<and> Metrics st2 = Metrics st1"
proof -
  have held: "db (Redis st1) industry_lock_key \<noteq> None"
    using industry_task.task_lock(3) [where clk = clk1 and st = st and r = r and marshal = marshal
        and env = env and envs = envs1, OF ok] acquired stuck
    by (simp add: st1 RefreshSystemIndexes_def)
  then obtain r' where r': "st2 = fst (on_message Ack (st1\<lparr>Msg := Some m, Redis := r'\<rparr>))"
      "db r' = db (Redis st1)"
    using industry_task.task_lock(1) [where clk = clk2 and st = "st1\<lparr>Msg := Some m\<rparr>" and marshal = marshal
        and env = env and envs = envs2, OF ok]
    by (auto simp: st2 RefreshSystemIndexes_def)
  then show ?thesis by (simp add: on_message_def wrapper_call_def)
qed

text \<open>A rate-limited task comes back when it may. When the first request of a run ends in a retryable
  rate-limit error whose \<open>RetryAfter\<close> is still ahead, the message gets one \<open>InProgress\<close> and then a
  \<open>NakWithDelay\<close> whose delay ends exactly at \<open>RetryAfter\<close>.\<close>

theorem rate_limited_redelivery:
  assumes msg: "Msg st = Some m"
    and acquired: "AcquireRefreshLock rc (lock_now clk) industry_lock_key (Redis st) = (r, Inr True)"
    and etag: "GetIndustrySystemsETag rc r = (r1, Inr etag)"
    and limited: "snd (DoRequest (envs 1) (Client st) ''GET'' ''/v1/industry/systems/'' (stream_headers etag)) = Inl err"
    and rl: "GetRateLimitError (Some err) = Some rl" "Retryable rl"
    and ahead: "wait_now clk < RetryAfter rl" "RetryAfter rl - wait_now clk < 2 ^ 63"
    and nak: "\<And>cs a. Answer m cs a = None"
  shows "Msg (RefreshSystemIndexes rc marshal env (Some (client_call envs)) clk st) =
    Some (m\<lparr>Calls := Calls m @ [InProgress, NakWithDelay (RetryAfter rl - wait_now clk)]\<rparr>)"
proof -
  let ?ops = "industry_ops rc marshal env (Some (client_call envs))"
  have lim: "IsRateLimitError (Some err)" "IsRetryableRateLimitError (Some err)"
    using rl by (auto simp: IsRateLimitError_iff IsRetryable_iff)
  have w: "time_sub (RetryAfter rl) (wait_now clk) = RetryAfter rl - wait_now clk"
    using ahead by (simp add: time_sub_def)
  have run: "StreamItems ?ops etag f s = (s\<lparr>Client := fst (DoRequest (envs 1) (Client s) ''GET''
        ''/v1/industry/systems/'' (stream_headers etag))\<rparr>, failed_stream err)"
    if cs: "Client s = Client st" and f: "f = Some g" for s f g
  proof -
    obtain c where c: "DoRequest (envs 1) (Client s) ''GET'' ''/v1/industry/systems/'' (stream_headers etag) = (c, Inl err)"
      using limited unfolding cs [symmetric]
      by (cases "DoRequest (envs 1) (Client s) ''GET'' ''/v1/industry/systems/'' (stream_headers etag)") simp
    then show ?thesis using lim(1) f
      by (simp add: industry_ops_def StreamIndustrySystems_def stream_list_def maxAttempts_def
          numeral_eq_Suc client_call_def)
  qed
  have l: "LoadETag ?ops r = (r1, Inr etag)" using etag by (simp add: industry_ops_def)
  let ?st0 = "st\<lparr>Redis := r\<rparr>"
  let ?m1 = "m\<lparr>Calls := Calls m @ [InProgress]\<rparr>"
  let ?st1 = "?st0\<lparr>Redis := r1, Count := 0, LastProgress := progress_start clk, Msg := Some ?m1\<rparr>"
  have beat: "on_message InProgress (?st0\<lparr>Redis := r1, Count := 0, LastProgress := progress_start clk\<rparr>)
      = (?st1, None)"
    using msg nak by (simp add: on_message_def wrapper_call_def)
  obtain c where s: "StreamItems ?ops etag (Some (on_item ?ops clk)) ?st1 = (?st1\<lparr>Client := c\<rparr>, failed_stream err)"
    using run [of ?st1 "Some (on_item ?ops clk)"] by auto
  have body: "refresh_body ?ops clk ?st0 = refresh_finish ?ops clk (failed_stream err) (?st1\<lparr>Client := c\<rparr>)"
    unfolding refresh_body_def using l beat s by simp
  have "Msg (refresh_finish ?ops clk (failed_stream err) (?st1\<lparr>Client := c\<rparr>)) =
      Some (m\<lparr>Calls := Calls m @ [InProgress, NakWithDelay (RetryAfter rl - wait_now clk)]\<rparr>)"
    using rl(1) lim(2) w ahead nak
    by (simp add: refresh_finish_def failed_stream_def refresh_error_def on_message_def wrapper_call_def)
  then show ?thesis
    unfolding RefreshSystemIndexes_def refresh_task_def industry_lock using acquired body by (simp add: Let_def)
qed

text \<open>A 304 writes nothing. When ESI answers the first request of a run with 304, the message is
  acknowledged and the store is unchanged but for the lock: in particular \<open>last_updated\<close> stays as it
  was, even when an earlier run saved the ETag and failed to save the time stamp.\<close>

theorem not_modified_writes_nothing:
  assumes ok: "redis_ok rc db"
    and acquired: "AcquireRefreshLock rc (lock_now clk) industry_lock_key (Redis st) = (r, Inr True)"
    and etag: "GetIndustrySystemsETag rc r = (r1, Inr etag)"
    and answer: "DoRequest (envs 1) (Client st) ''GET'' ''/v1/industry/systems/'' (stream_headers etag) = (c, Inr resp)"
    and st304: "StatusCode resp = status_not_modified"
    and msg: "Msg st = Some m"
  shows "Msg (RefreshSystemIndexes rc marshal env (Some (client_call envs)) clk st) =
      Some (m\<lparr>Calls := Calls m @ [InProgress, Ack]\<rparr>)
    \<and> (\<forall>k. k \<noteq> industry_lock_key \<longrightarrow>
         db (Redis (RefreshSystemIndexes rc marshal env (Some (client_call envs)) clk st)) k = db (Redis st) k)"
proof -
  let ?ops = "industry_ops rc marshal env (Some (client_call envs))"
  let ?st0 = "st\<lparr>Redis := r\<rparr>"
  let ?m1 = "m\<lparr>Calls := Calls m @ [InProgress]\<rparr>"
  let ?st1 = "?st0\<lparr>Redis := r1, Count := 0, LastProgress := progress_start clk, Msg := Some ?m1\<rparr>"
  have l: "LoadETag ?ops r = (r1, Inr etag)" using etag by (simp add: industry_ops_def)
  have beat: "fst (on_message InProgress (?st0\<lparr>Redis := r1, Count := 0, LastProgress := progress_start clk\<rparr>)) = ?st1"
    using msg by (simp add: on_message_def wrapper_call_def)
  have call: "client_call envs 1 ''GET'' ''/v1/industry/systems/'' (stream_headers etag) ?st1
      = (?st1\<lparr>Client := c\<rparr>, Some resp, None)"
    using answer by (simp add: client_call_def)
  have "\<exists>res. StreamItems ?ops etag (Some (on_item ?ops clk)) ?st1 = (?st1\<lparr>Client := c\<rparr>, res)
      \<and> StreamErr res = None \<and> NotModified res"
    using call st304 by (simp add: industry_ops_def StreamIndustrySystems_def stream_list_def maxAttempts_def
        numeral_eq_Suc stream_response_def Let_def)
  then obtain res where s: "StreamItems ?ops etag (Some (on_item ?ops clk)) ?st1 = (?st1\<lparr>Client := c\<rparr>, res)"
      "StreamErr res = None" "NotModified res" by blast
  have body: "refresh_body ?ops clk ?st0 = refresh_finish ?ops clk res (?st1\<lparr>Client := c\<rparr>)"
    unfolding refresh_body_def using l beat s(1) by simp
  have fin: "Msg (refresh_finish ?ops clk res (?st1\<lparr>Client := c\<rparr>)) = Some (m\<lparr>Calls := Calls m @ [InProgress, Ack]\<rparr>)"
      "Redis (refresh_finish ?ops clk res (?st1\<lparr>Client := c\<rparr>)) = r1"
    using s(2,3) by (simp_all add: refresh_finish_def add_metrics_def on_message_def wrapper_call_def)
  have run: "RefreshSystemIndexes rc marshal env (Some (client_call envs)) clk st =
      (refresh_body ?ops clk ?st0)\<lparr>Redis := ReleaseRefreshLock rc industry_lock_key (Redis (refresh_body ?ops clk ?st0))\<rparr>"
    unfolding RefreshSystemIndexes_def refresh_task_def industry_lock using acquired by (simp add: Let_def)
  have "db r1 = db r" using redis_Get_same [OF ok] etag by (simp add: GetIndustrySystemsETag_def GetString_def)
  then have "db (ReleaseRefreshLock rc industry_lock_key r1) k = db (Redis st) k" if "k \<noteq> industry_lock_key" for k
    using industry_task.lock_db(1) [OF ok acquired that] industry_task.lock_db(2) [OF ok that] by simp
  then show ?thesis using run body fin by simp
qed


section \<open>Witnesses\<close>

definition sample_msg :: js_msg where
  "sample_msg = \<lparr>Metadata = Inr \<lparr>NumDelivered = 1, StreamSeq = 7, ConsumerSeq = 7\<rparr>, Data = ''{}'',
     Answer = (\<lambda>_ _. None), Calls = []\<rparr>"

definition sample_task :: "(string \<rightharpoonup> string, unit ESIClient) refresh_state" where
  "sample_task = \<lparr>Redis = [industry_etag_key \<mapsto> ''v0''], Client = sample_client, Msg = Some sample_msg, Metrics = [],
     Count = 0, LastProgress = 0\<rparr>"

definition sample_clock :: "time \<Rightarrow> task_clock" where
  "sample_clock t = \<lparr>lock_now = t, progress_start = t, start_now = t, since_at = (\<lambda>_. t),
     progress_at = (\<lambda>_. t), wait_now = t, updated_now = t, next_now = t, done_now = t, done_updated = t\<rparr>"

definition etag_response :: "int \<Rightarrow> unit http_response" where
  "etag_response status = \<lparr>StatusCode = status, Header = header_set Map.empty ''ETag'' ''v1'', Body = ()\<rparr>"

text \<open>Servers that lose a \<open>Del\<close>, or the write of the time stamp.\<close>

definition no_del_redis :: "(string \<rightharpoonup> string) redis_client" where
  "no_del_redis = memory_redis\<lparr>redis_Del := (\<lambda>k r. (r, Some ErrDeadline))\<rparr>"

definition no_stamp_redis :: "(string \<rightharpoonup> string) redis_client" where
  "no_stamp_redis = memory_redis\<lparr>redis_Set := (\<lambda>k v ttl r.
     if k = industry_updated_key then (r, Some ErrDeadline) else (r(k \<mapsto> v), None))\<rparr>"

lemma no_del_redis_ok: "redis_ok no_del_redis (\<lambda>r. r)"
  by (simp add: redis_ok_def memory_redis_def no_del_redis_def split: option.split)

lemma no_stamp_redis_ok: "redis_ok no_stamp_redis (\<lambda>r. r)"
  by (simp add: redis_ok_def memory_redis_def no_stamp_redis_def split: option.split)

abbreviation sample_envs :: "int \<Rightarrow> nat \<Rightarrow> (unit, unit) call_env" where
  "sample_envs status \<equiv> (\<lambda>_. sample_env 1 (etag_response status))"

definition sample_refresh :: "(string \<rightharpoonup> string) redis_client \<Rightarrow> int \<Rightarrow> (string \<rightharpoonup> string, unit ESIClient) refresh_state" where
  "sample_refresh rc status = RefreshSystemIndexes rc (\<lambda>s. Inr (format_int (sint (SolarSystemID s))))
     (sample_stream [sample_system]) (Some (client_call (sample_envs status))) (sample_clock 0) sample_task"

lemma sample_task_answer:
  assumes "status \<noteq> 429"
  shows "\<exists>c. DoRequest (sample_env 1 (etag_response status)) sample_client ''GET'' p h = (c, Inr (etag_response status))"
proof -
  have "snd (DoRequest (sample_env 1 (etag_response status)) sample_client ''GET'' p h) = Inr (etag_response status)"
    by (rule sample_answer) (use assms in \<open>simp_all add: etag_response_def status_too_many_requests_def\<close>)
  then show ?thesis by (cases "DoRequest (sample_env 1 (etag_response status)) sample_client ''GET'' p h") simp
qed

lemma etag_header: "header_get (Header (etag_response st)) ''ETag'' = ''v1''"
proof -
  have "canonical_key ''ETag'' = ''Etag''" by code_simp
  then show ?thesis by (simp add: etag_response_def header_get_def header_set_def)
qed

lemma etag_encoding: "header_get (Header (etag_response st)) ''Content-Encoding'' \<noteq> ''gzip''"
proof -
  have "canonical_key ''ETag'' = ''Etag''" "canonical_key ''Content-Encoding'' = ''Content-Encoding''"
    by code_simp+
  then show ?thesis by (simp add: etag_response_def header_get_def header_set_def)
qed

theorem refresh_settles_once_witness:
  "settled sample_msg (RefreshSystemIndexes memory_redis (\<lambda>_. Inr []) (sample_stream [])
     (Some (client_call (sample_envs 200))) (sample_clock 0) sample_task)"
  using refresh_settles_once [of sample_task sample_msg memory_redis "\<lambda>_. Inr []" "sample_stream []"
      "sample_envs 200" "sample_clock 0" "\<lambda>_. Inr []" "sample_stream []"]
  by (simp add: sample_task_def)

theorem refresh_lock_released_witness:
  "Redis (sample_refresh memory_redis 304) industry_lock_key = None"
proof -
  have d: "snd (redis_Del memory_redis k s) = None" for k s by (simp add: memory_redis_def)
  have "\<exists>r. AcquireRefreshLock memory_redis (lock_now (sample_clock 0)) industry_lock_key (Redis sample_task) = (r, Inr True)"
    by (simp add: AcquireRefreshLock_def memory_redis_def sample_task_def industry_lock_key_def industry_etag_key_def)
  then show ?thesis
    using refresh_lock_released [OF memory_redis_ok d, of "sample_clock 0" sample_task
        "\<lambda>s. Inr (format_int (sint (SolarSystemID s)))" "sample_stream [sample_system]" "sample_envs 304"
        "\<lambda>_. Inr []" "sample_stream []"]
    by (auto simp: sample_refresh_def)
qed

theorem unreleased_lock_swallows_redelivery_witness:
  "Msg (RefreshSystemIndexes no_del_redis (\<lambda>s. Inr (format_int (sint (SolarSystemID s))))
     (sample_stream [sample_system]) (Some (client_call (sample_envs 200))) (sample_clock 0)
     ((sample_refresh no_del_redis 304)\<lparr>Msg := Some sample_msg\<rparr>)) = Some (sample_msg\<lparr>Calls := [Ack]\<rparr>)"
proof -
  obtain r where a: "AcquireRefreshLock no_del_redis (lock_now (sample_clock 0)) industry_lock_key (Redis sample_task) = (r, Inr True)"
    by (simp add: AcquireRefreshLock_def memory_redis_def no_del_redis_def sample_task_def industry_lock_key_def industry_etag_key_def)
  have d: "fst (redis_Del no_del_redis industry_lock_key s) = s" for s by (simp add: no_del_redis_def)
  show ?thesis
    using unreleased_lock_swallows_redelivery [OF no_del_redis_ok a d sample_refresh_def refl]
    by (simp add: sample_msg_def)
qed


text \<open>The steps of a run on an in-memory server.\<close>

lemma sample_acquire:
  assumes "redis_SetNX rc = redis_SetNX memory_redis"
  shows "AcquireRefreshLock rc (lock_now (sample_clock t)) industry_lock_key (Redis sample_task) =
    ([industry_etag_key \<mapsto> ''v0'', industry_lock_key \<mapsto> format_int (unix_milli t)], Inr True)"
  unfolding AcquireRefreshLock_def assms
  by (simp add: memory_redis_def sample_task_def sample_clock_def industry_lock_key_def industry_etag_key_def)

lemma sample_etag:
  assumes "redis_Get rc = redis_Get memory_redis"
  shows "GetIndustrySystemsETag rc [industry_etag_key \<mapsto> ''v0'', industry_lock_key \<mapsto> v] =
    ([industry_etag_key \<mapsto> ''v0'', industry_lock_key \<mapsto> v], Inr ''v0'')"
  unfolding GetIndustrySystemsETag_def GetString_def assms
  by (simp add: memory_redis_def industry_lock_key_def industry_etag_key_def)

theorem not_modified_writes_nothing_witness:
  "Msg (sample_refresh memory_redis 304) = Some (sample_msg\<lparr>Calls := [InProgress, Ack]\<rparr>)
   \<and> Redis (sample_refresh memory_redis 304) industry_etag_key = Some ''v0''"
proof -
  have m: "Msg sample_task = Some sample_msg" "Client sample_task = sample_client"
    by (simp_all add: sample_task_def)
  obtain c where c: "DoRequest (sample_envs 304 1) (Client sample_task) ''GET'' ''/v1/industry/systems/''
      (stream_headers ''v0'') = (c, Inr (etag_response 304))"
    unfolding m using sample_task_answer [of 304] by auto
  have st: "StatusCode (etag_response 304) = status_not_modified"
    by (simp add: etag_response_def status_not_modified_def)
  have e: "industry_etag_key \<noteq> industry_lock_key" by (simp add: industry_lock_key_def industry_etag_key_def)
  show ?thesis
    using not_modified_writes_nothing [OF memory_redis_ok sample_acquire [OF refl] sample_etag [OF refl]
        c st m(1), of "\<lambda>s. Inr (format_int (sint (SolarSystemID s)))" "sample_stream [sample_system]"] e
    by (simp add: sample_refresh_def) (simp add: sample_msg_def sample_task_def)
qed

theorem rate_limited_redelivery_witness:
  "Msg (RefreshSystemIndexes memory_redis (\<lambda>_. Inr []) (sample_stream [])
     (Some (client_call (\<lambda>_. sample_env (- 62135596800000000001) (etag_response 200))))
     (sample_clock (zero_time - 30)) sample_task) =
   Some (sample_msg\<lparr>Calls := [InProgress, NakWithDelay 30]\<rparr>)"
proof -
  have m: "Msg sample_task = Some sample_msg" "Client sample_task = sample_client"
    by (simp_all add: sample_task_def)
  obtain rl where d: "snd (DoRequest ((\<lambda>_. sample_env (- 62135596800000000001) (etag_response 200)) (1::nat))
      (Client sample_task) ''GET'' ''/v1/industry/systems/'' (stream_headers ''v0'')) = Inl (ErrRateLimit rl)"
    "Retryable rl" "RetryAfter rl = zero_time"
    unfolding m using sample_refused by blast
  have g: "GetRateLimitError (Some (ErrRateLimit rl)) = Some rl" by (simp add: GetRateLimitError_def)
  have w: "wait_now (sample_clock (zero_time - 30)) = zero_time - 30" by (simp add: sample_clock_def)
  have a: "wait_now (sample_clock (zero_time - 30)) < RetryAfter rl"
      "RetryAfter rl - wait_now (sample_clock (zero_time - 30)) < 2 ^ 63"
    using d(3) by (simp_all add: w)
  have n: "Answer sample_msg cs b = None" for cs b by (simp add: sample_msg_def)
  show ?thesis
    using rate_limited_redelivery [OF m(1) sample_acquire [OF refl] sample_etag [OF refl] d(1) g d(2) a n,
        of "\<lambda>_. Inr []" "sample_stream []"] d(3)
    by (simp add: w) (simp add: sample_msg_def)
qed

text \<open>A run that gets new data: what the stream leaves to \<open>refresh_finish\<close>.\<close>

lemma sample_new_data:
  assumes "redis_SetNX rc = redis_SetNX memory_redis" and "redis_Get rc = redis_Get memory_redis"
    and "redis_Set rc (industry_index_key 30000142) (format_int 30000142) 0
      [industry_etag_key \<mapsto> ''v0'', industry_lock_key \<mapsto> format_int (unix_milli 0)] = (r2, None)"
  shows "\<exists>ops st2 res. ops = industry_ops rc (\<lambda>s. Inr (format_int (sint (SolarSystemID s))))
      (sample_stream [sample_system]) (Some (client_call (sample_envs 200)))
    \<and> sample_refresh rc 200 = (refresh_finish ops (sample_clock 0) res st2)\<lparr>Redis :=
        ReleaseRefreshLock rc industry_lock_key (Redis (refresh_finish ops (sample_clock 0) res st2))\<rparr>
    \<and> Redis st2 = r2 \<and> Metrics st2 = [] \<and> NewETag res = ''v1'' \<and> \<not> NotModified res \<and> StreamErr res = None"
proof -
  let ?r = "[industry_etag_key \<mapsto> ''v0'', industry_lock_key \<mapsto> format_int (unix_milli 0)]"
  let ?ops = "industry_ops rc (\<lambda>s. Inr (format_int (sint (SolarSystemID s))))
      (sample_stream [sample_system]) (Some (client_call (sample_envs 200)))"
  let ?st1 = "sample_task\<lparr>Redis := ?r, Msg := Some (sample_msg\<lparr>Calls := [InProgress]\<rparr>), Count := 0, LastProgress := 0\<rparr>"
  obtain c where c: "DoRequest (sample_envs 200 1) sample_client ''GET'' ''/v1/industry/systems/''
      (stream_headers ''v0'') = (c, Inr (etag_response 200))"
    using sample_task_answer [of 200] by auto
  have call: "client_call (sample_envs 200) 1 ''GET'' ''/v1/industry/systems/'' (stream_headers ''v0'') ?st1
      = (?st1\<lparr>Client := c\<rparr>, Some (etag_response 200), None)"
    using c by (simp add: client_call_def sample_task_def)
  have item: "on_item ?ops (sample_clock 0) (normalize_system n sample_system) (?st1\<lparr>Client := c\<rparr>) =
      (?st1\<lparr>Client := c, Redis := r2, Count := 1\<rparr>, None)" for n
    using assms(3) by (simp add: on_item_def industry_ops_def SaveIndustrySystemIndex_def SaveJSON_def
        normalize_system_id sample_system_def sample_clock_def time_sub_def second_def)
  have st: "StatusCode (etag_response 200) = 200" by (simp add: etag_response_def)
  have "\<exists>res. StreamItems ?ops ''v0'' (Some (on_item ?ops (sample_clock 0))) ?st1 =
      (?st1\<lparr>Client := c, Redis := r2, Count := 1\<rparr>, res)
      \<and> NewETag res = ''v1'' \<and> \<not> NotModified res \<and> StreamErr res = None"
    using call item etag_encoding [of 200] etag_header [of 200] st
    by (simp add: industry_ops_def StreamIndustrySystems_def stream_list_def maxAttempts_def numeral_eq_Suc
        stream_response_def status_ok_def status_not_modified_def stream_body_def sample_stream_def Let_def)
  then obtain res where s: "StreamItems ?ops ''v0'' (Some (on_item ?ops (sample_clock 0))) ?st1 =
      (?st1\<lparr>Client := c, Redis := r2, Count := 1\<rparr>, res)"
      "NewETag res = ''v1''" "\<not> NotModified res" "StreamErr res = None" by blast
  have l: "LoadETag ?ops ?r = (?r, Inr ''v0'')" using sample_etag [OF assms(2)] by (simp add: industry_ops_def)
  have beat: "fst (on_message InProgress (sample_task\<lparr>Redis := ?r, Count := 0, LastProgress := 0\<rparr>)) = ?st1"
    by (simp add: on_message_def wrapper_call_def sample_task_def sample_msg_def)
  have "progress_start (sample_clock 0) = 0" by (simp add: sample_clock_def)
  then have body: "refresh_body ?ops (sample_clock 0) (sample_task\<lparr>Redis := ?r\<rparr>) =
      refresh_finish ?ops (sample_clock 0) res (?st1\<lparr>Client := c, Redis := r2, Count := 1\<rparr>)"
    unfolding refresh_body_def using l beat s(1) by simp
  have "sample_refresh rc 200 = (refresh_body ?ops (sample_clock 0) (sample_task\<lparr>Redis := ?r\<rparr>))\<lparr>Redis :=
      ReleaseRefreshLock rc industry_lock_key (Redis (refresh_body ?ops (sample_clock 0) (sample_task\<lparr>Redis := ?r\<rparr>)))\<rparr>"
    unfolding sample_refresh_def RefreshSystemIndexes_def refresh_task_def industry_lock sample_acquire [OF assms(1)]
    by (simp add: Let_def)
  moreover have "Metrics (?st1\<lparr>Client := c, Redis := r2, Count := 1\<rparr>) = []" by (simp add: sample_task_def)
  ultimately show ?thesis using body s(2-4)
    by (intro exI [of _ ?ops] exI [of _ "?st1\<lparr>Client := c, Redis := r2, Count := 1\<rparr>"] exI [of _ res]) simp
qed

lemma sample_new_etag: "Redis (sample_refresh memory_redis 200) industry_etag_key = Some ''v1''"
proof -
  have set: "redis_Set memory_redis k v ttl r = (r(k \<mapsto> v), None)" for k v ttl r
    by (simp add: memory_redis_def)
  obtain ops st2 res where r: "ops = industry_ops memory_redis (\<lambda>s. Inr (format_int (sint (SolarSystemID s))))
      (sample_stream [sample_system]) (Some (client_call (sample_envs 200)))"
    "sample_refresh memory_redis 200 = (refresh_finish ops (sample_clock 0) res st2)\<lparr>Redis :=
        ReleaseRefreshLock memory_redis industry_lock_key (Redis (refresh_finish ops (sample_clock 0) res st2))\<rparr>"
    "NewETag res = ''v1''" "\<not> NotModified res" "StreamErr res = None"
    using sample_new_data [OF refl refl set] by blast
  have keys: "industry_updated_key \<noteq> industry_etag_key" "industry_lock_key \<noteq> industry_etag_key"
    by (simp_all add: industry_updated_key_def industry_etag_key_def industry_lock_key_def)
  have "Redis (refresh_finish ops (sample_clock 0) res st2) industry_etag_key = Some ''v1''"
    using r(3-5) keys
    by (simp add: refresh_finish_def r(1) industry_ops_def SaveIndustrySystemsETag_def SetString_def set
        SaveIndustrySystemsLastUpdated_def)
  then show ?thesis
    using keys by (simp add: r(2) ReleaseRefreshLock_def) (simp add: memory_redis_def)
qed

theorem etag_means_complete_witness:
  "Redis (sample_refresh memory_redis 200) industry_etag_key = Some ''v1''
   \<and> (\<exists>(resp :: unit http_response) items. header_get (Header resp) ''ETag'' = ''v1''
      \<and> map Inr items = map fst (elements (json_of (sample_stream [sample_system]) ())))"
proof -
  note e = sample_new_etag
  have ch: "Redis (sample_refresh memory_redis 200) industry_etag_key \<noteq> Redis sample_task industry_etag_key"
    using e by (simp add: sample_task_def)
  have js: "json_of (sample_stream [sample_system]) b = json_of (sample_stream [sample_system]) ()" for b
    by simp
  from etag_means_complete [where db = "\<lambda>r. r", OF memory_redis_ok sample_refresh_def ch]
  obtain resp :: "unit http_response" and body items
    where "Redis (sample_refresh memory_redis 200) industry_etag_key = Some (header_get (Header resp) ''ETag'')"
      and "map fst (elements (json_of (sample_stream [sample_system]) body)) = map Inr items" by blast
  then have "header_get (Header resp) ''ETag'' = ''v1''
      \<and> map Inr items = map fst (elements (json_of (sample_stream [sample_system]) ()))"
    using e js [of body] by simp
  then show ?thesis using e by blast
qed


end
