(* ===== verification/Worker_Subscriber.thy ===== *)
theory Worker_Subscriber
  imports Esi_Refresh
begin

text \<open>
  The subscribers of the worker service: \<open>cmd/worker/subscriber.go\<close> and \<open>cmd/worker/esiSubscribers.go\<close>.

  The fetch loop submits every message to a pool of goroutines, which run the subscriber's task on it.
  The state of a worker holds the submitted messages whose task has not run, the messages that are
  done, and what the tasks share (Redis, the ESI client, the metrics). A task runs as one step, and the
  pool may run the pending tasks in any order, between any two steps of the fetch loop: the relation
  \<open>worker_step\<close>. Each message is kept beside the message as it was fetched.
\<close>

section \<open>Configuration\<close>

text \<open>A task returns the state and whether it panicked.\<close>

type_synonym ('r, 'c) task_func = "('r, 'c) refresh_state \<Rightarrow> ('r, 'c) refresh_state \<times> bool"

record ('r, 'c) SubscriberConfig =
  Subject :: string
  ConsumerName :: string
  SubStream :: string
  TaskName :: string
  TaskFunc :: "('r, 'c) task_func"

definition subscriber_consumer :: "('r, 'c) SubscriberConfig \<Rightarrow> ConsumerConfig" where
  "subscriber_consumer cfg =
     \<lparr>Durable = ConsumerName cfg, FilterSubject = Subject cfg, DeliverPolicy = DeliverLast,
      AckPolicy = AckExplicit, AckWait = 30 * second, MaxDeliver = 5\<rparr>"

text \<open>The part of \<open>SubscribeToSubject\<close> before the loop; the result is the consumer it fetches from.\<close>

definition SubscribeToSubject :: "('s, 'h) jetstream \<Rightarrow> ('r, 'c) SubscriberConfig \<Rightarrow> 's \<Rightarrow> 's \<times> (go_error + 'h)" where
  "SubscribeToSubject js cfg s =
     (case js_stream js (SubStream cfg) s of
        Inl err \<Rightarrow> (s, Inl err)
      | Inr _ \<Rightarrow> GetOrCreateConsumer js (SubStream cfg) (subscriber_consumer cfg) s)"

section \<open>Messages\<close>

record ('r, 'c) worker =
  Pending :: "(js_msg \<times> js_msg) list"
  Done :: "(js_msg \<times> js_msg) list"
  Shared :: "('r, 'c) refresh_state"

text \<open>The fetch loop on one message: \<open>submitErr\<close> is the error of \<open>pool.Submit\<close>.\<close>

definition submit_message :: "js_msg \<Rightarrow> go_error option \<Rightarrow> ('r, 'c) worker \<Rightarrow> ('r, 'c) worker" where
  "submit_message msg submitErr w =
     (let m1 = fst (wrapper_call InProgress msg)
      in case submitErr of
           None \<Rightarrow> w\<lparr>Pending := Pending w @ [(msg, m1)]\<rparr>
         | Some err \<Rightarrow> w\<lparr>Done := Done w @ [(msg, fst (wrapper_call Nak m1))]\<rparr>)"

text \<open>The submitted function on one message, with the deferred recovery from a panic.\<close>

definition run_task :: "('r, 'c) task_func \<Rightarrow> js_msg \<Rightarrow> ('r, 'c) refresh_state \<Rightarrow> js_msg \<times> ('r, 'c) refresh_state" where
  "run_task task msg st =
     (case task (st\<lparr>Msg := Some msg\<rparr>) of (st1, panicked) \<Rightarrow>
       (let m1 = (case Msg st1 of None \<Rightarrow> msg | Some m \<Rightarrow> m)
        in (if panicked then fst (wrapper_call Nak m1) else m1, st1\<lparr>Msg := None\<rparr>)))"

definition run_pending :: "('r, 'c) task_func \<Rightarrow> nat \<Rightarrow> ('r, 'c) worker \<Rightarrow> ('r, 'c) worker" where
  "run_pending task i w =
     (case Pending w ! i of (msg, m1) \<Rightarrow>
       (case run_task task m1 (Shared w) of (m2, st) \<Rightarrow>
         w\<lparr>Pending := take i (Pending w) @ drop (Suc i) (Pending w),
           Done := Done w @ [(msg, m2)], Shared := st\<rparr>))"

section \<open>The fetch loop\<close>

text \<open>What one round of the loop meets: the closed stop channel, an error of \<open>Fetch\<close>, or a batch,
  each message with the answer of the pool.\<close>

datatype poll = Stopped | FetchFailed go_error | Fetched "(js_msg \<times> go_error option) list"

fun submit_batch :: "(js_msg \<times> go_error option) list \<Rightarrow> ('r, 'c) worker \<Rightarrow> ('r, 'c) worker" where
  "submit_batch [] w = w"
| "submit_batch ((msg, submitErr) # rest) w = submit_batch rest (submit_message msg submitErr w)"

fun fetch_loop :: "poll list \<Rightarrow> ('r, 'c) worker \<Rightarrow> ('r, 'c) worker \<times> duration list" where
  "fetch_loop [] w = (w, [])"
| "fetch_loop (Stopped # polls) w = (w, [])"
| "fetch_loop (FetchFailed err # polls) w =
     (if err = ErrDeadline then fetch_loop polls w
      else (case fetch_loop polls w of (w1, sleeps) \<Rightarrow> (w1, second # sleeps)))"
| "fetch_loop (Fetched batch # polls) w = fetch_loop polls (submit_batch batch w)"

section \<open>The two subscribers\<close>

definition SubscribeSystemIndexes :: "'r redis_client \<Rightarrow> (SystemIndexes \<Rightarrow> go_error + string)
    \<Rightarrow> ('b, ESIIndustrySystem) stream_env \<Rightarrow> (nat \<Rightarrow> ('l, 'b) call_env) \<Rightarrow> task_clock
    \<Rightarrow> ('r, 'l ESIClient) SubscriberConfig" where
  "SubscribeSystemIndexes rc marshal env envs clk =
     \<lparr>Subject = SubjectRefreshSystemIndexes, ConsumerName = ConsumerWorkerSystemIndexes,
      SubStream = StreamESIRefresh, TaskName = ''system indexes refresh'',
      TaskFunc = (\<lambda>st. (RefreshSystemIndexes rc marshal env (Some (client_call envs)) clk st, False))\<rparr>"

definition SubscribeAdjustedPrices :: "'r redis_client \<Rightarrow> (AdjustedPrice \<Rightarrow> go_error + string)
    \<Rightarrow> ('b, ESIAdjustedPrice) stream_env \<Rightarrow> (nat \<Rightarrow> ('l, 'b) call_env) \<Rightarrow> task_clock
    \<Rightarrow> ('r, 'l ESIClient) SubscriberConfig" where
  "SubscribeAdjustedPrices rc marshal env envs clk =
     \<lparr>Subject = SubjectRefreshAdjustedPrices, ConsumerName = ConsumerWorkerAdjustedPrices,
      SubStream = StreamESIRefresh, TaskName = ''adjusted prices refresh'',
      TaskFunc = (\<lambda>st. (RefreshAdjustedPrices rc marshal env (Some (client_call envs)) clk st, False))\<rparr>"

section \<open>The worker as a state machine\<close>

text \<open>\<open>tasks\<close> holds the task with every reading of the clock and every behaviour of ESI.\<close>

inductive worker_step :: "('r, 'c) task_func set \<Rightarrow> ('r, 'c) worker \<Rightarrow> ('r, 'c) worker \<Rightarrow> bool"
  for tasks where
  submitted: "worker_step tasks w (submit_message msg submitErr w)"
| ran: "task \<in> tasks \<Longrightarrow> i < length (Pending w) \<Longrightarrow> worker_step tasks w (run_pending task i w)"

inductive worker_reachable :: "('r, 'c) task_func set \<Rightarrow> ('r, 'c) worker \<Rightarrow> ('r, 'c) worker \<Rightarrow> bool"
  for tasks w0 where
  start: "worker_reachable tasks w0 w0"
| step: "worker_reachable tasks w0 w \<Longrightarrow> worker_step tasks w w' \<Longrightarrow> worker_reachable tasks w0 w'"

inductive_cases worker_stepE: "worker_step tasks w w'"

lemma submit_batch_reachable:
  "worker_reachable tasks w0 w \<Longrightarrow> worker_reachable tasks w0 (submit_batch batch w)"
  by (induction batch w rule: submit_batch.induct) (auto intro: worker_reachable.step worker_step.submitted)

lemma fetch_loop_reachable:
  "worker_reachable tasks w0 w \<Longrightarrow> worker_reachable tasks w0 (fst (fetch_loop polls w))"
  by (induction polls w rule: fetch_loop.induct) (auto simp: submit_batch_reachable split: prod.split)

text \<open>What a subscriber needs of its task: a task that returns has settled its message, one that
  panics has not.\<close>

locale settling_task =
  fixes task :: "('r, 'c) task_func"
  assumes returns: "Msg st = Some m \<Longrightarrow> task st = (st', False) \<Longrightarrow> settled m st'"
    and panics: "Msg st = Some m \<Longrightarrow> task st = (st', True) \<Longrightarrow> in_flight m st'"
begin

lemma run_task_settles: "settled_by m (Calls (fst (run_task task m st)))"
proof -
  obtain st1 p where t: "task (st\<lparr>Msg := Some m\<rparr>) = (st1, p)" by (cases "task (st\<lparr>Msg := Some m\<rparr>)")
  show ?thesis
  proof (cases p)
    case False
    then have "settled m st1" using returns [of "st\<lparr>Msg := Some m\<rparr>" m st1] t by simp
    then show ?thesis using t False by (auto simp: run_task_def settled_def)
  next
    case True
    then have fl: "in_flight m st1" using panics [of "st\<lparr>Msg := Some m\<rparr>" m st1] t by simp
    then obtain m1 where m1: "Msg st1 = Some m1" by (auto simp: in_flight_def)
    have "settled m (fst (on_message Nak st1))" by (rule settle_once [OF fl]) simp
    then show ?thesis using t True m1 by (auto simp: run_task_def settled_def on_message_def split: prod.splits)
  qed
qed

end

interpretation system_indexes: settling_task "TaskFunc (SubscribeSystemIndexes rc marshal env envs clk)"
  by unfold_locales (auto simp: SubscribeSystemIndexes_def RefreshSystemIndexes_def intro: industry_task.task_settles)

interpretation adjusted_prices: settling_task "TaskFunc (SubscribeAdjustedPrices rc marshal env envs clk)"
  by unfold_locales (auto simp: SubscribeAdjustedPrices_def RefreshAdjustedPrices_def intro: price_task.task_settles)

section \<open>Every message is settled\<close>

definition worker_inv :: "('r, 'c) worker \<Rightarrow> bool" where
  "worker_inv w \<longleftrightarrow>
     (\<forall>(m, m1)\<in>set (Pending w). m1 = fst (wrapper_call InProgress m))
   \<and> (\<forall>(m, m1)\<in>set (Done w). settled_by m (Calls m1))"

lemma settled_after_beat:
  assumes "settled_by (fst (wrapper_call InProgress m)) cs" shows "settled_by m cs"
proof -
  obtain beats fin a where b: "cs = Calls m @ (InProgress # beats) @ fin" "set (InProgress # beats) \<subseteq> {InProgress}"
    "settles a" "fin = [a] \<or> (\<exists>d. fin = [NakWithDelay d, a]
        \<and> Answer m (Calls m @ InProgress # beats) (NakWithDelay d) \<noteq> None)"
    using assms by (auto simp: settled_by_def wrapper_call_def)
  then show ?thesis unfolding settled_by_def by blast
qed

lemma rejected_settled: "settled_by m (Calls (fst (wrapper_call Nak (fst (wrapper_call InProgress m)))))"
proof -
  have "Calls (fst (wrapper_call Nak (fst (wrapper_call InProgress m)))) = Calls m @ [InProgress] @ [Nak]"
    by (simp add: wrapper_call_def)
  then show ?thesis unfolding settled_by_def by (intro exI [of _ "[InProgress]"] exI [of _ "[Nak]"] exI [of _ Nak]) simp
qed

lemma submit_inv: "worker_inv w \<Longrightarrow> worker_inv (submit_message msg submitErr w)"
  by (auto simp: worker_inv_def submit_message_def Let_def rejected_settled split: option.split)

lemma run_pending_inv:
  assumes "worker_inv w" and "settling_task task" and i: "i < length (Pending w)"
  shows "worker_inv (run_pending task i w)"
proof -
  obtain m m1 where p: "Pending w ! i = (m, m1)" by (cases "Pending w ! i")
  then have "(m, m1) \<in> set (Pending w)" using nth_mem [OF i] by simp
  then have m1: "m1 = fst (wrapper_call InProgress m)" using assms(1) by (auto simp: worker_inv_def)
  obtain m2 st where r: "run_task task m1 (Shared w) = (m2, st)" by (cases "run_task task m1 (Shared w)")
  have "settled_by m (Calls m2)"
    using settling_task.run_task_settles [OF assms(2), of m1 "Shared w"] r settled_after_beat m1 by simp
  then show ?thesis
    using assms(1) by (auto simp: worker_inv_def run_pending_def p r dest: in_set_takeD in_set_dropD)
qed

lemma reachable_inv:
  assumes "worker_reachable tasks w0 w" and "worker_inv w0" and "\<forall>task\<in>tasks. settling_task task"
  shows "worker_inv w"
  using assms by (induction) (auto elim!: worker_stepE simp: submit_inv run_pending_inv)

text \<open>The pool running one pending task after the other.\<close>

fun drain :: "('r, 'c) task_func \<Rightarrow> nat \<Rightarrow> ('r, 'c) worker \<Rightarrow> ('r, 'c) worker" where
  "drain task 0 w = w"
| "drain task (Suc n) w = drain task n (run_pending task 0 w)"

lemma run_pending_moves:
  assumes "Pending w = p # ps"
  shows "Pending (run_pending task 0 w) = ps"
    and "map fst (Done (run_pending task 0 w)) = map fst (Done w) @ [fst p]"
  by (simp_all add: run_pending_def assms split: prod.split)

lemma drain_all:
  "length (Pending w) = n \<Longrightarrow> Pending (drain task n w) = []
    \<and> map fst (Done (drain task n w)) = map fst (Done w) @ map fst (Pending w)"
proof (induction n arbitrary: w)
  case (Suc n)
  then obtain p ps where p: "Pending w = p # ps" by (cases "Pending w") auto
  show ?case
    using Suc.IH [of "run_pending task 0 w"] Suc.prems run_pending_moves [OF p, of task] p by simp
qed simp

lemma drain_reachable:
  "worker_reachable tasks w0 w \<Longrightarrow> task \<in> tasks \<Longrightarrow> length (Pending w) = n \<Longrightarrow>
    worker_reachable tasks w0 (drain task n w)"
proof (induction n arbitrary: w)
  case (Suc n)
  then obtain p ps where p: "Pending w = p # ps" by (cases "Pending w") auto
  show ?case
    using Suc.IH [of "run_pending task 0 w"] Suc.prems run_pending_moves(1) [OF p, of task] p
      worker_reachable.step [OF Suc.prems(1) worker_step.ran [OF Suc.prems(2)]] by simp
qed simp


section \<open>Witness\<close>


end
