(* ===== verification/Connections.thy ===== *)
theory Connections
  imports Esi_Errors
begin

text \<open>
  Configuration and connections: \<open>internal/core/config/config.go\<close> and the \<open>Connect\<close> functions of
  \<open>internal/core/redis/redis.go\<close>, \<open>internal/core/nats/nats.go\<close> and \<open>internal/core/mongo/mongo.go\<close>
  with their \<open>Cleanup\<close>s.

  The client libraries are records of functions on a state that stands for the outside world. The
  three \<open>Connect\<close>s have the same loop, \<open>connect_loop\<close>; its result lists the sleeps between the
  attempts and the attempt numbers that are logged. The contract they share is the locale
  \<open>connector\<close>, interpreted for each service.
\<close>

section \<open>Configuration\<close>

record Config =
  MONGO_URL :: string
  WS_URL :: string
  NATS_URL :: string
  REDIS_URL :: string
  MINIO_URL :: string
  API_PORT :: string
  WS_PORT :: string
  AuthSecret :: string
  ExternalJWTSecret :: string
  ExternalJWTIssuer :: string
  ExternalJWTAudience :: string

text \<open>\<open>os.Getenv\<close> gives the empty string for a variable that is not set.\<close>

type_synonym environment = "string \<Rightarrow> string"

definition getEnv :: "environment \<Rightarrow> string \<Rightarrow> string \<Rightarrow> string" where
  "getEnv env k fallback = (let v = env k in if v \<noteq> [] then v else fallback)"

definition LoadConfig :: "environment \<Rightarrow> Config" where
  "LoadConfig env =
     \<lparr>MONGO_URL = getEnv env ''MONGO_URL'' ''mongodb://mongo:27017/eve_industry'',
      WS_URL = [],
      NATS_URL = getEnv env ''NATS_URL'' ''nats://nats:4222'',
      REDIS_URL = getEnv env ''REDIS_URL'' ''redis:6379'',
      MINIO_URL = getEnv env ''MINIO_URL'' ''http://minio:9000'',
      API_PORT = getEnv env ''API_PORT'' ''8080'',
      WS_PORT = getEnv env ''WS_PORT'' ''8091'',
      AuthSecret = getEnv env ''AUTH_SECRET'' ''dev-secret-change'',
      ExternalJWTSecret = getEnv env ''EXTERNAL_JWT_SECRET'' ''dev-external-secret'',
      ExternalJWTIssuer = getEnv env ''EXTERNAL_JWT_ISSUER'' [],
      ExternalJWTAudience = getEnv env ''EXTERNAL_JWT_AUDIENCE'' []\<rparr>"

section \<open>The connection loop\<close>

definition retryCount :: nat where "retryCount = 5"
definition retryDelay :: duration where "retryDelay = 5 * second"

text \<open>\<open>i\<close> is the loop variable, which the body increments as well.\<close>

function connect_loop :: "string \<Rightarrow> ('s \<Rightarrow> 's \<times> (go_error + 'c)) \<Rightarrow> nat \<Rightarrow> nat list \<Rightarrow> duration list \<Rightarrow> 's
    \<Rightarrow> 's \<times> nat list \<times> duration list \<times> (go_error + 'c)" where
  "connect_loop service attempt i logged sleeps s =
     (if i < retryCount then
        (case attempt s of
           (s1, Inr client) \<Rightarrow> (let i1 = Suc i in (s1, logged @ [i1], sleeps, Inr client))
         | (s1, Inl err) \<Rightarrow>
             (let i1 = Suc i
              in connect_loop service attempt (Suc i1) (logged @ [i1]) (sleeps @ [retryDelay]) s1))
      else (s, logged, sleeps,
            Inl (ErrText (''Failed to connect to '' @ service @ '' after '' @ format_nat retryCount
                   @ '' attempts. Exiting...''))))"
  by pat_completeness auto

termination
  by (relation "measure (\<lambda>(_, _, i, _, _, _). retryCount - i)") auto

declare connect_loop.simps [simp del]

section \<open>The services\<close>

record ('s, 'c) redis_lib =
  redis_NewClient :: "string \<Rightarrow> 's \<Rightarrow> 's \<times> 'c"
  redis_Ping :: "'c \<Rightarrow> 's \<Rightarrow> 's \<times> go_error option"
  redis_Close :: "'c \<Rightarrow> 's \<Rightarrow> 's \<times> go_error option"

record ('s, 'c, 'j) nats_lib =
  nats_Connect :: "string \<Rightarrow> duration \<Rightarrow> 's \<Rightarrow> 's \<times> (go_error + 'c)"
  nats_Drain :: "'c \<Rightarrow> 's \<Rightarrow> 's \<times> go_error option"
  nats_Close :: "'c \<Rightarrow> 's \<Rightarrow> 's"
  jetstream_New :: "'c \<Rightarrow> go_error + 'j"

record ('s, 'c) mongo_lib =
  mongo_Connect :: "string \<Rightarrow> 's \<Rightarrow> 's \<times> (go_error + 'c)"
  mongo_Disconnect :: "'c \<Rightarrow> 's \<Rightarrow> 's \<times> go_error option"

text \<open>A client whose ping fails is dropped without being closed.\<close>

definition redis_attempt :: "('s, 'c) redis_lib \<Rightarrow> environment \<Rightarrow> 's \<Rightarrow> 's \<times> (go_error + 'c)" where
  "redis_attempt lib env s =
     (case redis_NewClient lib (REDIS_URL (LoadConfig env)) s of
        (s1, client) \<Rightarrow> (case redis_Ping lib client s1 of
           (s2, None) \<Rightarrow> (s2, Inr client)
         | (s2, Some err) \<Rightarrow> (s2, Inl err)))"

definition ConnectRedis :: "('s, 'c) redis_lib \<Rightarrow> environment \<Rightarrow> 's \<Rightarrow> 's \<times> nat list \<times> duration list \<times> (go_error + 'c)" where
  "ConnectRedis lib env = connect_loop ''Redis'' (redis_attempt lib env) 0 [] []"

definition nats_attempt :: "('s, 'c, 'j) nats_lib \<Rightarrow> environment \<Rightarrow> 's \<Rightarrow> 's \<times> (go_error + 'c)" where
  "nats_attempt lib env = nats_Connect lib (NATS_URL (LoadConfig env)) retryDelay"

definition ConnectNats :: "('s, 'c, 'j) nats_lib \<Rightarrow> environment \<Rightarrow> 's \<Rightarrow> 's \<times> nat list \<times> duration list \<times> (go_error + 'c)" where
  "ConnectNats lib env = connect_loop ''NATS'' (nats_attempt lib env) 0 [] []"

definition mongo_attempt :: "('s, 'c) mongo_lib \<Rightarrow> environment \<Rightarrow> 's \<Rightarrow> 's \<times> (go_error + 'c)" where
  "mongo_attempt lib env = mongo_Connect lib (MONGO_URL (LoadConfig env))"

definition ConnectMongo :: "('s, 'c) mongo_lib \<Rightarrow> environment \<Rightarrow> 's \<Rightarrow> 's \<times> nat list \<times> duration list \<times> (go_error + 'c)" where
  "ConnectMongo lib env = connect_loop ''Mongo'' (mongo_attempt lib env) 0 [] []"

definition CleanupRedis :: "('s, 'c) redis_lib \<Rightarrow> 'c option \<Rightarrow> 's \<Rightarrow> 's" where
  "CleanupRedis lib client s = (case client of None \<Rightarrow> s | Some c \<Rightarrow> fst (redis_Close lib c s))"

definition CleanupNats :: "('s, 'c, 'j) nats_lib \<Rightarrow> 'c option \<Rightarrow> 's \<Rightarrow> 's" where
  "CleanupNats lib conn s =
     (case conn of None \<Rightarrow> s | Some c \<Rightarrow> nats_Close lib c (fst (nats_Drain lib c s)))"

definition CleanupMongo :: "('s, 'c) mongo_lib \<Rightarrow> 'c option \<Rightarrow> 's \<Rightarrow> 's" where
  "CleanupMongo lib client s = (case client of None \<Rightarrow> s | Some c \<Rightarrow> fst (mongo_Disconnect lib c s))"

definition GetJetStream :: "('s, 'c, 'j) nats_lib \<Rightarrow> 'c \<Rightarrow> go_error + 'j" where
  "GetJetStream lib conn =
     (case jetstream_New lib conn of
        Inl err \<Rightarrow> Inl (ErrWrap ''failed to get JetStream context: '' err)
      | Inr js \<Rightarrow> Inr js)"

definition ConnectJetStream :: "('s, 'c, 'j) nats_lib \<Rightarrow> environment \<Rightarrow> 's
    \<Rightarrow> 's \<times> nat list \<times> duration list \<times> (go_error + 'c \<times> 'j)" where
  "ConnectJetStream lib env s =
     (case ConnectNats lib env s of
        (s1, logged, sleeps, Inl err) \<Rightarrow> (s1, logged, sleeps, Inl err)
      | (s1, logged, sleeps, Inr conn) \<Rightarrow>
          (case GetJetStream lib conn of
             Inl err \<Rightarrow> (nats_Close lib conn s1, logged, sleeps, Inl err)
           | Inr js \<Rightarrow> (s1, logged, sleeps, Inr (conn, js))))"

section \<open>What the loop does\<close>

text \<open>The reference: at most \<open>n\<close> attempts, the next one logged as number \<open>k\<close>, each failure followed
  by a sleep.\<close>

fun try_times :: "nat \<Rightarrow> nat \<Rightarrow> go_error \<Rightarrow> ('s \<Rightarrow> 's \<times> (go_error + 'c)) \<Rightarrow> 's
    \<Rightarrow> 's \<times> nat list \<times> duration list \<times> (go_error + 'c)" where
  "try_times 0 k gaveUp attempt s = (s, [], [], Inl gaveUp)"
| "try_times (Suc n) k gaveUp attempt s =
     (case attempt s of
        (s1, Inr client) \<Rightarrow> (s1, [k], [], Inr client)
      | (s1, Inl err) \<Rightarrow> (case try_times n (k + 2) gaveUp attempt s1 of
           (s2, logged, sleeps, res) \<Rightarrow> (s2, k # logged, retryDelay # sleeps, res)))"

lemma connect_loop_try_times:
  "i + 2 * n \<in> {retryCount, Suc retryCount} \<Longrightarrow>
    connect_loop service attempt i logged sleeps s =
     (case try_times n (Suc i)
        (ErrText (''Failed to connect to '' @ service @ '' after '' @ format_nat retryCount
           @ '' attempts. Exiting...'')) attempt s of
        (s1, l, sl, res) \<Rightarrow> (s1, logged @ l, sleeps @ sl, res))"
proof (induction n arbitrary: i logged sleeps s)
  case 0
  then show ?case by (auto simp: connect_loop.simps [of _ _ i])
next
  case (Suc n)
  then have i: "i < retryCount" and n: "Suc (Suc i) + 2 * n \<in> {retryCount, Suc retryCount}" by auto
  show ?case
    by (subst connect_loop.simps)
      (auto simp: i Suc.IH [OF n] Let_def split: prod.split sum.split)
qed

definition gave_up :: "string \<Rightarrow> go_error" where
  "gave_up service = ErrText (''Failed to connect to '' @ service @ '' after '' @ format_nat retryCount
     @ '' attempts. Exiting...'')"

text \<open>Every service connects through the loop, from its first round.\<close>

locale connector =
  fixes connect :: "'s \<Rightarrow> 's \<times> nat list \<times> duration list \<times> (go_error + 'c)"
    and attempt :: "'s \<Rightarrow> 's \<times> (go_error + 'c)"
    and service :: string
  assumes connect_is: "connect s = connect_loop service attempt 0 [] [] s"
begin

lemma connect_three: "connect s = try_times 3 1 (gave_up service) attempt s"
proof -
  have "0 + 2 * 3 \<in> {retryCount, Suc retryCount}" by (simp add: retryCount_def)
  then show ?thesis
    unfolding connect_is gave_up_def by (subst connect_loop_try_times) (simp_all split: prod.split)
qed

text \<open>A connection comes from one of the first three attempts.\<close>

lemma connect_ok:
  assumes "connect s = (s', logged, sleeps, Inr c)"
  shows "\<exists>n<3. attempt (((fst \<circ> attempt) ^^ n) s) = (s', Inr c) \<and> length sleeps = n"
proof -
  have "try_times n k (gave_up service) attempt s = (s', logged, sleeps, Inr c) \<Longrightarrow>
      \<exists>m<n. attempt (((fst \<circ> attempt) ^^ m) s) = (s', Inr c) \<and> length sleeps = m" for n k logged sleeps
  proof (induction n arbitrary: k s logged sleeps)
    case (Suc n)
    show ?case
    proof (cases "attempt s")
      case (Pair s1 res)
      show ?thesis
      proof (cases res)
        case (Inl err)
        with Suc.prems Pair obtain k' l sl where
          "try_times n k' (gave_up service) attempt s1 = (s', l, sl, Inr c)" "sleeps = retryDelay # sl"
          by (auto split: prod.splits)
        moreover from Suc.IH [OF this(1)] obtain m where
          "m < n" "attempt (((fst \<circ> attempt) ^^ m) s1) = (s', Inr c)" "length sl = m" by blast
        ultimately have "Suc m < Suc n \<and> attempt (((fst \<circ> attempt) ^^ Suc m) s) = (s', Inr c) \<and> length sleeps = Suc m"
          using Pair by (simp only: funpow_Suc_right o_def) simp
        then show ?thesis by blast
      next
        case (Inr client)
        with Suc.prems Pair show ?thesis by (intro exI [of _ 0]) simp
      qed
    qed
  qed simp
  from this [OF assms [unfolded connect_three]] show ?thesis .
qed

end

interpretation redis_connector: connector "ConnectRedis lib env" "redis_attempt lib env" "''Redis''"
  by unfold_locales (simp add: ConnectRedis_def)

interpretation nats_connector: connector "ConnectNats lib env" "nats_attempt lib env" "''NATS''"
  by unfold_locales (simp add: ConnectNats_def)

interpretation mongo_connector: connector "ConnectMongo lib env" "mongo_attempt lib env" "''Mongo''"
  by unfold_locales (simp add: ConnectMongo_def)

text \<open>Three attempts. Although \<open>retryCount\<close> is 5, each of the three \<open>Connect\<close>s makes at most three
  attempts, logged as numbers 1, 3 and 5, because the loop variable is incremented by the loop and by
  its body: it returns at the first success, sleeps five seconds after each failure, the last one
  included, and then gives up with a message that speaks of five attempts.\<close>

theorem connect_three_attempts:
  "ConnectRedis rlib env s = try_times 3 1 (gave_up ''Redis'') (redis_attempt rlib env) s
   \<and> ConnectNats nlib env t = try_times 3 1 (gave_up ''NATS'') (nats_attempt nlib env) t
   \<and> ConnectMongo mlib env u = try_times 3 1 (gave_up ''Mongo'') (mongo_attempt mlib env) u"
  by (intro conjI redis_connector.connect_three nats_connector.connect_three mongo_connector.connect_three)

end
