(* ===== verification/Services.thy ===== *)
theory Services
  imports Worker_Subscriber Connections
begin

text \<open>
  Start and stop of the services: \<open>internal/shared/shutdown.go\<close> and the \<open>main\<close> functions of
  \<open>cmd/worker\<close>, \<open>cmd/api\<close> and \<open>cmd/push\<close>.

  A cleanup function is a function on the state of the outside world, or nil. Each \<open>main\<close> is a chain of
  start steps: a step that fails cancels the context, runs the cleanups collected so far and returns; a step
  that succeeds appends its cleanup. \<open>running\<close> is what happens until the context of a started service is
  cancelled.
\<close>

section \<open>Shutdown\<close>

type_synonym 's cleanup = "('s \<Rightarrow> 's) option"

fun run_cleanups :: "'s cleanup list \<Rightarrow> 's \<Rightarrow> 's" where
  "run_cleanups [] s = s"
| "run_cleanups (None # fns) s = run_cleanups fns s"
| "run_cleanups (Some fn # fns) s = run_cleanups fns (fn s)"

definition WaitForShutdown :: "('s \<Rightarrow> 's) \<Rightarrow> 's cleanup list \<Rightarrow> 's \<Rightarrow> 's" where
  "WaitForShutdown wait cleanups s = run_cleanups cleanups (wait s)"

text \<open>One step of a \<open>main\<close>: \<open>x, err := start()\<close> with its error branch, then the rest.\<close>

definition start_step :: "('s \<Rightarrow> 's \<times> (go_error + 'c)) \<Rightarrow> ('c \<Rightarrow> 's cleanup list)
    \<Rightarrow> ('c \<Rightarrow> 's cleanup list \<Rightarrow> 's \<Rightarrow> 's) \<Rightarrow> 's cleanup list \<Rightarrow> 's \<Rightarrow> 's" where
  "start_step start cleanup rest cleanupFns s =
     (case start s of
        (s1, Inl err) \<Rightarrow> WaitForShutdown id cleanupFns s1
      | (s1, Inr c) \<Rightarrow> rest c (cleanupFns @ cleanup c) s1)"

text \<open>The result of a \<open>Connect\<close> without its log.\<close>

definition connected :: "'s \<times> nat list \<times> duration list \<times> (go_error + 'c) \<Rightarrow> 's \<times> (go_error + 'c)" where
  "connected r = (case r of (s, logged, sleeps, res) \<Rightarrow> (s, res))"

definition checked :: "'s \<times> go_error option \<Rightarrow> 's \<times> (go_error + unit)" where
  "checked r = (case r of (s, None) \<Rightarrow> (s, Inr ()) | (s, Some err) \<Rightarrow> (s, Inl err))"

section \<open>The worker\<close>

text \<open>The libraries of the service: the databases and NATS, the pool of goroutines, the server functions
  behind a JetStream context, and the subscribers' set-up, whose result is the cleanup that closes
  its stop channel.\<close>

record ('s, 'm, 'n, 'j, 'r, 'p, 'h) service_libs =
  mongo :: "('s, 'm) mongo_lib"
  nats :: "('s, 'n, 'j) nats_lib"
  redis_l :: "('s, 'r) redis_lib"
  jetstream_of :: "'j \<Rightarrow> ('s, 'h) jetstream"
  new_pool :: "nat \<Rightarrow> 's \<Rightarrow> 's \<times> (go_error + 'p)"
  release_pool :: "'p \<Rightarrow> 's \<Rightarrow> 's"

definition worker_streams :: "StreamConfig list" where
  "worker_streams =
     [\<lparr>StreamName = StreamESIRefresh,
       Subjects = [SubjectRefreshSystemIndexes, SubjectRefreshAdjustedPrices], MaxAge = 24 * 60 * minute\<rparr>]"

fun setup_subscribers :: "('j \<Rightarrow> 'r \<Rightarrow> 'p \<Rightarrow> 'n \<Rightarrow> 's \<Rightarrow> 's \<times> (go_error + 's cleanup)) list \<Rightarrow> 'j \<Rightarrow> 'r \<Rightarrow> 'p \<Rightarrow> 'n
    \<Rightarrow> ('s \<Rightarrow> 's) \<Rightarrow> 's cleanup list \<Rightarrow> 's \<Rightarrow> 's" where
  "setup_subscribers [] js rc pool conn running cleanupFns s = WaitForShutdown running cleanupFns s"
| "setup_subscribers (sub # subs) js rc pool conn running cleanupFns s =
     (case sub js rc pool conn s of
        (s1, Inl err) \<Rightarrow> WaitForShutdown id cleanupFns s1
      | (s1, Inr cleanup) \<Rightarrow> setup_subscribers subs js rc pool conn running (cleanupFns @ [cleanup]) s1)"

definition worker_main :: "('s, 'm, 'n, 'j, 'r, 'p, 'h) service_libs \<Rightarrow> environment
    \<Rightarrow> ('j \<Rightarrow> 'r \<Rightarrow> 'p \<Rightarrow> 'n \<Rightarrow> 's \<Rightarrow> 's \<times> (go_error + 's cleanup)) list \<Rightarrow> ('s \<Rightarrow> 's) \<Rightarrow> 's \<Rightarrow> 's" where
  "worker_main lib env subscribers running =
     start_step (\<lambda>s. connected (ConnectMongo (mongo lib) env s))
       (\<lambda>mongoClient. [Some (CleanupMongo (mongo lib) (Some mongoClient))]) (\<lambda>mongoClient.
     start_step (\<lambda>s. connected (ConnectJetStream (nats lib) env s))
       (\<lambda>(natsConn, js). [Some (CleanupNats (nats lib) (Some natsConn))]) (\<lambda>(natsConn, js).
     start_step (\<lambda>s. checked (EnsureStreams (jetstream_of lib js) worker_streams s)) (\<lambda>_. []) (\<lambda>_.
     start_step (\<lambda>s. connected (ConnectRedis (redis_l lib) env s))
       (\<lambda>redisClient. [Some (CleanupRedis (redis_l lib) (Some redisClient))]) (\<lambda>redisClient.
     start_step (new_pool lib 10) (\<lambda>pool. [Some (release_pool lib pool)]) (\<lambda>pool.
     setup_subscribers subscribers js redisClient pool natsConn running))))) []"

section \<open>The API and push services\<close>

text \<open>The servers run beside \<open>main\<close>; what they do is part of \<open>running\<close>.\<close>

definition api_main :: "('s, 'm, 'n, 'j, 'r, 'p, 'h) service_libs \<Rightarrow> environment \<Rightarrow> ('s \<Rightarrow> 's) \<Rightarrow> 's \<Rightarrow> 's" where
  "api_main lib env running =
     start_step (\<lambda>s. connected (ConnectRedis (redis_l lib) env s))
       (\<lambda>redisClient. [Some (CleanupRedis (redis_l lib) (Some redisClient))]) (\<lambda>redisClient.
     start_step (\<lambda>s. connected (ConnectMongo (mongo lib) env s))
       (\<lambda>mongoClient. [Some (CleanupMongo (mongo lib) (Some mongoClient))]) (\<lambda>mongoClient.
     start_step (\<lambda>s. connected (ConnectNats (nats lib) env s))
       (\<lambda>natsConn. [Some (CleanupNats (nats lib) (Some natsConn))]) (\<lambda>natsConn.
     WaitForShutdown running))) []"

definition push_main :: "('s, 'm, 'n, 'j, 'r, 'p, 'h) service_libs \<Rightarrow> environment \<Rightarrow> ('s \<Rightarrow> 's) \<Rightarrow> 's \<Rightarrow> 's" where
  "push_main lib env running =
     start_step (\<lambda>s. connected (ConnectMongo (mongo lib) env s))
       (\<lambda>mongoClient. [Some (CleanupMongo (mongo lib) (Some mongoClient))]) (\<lambda>mongoClient.
     start_step (\<lambda>s. connected (ConnectNats (nats lib) env s))
       (\<lambda>natsConn. [Some (CleanupNats (nats lib) (Some natsConn))]) (\<lambda>natsConn.
     WaitForShutdown running)) []"

section \<open>What a shutdown does\<close>

lemma start_step_ok:
  "start s = (s1, Inr c) \<Longrightarrow> start_step start cleanup rest fns s = rest c (fns @ cleanup c) s1"
  by (simp add: start_step_def)

lemma start_step_failed:
  "start s = (s1, Inl err) \<Longrightarrow> start_step start cleanup rest fns s = run_cleanups fns s1"
  by (simp add: start_step_def WaitForShutdown_def)

text \<open>C29: the worker shuts down in the order in which it started. When every step of the start succeeds, the
  connections to Mongo, NATS and Redis are closed first, then the pool of running tasks is released, and the
  subscribers stop fetching last: tasks that still run, and the fetch loops, have lost NATS and Redis by then.\<close>

theorem worker_shutdown_order:
  assumes "ConnectMongo (mongo lib) env s = (s1, l1, w1, Inr m)"
    and "ConnectJetStream (nats lib) env s1 = (s2, l2, w2, Inr (conn, js))"
    and "EnsureStreams (jetstream_of lib js) worker_streams s2 = (s3, None)"
    and "ConnectRedis (redis_l lib) env s3 = (s4, l4, w4, Inr rc)"
    and "new_pool lib 10 s4 = (s5, Inr pool)"
    and "sub1 js rc pool conn s5 = (s6, Inr (Some stop1))" and "sub2 js rc pool conn s6 = (s7, Inr (Some stop2))"
  shows "worker_main lib env [sub1, sub2] running s =
    stop2 (stop1 (release_pool lib pool
      (CleanupRedis (redis_l lib) (Some rc) (CleanupNats (nats lib) (Some conn)
        (CleanupMongo (mongo lib) (Some m) (running s7))))))"
  using assms by (simp add: worker_main_def start_step_def connected_def checked_def WaitForShutdown_def)

text \<open>A start that fails releases what was acquired, in the order of acquisition.\<close>

lemma worker_start_failed:
  assumes "ConnectMongo (mongo lib) env s = (s1, l1, w1, Inr m)"
    and "ConnectJetStream (nats lib) env s1 = (s2, l2, w2, Inr (conn, js))"
    and "EnsureStreams (jetstream_of lib js) worker_streams s2 = (s3, None)"
  shows "ConnectRedis (redis_l lib) env s3 = (s4, l4, w4, Inl err) \<Longrightarrow>
      worker_main lib env subs running s
        = CleanupNats (nats lib) (Some conn) (CleanupMongo (mongo lib) (Some m) s4)"
    and "ConnectRedis (redis_l lib) env s3 = (s4, l4, w4, Inr rc) \<Longrightarrow> new_pool lib 10 s4 = (s5, Inl err) \<Longrightarrow>
      worker_main lib env subs running s
        = CleanupRedis (redis_l lib) (Some rc) (CleanupNats (nats lib) (Some conn)
            (CleanupMongo (mongo lib) (Some m) s5))"
  using assms by (simp_all add: worker_main_def start_step_def connected_def checked_def WaitForShutdown_def)

section \<open>Witness\<close>

text \<open>Libraries that always succeed and log what they are asked to do.\<close>

definition log_libs :: "(string list, unit, unit, unit, unit, unit, ConsumerConfig) service_libs" where
  "log_libs =
     \<lparr>mongo = \<lparr>mongo_Connect = (\<lambda>_ s. (s, Inr ())), mongo_Disconnect = (\<lambda>_ s. (s @ [''mongo''], None))\<rparr>,
      nats = \<lparr>nats_Connect = (\<lambda>_ _ s. (s, Inr ())), nats_Drain = (\<lambda>_ s. (s @ [''drain''], None)),
              nats_Close = (\<lambda>_ s. s @ [''nats'']), jetstream_New = (\<lambda>_. Inr ())\<rparr>,
      redis_l = \<lparr>redis_NewClient = (\<lambda>_ s. (s, ())), redis_Ping = (\<lambda>_ s. (s, None)),
                redis_Close = (\<lambda>_ s. (s @ [''redis''], None))\<rparr>,
      jetstream_of = (\<lambda>_. sample_js), new_pool = (\<lambda>_ s. (s, Inr ())), release_pool = (\<lambda>_ s. s @ [''pool''])\<rparr>"

definition log_subscriber :: "string \<Rightarrow> unit \<Rightarrow> unit \<Rightarrow> unit \<Rightarrow> unit \<Rightarrow> string list
    \<Rightarrow> string list \<times> (go_error + string list cleanup)" where
  "log_subscriber name js rc pool conn s = (s, Inr (Some (\<lambda>t. t @ [name])))"

theorem worker_shutdown_order_witness:
  "\<exists>earlier. worker_main log_libs (\<lambda>_. []) [log_subscriber ''sub1'', log_subscriber ''sub2''] id [] =
     earlier @ [''mongo'', ''drain'', ''nats'', ''redis'', ''pool'', ''sub1'', ''sub2'']"
proof -
  let ?env = "\<lambda>_. [] :: char list"
  have m: "ConnectMongo (mongo log_libs) ?env [] = ([], [1], [], Inr ())"
    by (simp add: ConnectMongo_def connect_loop.simps retryCount_def mongo_attempt_def log_libs_def)
  have n: "ConnectJetStream (nats log_libs) ?env [] = ([], [1], [], Inr ((), ()))"
    by (simp add: ConnectJetStream_def GetJetStream_def ConnectNats_def connect_loop.simps retryCount_def
        nats_attempt_def log_libs_def)
  have e: "EnsureStreams (jetstream_of log_libs ()) worker_streams [] = (fst (EnsureStreams sample_js worker_streams []), None)"
    by (simp add: log_libs_def worker_streams_def sample_js_def)
  let ?str = "fst (EnsureStreams sample_js worker_streams [])"
  have r: "ConnectRedis (redis_l log_libs) ?env ?str = (?str, [1], [], Inr ())"
    by (simp add: ConnectRedis_def connect_loop.simps retryCount_def redis_attempt_def log_libs_def)
  have p: "new_pool log_libs 10 ?str = (?str, Inr ())" by (simp add: log_libs_def)
  note order = worker_shutdown_order [where lib = log_libs and env = ?env and s = "[]" and ?s1.0 = "[]" and m = "()"
      and ?l1.0 = "[1]" and ?w1.0 = "[]" and ?s2.0 = "[]" and ?l2.0 = "[1]" and ?w2.0 = "[]" and conn = "()" and js = "()"
      and ?s3.0 = ?str and ?s4.0 = ?str and ?l4.0 = "[1]" and ?w4.0 = "[]" and rc = "()" and ?s5.0 = ?str and pool = "()"
      and ?sub1.0 = "log_subscriber ''sub1''" and ?s6.0 = ?str and ?stop1.0 = "\<lambda>t. t @ [''sub1'']"
      and ?sub2.0 = "log_subscriber ''sub2''" and ?s7.0 = ?str and ?stop2.0 = "\<lambda>t. t @ [''sub2'']" and running = id,
      OF m n e r p log_subscriber_def log_subscriber_def]
  show ?thesis unfolding order
    by (intro exI [of _ ?str]) (simp add: log_libs_def CleanupRedis_def CleanupNats_def CleanupMongo_def)
qed

end
