(* ===== verification/Task_Scheduler.thy ===== *)
theory Task_Scheduler
  imports Nats_Core Redis_Core
begin

text \<open>
  The scheduler service: \<open>cmd/scheduler/handler.go\<close> (cron jobs, one-time jobs and their persistence,
  the schedule requests), \<open>cmd/scheduler/registry.go\<close>, \<open>cmd/scheduler/esi\<close> (the two handlers) and
  \<open>internal/scheduler\<close> (publishing).

  gocron, Redis, JetStream and the random source are outside: gocron is a state \<open>'g\<close> with the
  functions called on it, and \<open>gocron_ok\<close> states what it documents. A job's callback is a value
  (\<open>job_task\<close>) with the variables it captures; \<open>run_job\<close> is its body. \<open>'j\<close> is the state of the
  JetStream server, \<open>'r\<close> that of Redis.
\<close>

section \<open>Data\<close>

type_synonym raw_json = string

record ScheduleRequest =
  ReqJobID :: string
  ReqTaskType :: string
  ReqRunAt :: int
  ReqData :: raw_json

record OneTimeJob =
  JobID :: string
  TaskType :: string
  RunAt :: int
  JobData :: raw_json

type_synonym 'j task_handler = "raw_json \<Rightarrow> 'j \<Rightarrow> 'j \<times> go_error option"

datatype job_definition = CronJob string | DurationJob duration

datatype 'j job_task =
    CronTask "'j task_handler"
  | OneTimeTask "'j task_handler" string string raw_json

type_synonym job_id = nat

record ('g, 'j) gocron =
  new_job :: "job_definition \<Rightarrow> 'j job_task \<Rightarrow> string list \<Rightarrow> 'g \<Rightarrow> 'g \<times> (go_error + job_id)"
  remove_job :: "job_id \<Rightarrow> 'g \<Rightarrow> 'g \<times> go_error option"
  job_tags :: "'g \<Rightarrow> string list list"
  shutdown :: "'g \<Rightarrow> 'g"

record ('g, 'r, 'j) TaskScheduler =
  cron :: 'g
  redis :: "'r option"
  js_state :: 'j
  handlers :: "string \<rightharpoonup> 'j task_handler"
  oneTimeJobs :: "string \<rightharpoonup> job_id"
  stopped :: bool

definition NewTaskScheduler :: "'g \<Rightarrow> 'r option \<Rightarrow> 'j \<Rightarrow> ('g, 'r, 'j) TaskScheduler" where
  "NewTaskScheduler g r j =
     \<lparr>cron = g, redis = r, js_state = j, handlers = Map.empty, oneTimeJobs = Map.empty, stopped = False\<rparr>"

definition requestableTaskTypes :: "string list" where
  "requestableTaskTypes = [''refreshSystemIndexes'', ''refreshAdjustedPrices'']"

section \<open>Publishing\<close>

text \<open>\<open>publish subject data\<close> is \<open>js.Publish\<close>; marshalling is an argument but for the empty message.\<close>

type_synonym 'j publisher = "string \<Rightarrow> string \<Rightarrow> 'j \<Rightarrow> 'j \<times> go_error option"

definition PublishScheduleRequest :: "'j publisher \<Rightarrow> (ScheduleRequest \<Rightarrow> go_error + string) \<Rightarrow> ScheduleRequest
    \<Rightarrow> 'j \<Rightarrow> 'j \<times> go_error option" where
  "PublishScheduleRequest publish marshal req j =
     (case marshal req of
        Inl err \<Rightarrow> (j, Some err)
      | Inr reqData \<Rightarrow> publish SubjectSchedulerSchedule reqData j)"

text \<open>\<open>data\<close> is nil or a value with its marshaller.\<close>

definition PublishScheduleRequestWithData :: "'j publisher \<Rightarrow> (ScheduleRequest \<Rightarrow> go_error + string)
    \<Rightarrow> ('d \<Rightarrow> go_error + raw_json) \<Rightarrow> string \<Rightarrow> int \<Rightarrow> 'd option \<Rightarrow> 'j \<Rightarrow> 'j \<times> go_error option" where
  "PublishScheduleRequestWithData publish marshal marshalData taskType runAt data j =
     (case (case data of None \<Rightarrow> Inr [] | Some d \<Rightarrow> marshalData d) of
        Inl err \<Rightarrow> (j, Some err)
      | Inr rawData \<Rightarrow>
          PublishScheduleRequest publish marshal
            \<lparr>ReqJobID = [], ReqTaskType = taskType, ReqRunAt = runAt, ReqData = rawData\<rparr> j)"

definition PublishEmptyMessage :: "'j publisher \<Rightarrow> string \<Rightarrow> 'j \<Rightarrow> 'j \<times> go_error option" where
  "PublishEmptyMessage publish subject j = publish subject ''{}'' j"

record TaskMessage =
  MsgTaskType :: string
  MsgData :: raw_json

definition PublishTaskMessage :: "'j publisher \<Rightarrow> (TaskMessage \<Rightarrow> go_error + string) \<Rightarrow> ('d \<Rightarrow> go_error + raw_json)
    \<Rightarrow> string \<Rightarrow> string \<Rightarrow> 'd option \<Rightarrow> 'j \<Rightarrow> 'j \<times> go_error option" where
  "PublishTaskMessage publish marshal marshalData subject taskType data j =
     (case (case data of None \<Rightarrow> Inr [] | Some d \<Rightarrow> marshalData d) of
        Inl err \<Rightarrow> (j, Some err)
      | Inr rawData \<Rightarrow>
          (case marshal \<lparr>MsgTaskType = taskType, MsgData = rawData\<rparr> of
             Inl err \<Rightarrow> (j, Some err)
           | Inr msgData \<Rightarrow> publish subject msgData j))"

definition industry_handler :: "'j publisher \<Rightarrow> 'j task_handler" where
  "industry_handler publish data = PublishEmptyMessage publish SubjectRefreshSystemIndexes"

definition prices_handler :: "'j publisher \<Rightarrow> 'j task_handler" where
  "prices_handler publish data = PublishEmptyMessage publish SubjectRefreshAdjustedPrices"

section \<open>Handlers and cron jobs\<close>

definition RegisterHandler :: "string \<Rightarrow> 'j task_handler \<Rightarrow> ('g, 'r, 'j) TaskScheduler \<Rightarrow> ('g, 'r, 'j) TaskScheduler" where
  "RegisterHandler taskType handler s = s\<lparr>handlers := (handlers s)(taskType \<mapsto> handler)\<rparr>"

fun has_tag :: "string \<Rightarrow> string list list \<Rightarrow> bool" where
  "has_tag taskType [] = False"
| "has_tag taskType (tags # rest) =
     (if list_ex (\<lambda>tag. tag = taskType \<or> tag = ''cron:'' @ taskType) tags then True
      else has_tag taskType rest)"

definition HasScheduledJob :: "('g, 'j) gocron \<Rightarrow> string \<Rightarrow> ('g, 'r, 'j) TaskScheduler \<Rightarrow> bool" where
  "HasScheduledJob gc taskType s = has_tag taskType (job_tags gc (cron s))"

definition ScheduleCronJob :: "('g, 'j) gocron \<Rightarrow> string \<Rightarrow> string \<Rightarrow> ('g, 'r, 'j) TaskScheduler
    \<Rightarrow> ('g, 'r, 'j) TaskScheduler \<times> go_error option" where
  "ScheduleCronJob gc cronExpr taskType s =
     (case handlers s taskType of
        None \<Rightarrow> (s, None)
      | Some handler \<Rightarrow>
          (case new_job gc (CronJob cronExpr) (CronTask handler) [''cron:'' @ taskType] (cron s) of
             (g, Inl err) \<Rightarrow> (s\<lparr>cron := g\<rparr>, Some err)
           | (g, Inr job) \<Rightarrow> (s\<lparr>cron := g\<rparr>, None)))"

section \<open>One-time jobs\<close>

definition oneTimeJobKey :: "string \<Rightarrow> string" where
  "oneTimeJobKey jobID = ''scheduler:onetime:'' @ jobID"

definition saveOneTimeJobToRedis :: "'r redis_client \<Rightarrow> (OneTimeJob \<Rightarrow> go_error + string) \<Rightarrow> OneTimeJob \<Rightarrow> 'r
    \<Rightarrow> 'r \<times> go_error option" where
  "saveOneTimeJobToRedis rc marshal job r =
     (case marshal job of
        Inl err \<Rightarrow> (r, Some err)
      | Inr data \<Rightarrow> redis_Set rc (oneTimeJobKey (JobID job)) data 0 r)"

text \<open>\<open>now\<close> is read first, \<open>now2\<close> by \<open>time.Until\<close>.\<close>

definition ScheduleOneTimeJob :: "('g, 'j) gocron \<Rightarrow> 'r redis_client \<Rightarrow> (OneTimeJob \<Rightarrow> go_error + string)
    \<Rightarrow> time \<Rightarrow> time \<Rightarrow> string \<Rightarrow> string \<Rightarrow> time \<Rightarrow> raw_json \<Rightarrow> ('g, 'r, 'j) TaskScheduler
    \<Rightarrow> ('g, 'r, 'j) TaskScheduler \<times> go_error option" where
  "ScheduleOneTimeJob gc rc marshal now now2 jobID taskType runAt0 data s =
     (if taskType \<notin> set requestableTaskTypes then
        (s, Some (ErrText (''task type '' @ taskType @ '' is not requestable'')))
      else case handlers s taskType of
        None \<Rightarrow> (s, Some (ErrText (''no handler registered for task type: '' @ taskType)))
      | Some handler \<Rightarrow>
          (let runAt = (if \<not> now < runAt0 then time_add now (5 * second) else runAt0);
               d = time_sub runAt now2;
               delay = (if d < 0 then 5 * second else d)
           in case new_job gc (DurationJob delay) (OneTimeTask handler jobID taskType data)
                     [''onetime:'' @ jobID, ''task:'' @ taskType] (cron s) of
                (g, Inl err) \<Rightarrow> (s\<lparr>cron := g\<rparr>, Some (ErrWrap ''failed to schedule one-time job: '' err))
              | (g, Inr job) \<Rightarrow>
                  (let s1 = s\<lparr>cron := g, oneTimeJobs := (oneTimeJobs s)(jobID \<mapsto> job)\<rparr>
                   in case redis s1 of
                        None \<Rightarrow> (s1, None)
                      | Some r \<Rightarrow>
                          (s1\<lparr>redis := Some (fst (saveOneTimeJobToRedis rc marshal
                             \<lparr>JobID = jobID, TaskType = taskType, RunAt = unix_milli runAt, JobData = data\<rparr> r))\<rparr>,
                           None))))"

definition removeOneTimeJob :: "('g, 'j) gocron \<Rightarrow> 'r redis_client \<Rightarrow> string \<Rightarrow> ('g, 'r, 'j) TaskScheduler
    \<Rightarrow> ('g, 'r, 'j) TaskScheduler" where
  "removeOneTimeJob gc rc jobID s =
     (let s1 = (case oneTimeJobs s jobID of
                  Some job \<Rightarrow> s\<lparr>cron := fst (remove_job gc job (cron s)),
                                oneTimeJobs := (oneTimeJobs s)(jobID := None)\<rparr>
                | None \<Rightarrow> s)
      in case redis s1 of
           Some r \<Rightarrow> s1\<lparr>redis := Some (fst (redis_Del rc (oneTimeJobKey jobID) r))\<rparr>
         | None \<Rightarrow> s1)"

text \<open>What gocron runs when a job is due; errors of the handler are logged.\<close>

fun run_job :: "('g, 'j) gocron \<Rightarrow> 'r redis_client \<Rightarrow> 'j job_task \<Rightarrow> ('g, 'r, 'j) TaskScheduler
    \<Rightarrow> ('g, 'r, 'j) TaskScheduler" where
  "run_job gc rc (CronTask handler) s = s\<lparr>js_state := fst (handler [] (js_state s))\<rparr>"
| "run_job gc rc (OneTimeTask handler jobID taskType data) s =
     removeOneTimeJob gc rc jobID (s\<lparr>js_state := fst (handler data (js_state s))\<rparr>)"

section \<open>Restoring\<close>

text \<open>The scan does not end when the server never returns cursor 0.\<close>

partial_function (option) scan_keys :: "'r redis_client \<Rightarrow> uint64 \<Rightarrow> string list \<Rightarrow> 'r
    \<Rightarrow> ('r \<times> (go_error + string list)) option" where
  "scan_keys rc cursor keys r =
     (case redis_Scan rc cursor ''scheduler:onetime:*'' 100 r of
        (r1, Inl err) \<Rightarrow> Some (r1, Inl err)
      | (r1, Inr (scanKeys, cursor1)) \<Rightarrow>
          if cursor1 = 0 then Some (r1, Inr (keys @ scanKeys))
          else scan_keys rc cursor1 (keys @ scanKeys) r1)"

text \<open>One round of the loop over the keys. \<open>now\<close> was read before the loop.\<close>

definition restore_key :: "('g, 'j) gocron \<Rightarrow> 'r redis_client \<Rightarrow> (OneTimeJob \<Rightarrow> go_error + string)
    \<Rightarrow> (string \<Rightarrow> go_error + OneTimeJob) \<Rightarrow> time \<Rightarrow> time \<times> time \<Rightarrow> string \<Rightarrow> 'r \<Rightarrow> ('g, 'r, 'j) TaskScheduler
    \<Rightarrow> ('g, 'r, 'j) TaskScheduler" where
  "restore_key gc rc marshal unmarshal now clk key r0 s =
     (case redis_Get rc key r0 of
        (r, Inl err) \<Rightarrow> s\<lparr>redis := Some r\<rparr>
      | (r, Inr data) \<Rightarrow>
          (let discard = s\<lparr>redis := Some (fst (redis_Del rc key r))\<rparr>
           in case unmarshal data of
                Inl err \<Rightarrow> discard
              | Inr job \<Rightarrow>
                  (let runAt = from_unix_milli (RunAt job)
                   in if \<not> now < runAt then discard
                      else if handlers s (TaskType job) = None then discard
                      else if TaskType job \<notin> set requestableTaskTypes then discard
                      else case ScheduleOneTimeJob gc rc marshal (fst clk) (snd clk) (JobID job)
                                  (TaskType job) runAt (JobData job) (s\<lparr>redis := Some r\<rparr>) of
                             (s1, None) \<Rightarrow> s1
                           | (s1, Some err) \<Rightarrow>
                               s1\<lparr>redis := map_option (\<lambda>r1. fst (redis_Del rc key r1)) (redis s1)\<rparr>)))"

fun restore_keys :: "('g, 'j) gocron \<Rightarrow> 'r redis_client \<Rightarrow> (OneTimeJob \<Rightarrow> go_error + string)
    \<Rightarrow> (string \<Rightarrow> go_error + OneTimeJob) \<Rightarrow> time \<Rightarrow> (string \<times> time \<times> time) list \<Rightarrow> ('g, 'r, 'j) TaskScheduler
    \<Rightarrow> ('g, 'r, 'j) TaskScheduler" where
  "restore_keys gc rc marshal unmarshal now [] s = s"
| "restore_keys gc rc marshal unmarshal now ((key, clk) # rest) s =
     restore_keys gc rc marshal unmarshal now rest
       (case redis s of None \<Rightarrow> s | Some r \<Rightarrow> restore_key gc rc marshal unmarshal now clk key r s)"

text \<open>\<open>clks i\<close> are the readings of the clock in the scheduling of the \<open>i\<close>-th key.\<close>

definition RestoreOneTimeJobs :: "('g, 'j) gocron \<Rightarrow> 'r redis_client \<Rightarrow> (OneTimeJob \<Rightarrow> go_error + string)
    \<Rightarrow> (string \<Rightarrow> go_error + OneTimeJob) \<Rightarrow> time \<Rightarrow> (nat \<Rightarrow> time \<times> time) \<Rightarrow> ('g, 'r, 'j) TaskScheduler
    \<Rightarrow> (('g, 'r, 'j) TaskScheduler \<times> go_error option) option" where
  "RestoreOneTimeJobs gc rc marshal unmarshal now clks s =
     (case redis s of
        None \<Rightarrow> Some (s, None)
      | Some r \<Rightarrow>
          (case scan_keys rc 0 [] r of
             None \<Rightarrow> None
           | Some (r1, Inl err) \<Rightarrow> Some (s\<lparr>redis := Some r1\<rparr>, Some err)
           | Some (r1, Inr keys) \<Rightarrow>
               Some (restore_keys gc rc marshal unmarshal now (zip keys (map clks [0..<length keys]))
                       (s\<lparr>redis := Some r1\<rparr>), None)))"

section \<open>Schedule requests\<close>

definition hex_lower :: "nat \<Rightarrow> char" where
  "hex_lower d = (if d < 10 then char_of (48 + d) else char_of (87 + d))"

fun hex_encode :: "8 word list \<Rightarrow> string" where
  "hex_encode [] = []"
| "hex_encode (b # bs) = [hex_lower (unat b div 16), hex_lower (unat b mod 16)] @ hex_encode bs"

text \<open>\<open>random\<close> is what \<open>rand.Read\<close> gives for 8 bytes.\<close>

definition generateJobID :: "go_error + 8 word list \<Rightarrow> time \<Rightarrow> go_error + string" where
  "generateJobID random now =
     (case random of
        Inl err \<Rightarrow> Inl err
      | Inr randomBytes \<Rightarrow> Inr (format_int (i64 now) @ ''-'' @ hex_encode randomBytes))"

record request_env =
  random :: "go_error + 8 word list"
  id_now :: time
  request_now :: time
  sched_now :: time
  sched_now2 :: time

definition processScheduleRequest :: "('g, 'j) gocron \<Rightarrow> 'r redis_client \<Rightarrow> (OneTimeJob \<Rightarrow> go_error + string)
    \<Rightarrow> (string \<Rightarrow> go_error + ScheduleRequest) \<Rightarrow> request_env \<Rightarrow> js_msg \<Rightarrow> ('g, 'r, 'j) TaskScheduler
    \<Rightarrow> js_msg \<times> ('g, 'r, 'j) TaskScheduler" where
  "processScheduleRequest gc rc marshal unmarshal env msg s =
     (case unmarshal (Data msg) of
        Inl err \<Rightarrow> (fst (wrapper_call Nak msg), s)
      | Inr req \<Rightarrow>
          (case (if ReqJobID req = [] then generateJobID (random env) (id_now env) else Inr (ReqJobID req)) of
             Inl err \<Rightarrow> (fst (wrapper_call Nak msg), s)
           | Inr jobID \<Rightarrow>
               (let runAt = from_unix_milli (ReqRunAt req)
                in if \<not> request_now env < runAt then (fst (wrapper_call Ack msg), s)
                   else if handlers s (ReqTaskType req) = None then (fst (wrapper_call Ack msg), s)
                   else case ScheduleOneTimeJob gc rc marshal (sched_now env) (sched_now2 env) jobID
                               (ReqTaskType req) runAt (ReqData req) s of
                          (s1, Some err) \<Rightarrow> (fst (wrapper_call Nak msg), s1)
                        | (s1, None) \<Rightarrow> (fst (wrapper_call Ack msg), s1))))"

text \<open>The processing loop on one fetched batch.\<close>

fun process_batch :: "('g, 'j) gocron \<Rightarrow> 'r redis_client \<Rightarrow> (OneTimeJob \<Rightarrow> go_error + string)
    \<Rightarrow> (string \<Rightarrow> go_error + ScheduleRequest) \<Rightarrow> (js_msg \<times> request_env) list \<Rightarrow> ('g, 'r, 'j) TaskScheduler
    \<Rightarrow> js_msg list \<times> ('g, 'r, 'j) TaskScheduler" where
  "process_batch gc rc marshal unmarshal [] s = ([], s)"
| "process_batch gc rc marshal unmarshal ((msg, env) # rest) s =
     (let (msg1, s1) = processScheduleRequest gc rc marshal unmarshal env
                         (fst (wrapper_call InProgress msg)) s;
          (msgs, s2) = process_batch gc rc marshal unmarshal rest s1
      in (msg1 # msgs, s2))"

section \<open>Start and stop\<close>

definition scheduler_stream :: StreamConfig where
  "scheduler_stream = \<lparr>StreamName = StreamScheduler, Subjects = [SubjectSchedulerSchedule],
     MaxAge = 24 * 60 * minute\<rparr>"

definition scheduler_consumer :: ConsumerConfig where
  "scheduler_consumer = \<lparr>Durable = ConsumerScheduler, FilterSubject = [], DeliverPolicy = DeliverAll,
     AckPolicy = AckExplicit, AckWait = 30 * second, MaxDeliver = 5\<rparr>"

text \<open>\<open>js\<close> is nil or the JetStream functions; the result is the consumer of the processing loop. The
  flag of \<open>js_stream\<close> is not looked at here, only the error.\<close>

definition Start :: "('g \<Rightarrow> 'g) \<Rightarrow> ('j, 'h) jetstream option \<Rightarrow> ('g, 'r, 'j) TaskScheduler
    \<Rightarrow> ('g, 'r, 'j) TaskScheduler \<times> (go_error + 'h option)" where
  "Start startCron js s0 =
     (let s = s0\<lparr>cron := startCron (cron s0)\<rparr>
      in case js of
           None \<Rightarrow> (s, Inr None)
         | Some jsx \<Rightarrow>
             (case EnsureStreams jsx [scheduler_stream] (js_state s) of
                (j1, Some err) \<Rightarrow>
                  (s\<lparr>js_state := j1\<rparr>, Inl (ErrWrap ''failed to ensure scheduler stream: '' err))
              | (j1, None) \<Rightarrow>
                  (case js_stream jsx StreamScheduler j1 of
                     Inl err \<Rightarrow> (s\<lparr>js_state := j1\<rparr>, Inl (ErrWrap ''failed to get scheduler stream: '' err))
                   | Inr _ \<Rightarrow>
                       (case GetOrCreateConsumer jsx StreamScheduler scheduler_consumer j1 of
                          (j2, Inl err) \<Rightarrow>
                            (s\<lparr>js_state := j2\<rparr>, Inl (ErrWrap ''failed to create scheduler consumer: '' err))
                        | (j2, Inr h) \<Rightarrow> (s\<lparr>js_state := j2\<rparr>, Inr (Some h))))))"

definition Stop :: "('g, 'j) gocron \<Rightarrow> ('g, 'r, 'j) TaskScheduler \<Rightarrow> ('g, 'r, 'j) TaskScheduler" where
  "Stop gc s = s\<lparr>stopped := True, cron := shutdown gc (cron s)\<rparr>"

section \<open>The registry\<close>

text \<open>\<open>ScheduleIndustrySystemsRefresh\<close> and \<open>ScheduleAdjustedPricesRefresh\<close> register their handlers
  through the \<open>Scheduler\<close> interface.\<close>

definition ScheduleIndustrySystemsRefresh :: "(string \<Rightarrow> 'j task_handler \<Rightarrow> 's \<Rightarrow> 's) \<Rightarrow> 'j publisher \<Rightarrow> 's \<Rightarrow> 's" where
  "ScheduleIndustrySystemsRefresh register publish =
     register ''refreshSystemIndexes'' (industry_handler publish)"

definition ScheduleAdjustedPricesRefresh :: "(string \<Rightarrow> 'j task_handler \<Rightarrow> 's \<Rightarrow> 's) \<Rightarrow> 'j publisher \<Rightarrow> 's \<Rightarrow> 's" where
  "ScheduleAdjustedPricesRefresh register publish =
     register ''refreshAdjustedPrices'' (prices_handler publish)"

text \<open>The part of \<open>JobRegistry.Start\<close> before the scheduler starts: handlers, cron jobs, restored jobs.
  Errors of the cron jobs and of the restoring are logged.\<close>

definition registry_setup :: "('g, 'j) gocron \<Rightarrow> 'r redis_client \<Rightarrow> (OneTimeJob \<Rightarrow> go_error + string)
    \<Rightarrow> (string \<Rightarrow> go_error + OneTimeJob) \<Rightarrow> 'j publisher \<Rightarrow> time \<Rightarrow> (nat \<Rightarrow> time \<times> time)
    \<Rightarrow> ('g, 'r, 'j) TaskScheduler \<Rightarrow> ('g, 'r, 'j) TaskScheduler option" where
  "registry_setup gc rc marshal unmarshal publish now clks s0 =
     (let s1 = ScheduleIndustrySystemsRefresh RegisterHandler publish s0;
          s2 = ScheduleAdjustedPricesRefresh RegisterHandler publish s1;
          s3 = fst (ScheduleCronJob gc ''*/5 * * * *'' ''refreshSystemIndexes'' s2);
          s4 = fst (ScheduleCronJob gc ''*/5 * * * *'' ''refreshAdjustedPrices'' s3)
      in map_option fst (RestoreOneTimeJobs gc rc marshal unmarshal now clks s4))"

section \<open>What gocron promises\<close>

text \<open>\<open>jobs\<close> are the jobs it holds: a new job has a fresh identifier, removing forgets one job, a
  failed call changes nothing. A job runs again and again at its interval until it is removed.\<close>

definition gocron_ok :: "('g, 'j) gocron \<Rightarrow> ('g \<Rightarrow> job_id \<rightharpoonup> job_definition \<times> 'j job_task) \<Rightarrow> bool" where
  "gocron_ok gc jobs \<longleftrightarrow>
     (\<forall>def task tags g. case new_job gc def task tags g of
          (g1, Inr i) \<Rightarrow> jobs g i = None \<and> jobs g1 = (jobs g)(i \<mapsto> (def, task))
        | (g1, Inl err) \<Rightarrow> jobs g1 = jobs g)
   \<and> (\<forall>i g. case remove_job gc i g of
          (g1, None) \<Rightarrow> jobs g1 = (jobs g)(i := None)
        | (g1, Some err) \<Rightarrow> jobs g i = None \<and> jobs g1 = jobs g)"

lemma gocron_new:
  assumes "gocron_ok gc jobs" and "new_job gc def task tags g = (g1, Inr i)"
  shows "jobs g i = None" and "jobs g1 = (jobs g)(i \<mapsto> (def, task))"
proof -
  have "case new_job gc def task tags g of
          (g1, Inr i) \<Rightarrow> jobs g i = None \<and> jobs g1 = (jobs g)(i \<mapsto> (def, task))
        | (g1, Inl err) \<Rightarrow> jobs g1 = jobs g"
    by (rule assms(1) [unfolded gocron_ok_def, THEN conjunct1, THEN spec, THEN spec, THEN spec, THEN spec])
  then show "jobs g i = None" and "jobs g1 = (jobs g)(i \<mapsto> (def, task))" by (simp_all add: assms(2))
qed

lemma gocron_new_failed:
  assumes "gocron_ok gc jobs" and "new_job gc def task tags g = (g1, Inl err)"
  shows "jobs g1 = jobs g"
proof -
  have "case new_job gc def task tags g of
          (g1, Inr i) \<Rightarrow> jobs g i = None \<and> jobs g1 = (jobs g)(i \<mapsto> (def, task))
        | (g1, Inl err) \<Rightarrow> jobs g1 = jobs g"
    by (rule assms(1) [unfolded gocron_ok_def, THEN conjunct1, THEN spec, THEN spec, THEN spec, THEN spec])
  then show ?thesis by (simp add: assms(2))
qed

lemma gocron_remove:
  assumes "gocron_ok gc jobs"
  shows "jobs (fst (remove_job gc i g)) = (jobs g)(i := None)"
proof -
  have "case remove_job gc i g of
          (g1, None) \<Rightarrow> jobs g1 = (jobs g)(i := None)
        | (g1, Some err) \<Rightarrow> jobs g i = None \<and> jobs g1 = jobs g"
    by (rule assms [unfolded gocron_ok_def, THEN conjunct2, THEN spec, THEN spec])
  then show ?thesis by (auto split: prod.splits option.splits)
qed

section \<open>One-time jobs and their bookkeeping\<close>

lemma ScheduleOneTimeJob_ok:
  assumes "ScheduleOneTimeJob gc rc marshal now now2 jobID taskType runAt data s = (s', None)"
  obtains h delay g i where "taskType \<in> set requestableTaskTypes" "handlers s taskType = Some h"
    "new_job gc (DurationJob delay) (OneTimeTask h jobID taskType data)
       [''onetime:'' @ jobID, ''task:'' @ taskType] (cron s) = (g, Inr i)"
    "cron s' = g" "oneTimeJobs s' = (oneTimeJobs s)(jobID \<mapsto> i)" "handlers s' = handlers s"
    "js_state s' = js_state s" "0 \<le> delay"
    "redis s' = map_option (\<lambda>r. fst (saveOneTimeJobToRedis rc marshal
        \<lparr>JobID = jobID, TaskType = taskType,
         RunAt = unix_milli (if now < runAt then runAt else time_add now (5 * second)), JobData = data\<rparr> r)) (redis s)"
    "now < runAt \<Longrightarrow> now2 \<le> runAt \<Longrightarrow> delay = time_sub runAt now2"
proof -
  let ?runAt = "if \<not> now < runAt then time_add now (5 * second) else runAt"
  let ?delay = "if time_sub ?runAt now2 < 0 then 5 * second else time_sub ?runAt now2"
  have req: "taskType \<in> set requestableTaskTypes"
    using assms by (auto simp: ScheduleOneTimeJob_def split: if_splits)
  then obtain h where h: "handlers s taskType = Some h"
    using assms by (auto simp: ScheduleOneTimeJob_def split: option.splits)
  obtain g res where n: "new_job gc (DurationJob ?delay) (OneTimeTask h jobID taskType data)
       [''onetime:'' @ jobID, ''task:'' @ taskType] (cron s) = (g, res)"
    by (cases "new_job gc (DurationJob ?delay) (OneTimeTask h jobID taskType data)
       [''onetime:'' @ jobID, ''task:'' @ taskType] (cron s)")
  obtain i where i: "res = Inr i"
    using assms req h n unfolding ScheduleOneTimeJob_def Let_def by (cases res) simp_all
  have s': "s' = s\<lparr>cron := g, oneTimeJobs := (oneTimeJobs s)(jobID \<mapsto> i),
      redis := map_option (\<lambda>r. fst (saveOneTimeJobToRedis rc marshal
        \<lparr>JobID = jobID, TaskType = taskType, RunAt = unix_milli ?runAt, JobData = data\<rparr> r)) (redis s)\<rparr>"
    using assms req h n i unfolding ScheduleOneTimeJob_def Let_def by (cases "redis s") auto
  have "0 \<le> ?delay" by (simp add: second_def)
  moreover have "now < runAt \<Longrightarrow> now2 \<le> runAt \<Longrightarrow> ?delay = time_sub runAt now2"
    by (auto simp: time_sub_def)
  ultimately show ?thesis using that [OF req h n [unfolded i]] s' by simp
qed

lemma ScheduleOneTimeJob_err:
  assumes "gocron_ok gc jobs"
    and "ScheduleOneTimeJob gc rc marshal now now2 jobID taskType runAt data s = (s', Some err)"
  shows "jobs (cron s') = jobs (cron s)" and "oneTimeJobs s' = oneTimeJobs s" and "redis s' = redis s"
    and "handlers s' = handlers s" and "js_state s' = js_state s"
  using assms(2) gocron_new_failed [OF assms(1)]
  by (auto simp: ScheduleOneTimeJob_def Let_def split: if_splits option.splits prod.splits sum.splits)

lemma remove_frame [simp]:
  "handlers (removeOneTimeJob gc rc jobID s) = handlers s"
  "js_state (removeOneTimeJob gc rc jobID s) = js_state s"
  "oneTimeJobs (removeOneTimeJob gc rc jobID s) = (oneTimeJobs s)(jobID := None)"
  "cron (removeOneTimeJob gc rc jobID s) =
     (case oneTimeJobs s jobID of Some i \<Rightarrow> fst (remove_job gc i (cron s)) | None \<Rightarrow> cron s)"
  "redis (removeOneTimeJob gc rc jobID s) =
     map_option (\<lambda>r. fst (redis_Del rc (oneTimeJobKey jobID) r)) (redis s)"
  by (auto simp: removeOneTimeJob_def Let_def split: option.split)

section \<open>Properties\<close>

text \<open>C19: a schedule request is settled exactly once. Processing one makes exactly one call on the
  message, \<open>Ack\<close> or \<open>Nak\<close>. A \<open>Nak\<close> leaves the jobs, their index and Redis as they were; an \<open>Ack\<close>
  leaves everything as it was (the request was dropped) or has added exactly one tracked job for the
  requested task.\<close>

theorem request_settled_once:
  assumes ok: "gocron_ok gc jobs"
    and run: "processScheduleRequest gc rc marshal unmarshal env msg s = (msg', s')"
  shows "(Calls msg' = Calls msg @ [Nak] \<and> jobs (cron s') = jobs (cron s)
        \<and> oneTimeJobs s' = oneTimeJobs s \<and> redis s' = redis s)
    \<or> (Calls msg' = Calls msg @ [Ack] \<and> s' = s)
    \<or> (Calls msg' = Calls msg @ [Ack] \<and>
        (\<exists>req jobID h delay i. unmarshal (Data msg) = Inr req \<and> handlers s (ReqTaskType req) = Some h
          \<and> ReqTaskType req \<in> set requestableTaskTypes
          \<and> jobs (cron s) i = None
          \<and> jobs (cron s') = (jobs (cron s))(i \<mapsto> (DurationJob delay, OneTimeTask h jobID (ReqTaskType req) (ReqData req)))
          \<and> oneTimeJobs s' = (oneTimeJobs s)(jobID \<mapsto> i)))"
proof (cases "unmarshal (Data msg)")
  case (Inl err)
  then show ?thesis using run by (auto simp: processScheduleRequest_def wrapper_call_def)
next
  case (Inr req)
  show ?thesis
  proof (cases "if ReqJobID req = [] then generateJobID (random env) (id_now env) else Inr (ReqJobID req)")
    case (Inl err)
    then show ?thesis using run Inr by (auto simp: processScheduleRequest_def wrapper_call_def)
  next
    case (Inr jobID)
    let ?t = "from_unix_milli (ReqRunAt req)"
    obtain s1 e where sch: "ScheduleOneTimeJob gc rc marshal (sched_now env) (sched_now2 env) jobID
        (ReqTaskType req) ?t (ReqData req) s = (s1, e)"
      by (cases "ScheduleOneTimeJob gc rc marshal (sched_now env) (sched_now2 env) jobID
        (ReqTaskType req) ?t (ReqData req) s")
    have "(Calls msg' = Calls msg @ [Ack] \<and> s' = s)
        \<or> (s' = s1 \<and> Calls msg' = Calls msg @ [if e = None then Ack else Nak])"
      using run \<open>unmarshal (Data msg) = Inr req\<close> Inr sch
      by (auto simp: processScheduleRequest_def wrapper_call_def Let_def split: if_splits option.splits)
    then show ?thesis
    proof
      assume a: "s' = s1 \<and> Calls msg' = Calls msg @ [if e = None then Ack else Nak]"
      show ?thesis
      proof (cases e)
        case (Some err)
        then show ?thesis using a ScheduleOneTimeJob_err [OF ok sch [unfolded Some]] by simp
      next
        case None
        show ?thesis
        proof (rule ScheduleOneTimeJob_ok [OF sch [unfolded None]])
          fix h delay g i
          assume b: "ReqTaskType req \<in> set requestableTaskTypes" "handlers s (ReqTaskType req) = Some h"
            "new_job gc (DurationJob delay) (OneTimeTask h jobID (ReqTaskType req) (ReqData req))
              [''onetime:'' @ jobID, ''task:'' @ ReqTaskType req] (cron s) = (g, Inr i)"
            "cron s1 = g" "oneTimeJobs s1 = (oneTimeJobs s)(jobID \<mapsto> i)"
          show ?thesis
            using a None b gocron_new [OF ok b(3)] \<open>unmarshal (Data msg) = Inr req\<close> by auto
        qed
      qed
    qed blast
  qed
qed

text \<open>C20: a one-time job runs once. After a job is scheduled under a fresh identifier, running it calls
  its handler once on its data and removes every trace of it: gocron holds the jobs of before, the
  index has no entry, and the key is gone from Redis when Redis executes the \<open>Del\<close>.\<close>

theorem one_time_job_runs_once:
  assumes ok: "gocron_ok gc jobs" and rok: "redis_ok rc db"
    and sch: "ScheduleOneTimeJob gc rc marshal now now2 jobID taskType runAt data s = (s1, None)"
    and fresh: "oneTimeJobs s jobID = None"
    and h: "handlers s taskType = Some h"
    and r: "redis s = Some r" and del: "\<And>k r. snd (redis_Del rc k r) = None"
  shows "(let s2 = run_job gc rc (OneTimeTask h jobID taskType data) s1
    in jobs (cron s2) = jobs (cron s) \<and> oneTimeJobs s2 = oneTimeJobs s
     \<and> js_state s2 = fst (h data (js_state s))
     \<and> (\<exists>r2. redis s2 = Some r2 \<and> db r2 (oneTimeJobKey jobID) = None))"
  using sch
proof (rule ScheduleOneTimeJob_ok)
  fix h' delay g i
  assume b: "handlers s taskType = Some h'"
    "new_job gc (DurationJob delay) (OneTimeTask h' jobID taskType data)
       [''onetime:'' @ jobID, ''task:'' @ taskType] (cron s) = (g, Inr i)"
    "cron s1 = g" "oneTimeJobs s1 = (oneTimeJobs s)(jobID \<mapsto> i)" "js_state s1 = js_state s"
    "redis s1 = map_option (\<lambda>r. fst (saveOneTimeJobToRedis rc marshal
        \<lparr>JobID = jobID, TaskType = taskType,
         RunAt = unix_milli (if now < runAt then runAt else time_add now (5 * second)), JobData = data\<rparr> r)) (redis s)"
  let ?s2 = "run_job gc rc (OneTimeTask h jobID taskType data) s1"
  note j = gocron_new [OF ok b(2)]
  have "jobs (cron ?s2) = (jobs g)(i := None)" using b(3,4) gocron_remove [OF ok] by simp
  then have "jobs (cron ?s2) = jobs (cron s)" using j by auto
  moreover have "oneTimeJobs ?s2 = oneTimeJobs s" using b(4) fresh by auto
  moreover have "db (fst (redis_Del rc k x)) k = None" for k x
    using redis_Del_ok [OF rok, of k x] del [of k x] by (cases "redis_Del rc k x") simp
  ultimately show ?thesis using b(5,6) r by (auto simp: Let_def)
qed

text \<open>C21: a job scheduled twice is never removed. When a second request uses the identifier of a job
  that is still waiting, the index forgets the first gocron job. However often the first job then
  runs, gocron still holds it, and since its definition is an interval it runs again and again.\<close>

theorem duplicate_job_never_removed:
  assumes ok: "gocron_ok gc jobs"
    and first: "ScheduleOneTimeJob gc rc marshal n1 m1 jobID t1 runAt1 data1 s = (s1, None)"
    and again: "ScheduleOneTimeJob gc rc marshal n2 m2 jobID t2 runAt2 data2 s1 = (s2, None)"
    and i: "oneTimeJobs s1 jobID = Some i" "handlers s t1 = Some h"
  shows "\<exists>delay. jobs (cron ((run_job gc rc (OneTimeTask h jobID t1 data1) ^^ n) s2)) i
    = Some (DurationJob delay, OneTimeTask h jobID t1 data1)"
  using first
proof (rule ScheduleOneTimeJob_ok)
  fix h' delay g i1
  assume a: "handlers s t1 = Some h'"
    "new_job gc (DurationJob delay) (OneTimeTask h' jobID t1 data1)
       [''onetime:'' @ jobID, ''task:'' @ t1] (cron s) = (g, Inr i1)"
    "cron s1 = g" "oneTimeJobs s1 = (oneTimeJobs s)(jobID \<mapsto> i1)"
  have j1: "jobs (cron s1) i = Some (DurationJob delay, OneTimeTask h jobID t1 data1)"
    using gocron_new(2) [OF ok a(2)] a i by simp
  have "jobs (cron s2) i = Some (DurationJob delay, OneTimeTask h jobID t1 data1)
      \<and> oneTimeJobs s2 jobID \<noteq> Some i"
    using again
  proof (rule ScheduleOneTimeJob_ok)
    fix h2 delay2 g2 i2
    assume b: "new_job gc (DurationJob delay2) (OneTimeTask h2 jobID t2 data2)
        [''onetime:'' @ jobID, ''task:'' @ t2] (cron s1) = (g2, Inr i2)"
      "cron s2 = g2" "oneTimeJobs s2 = (oneTimeJobs s1)(jobID \<mapsto> i2)"
    show ?thesis using gocron_new [OF ok b(1)] b(2,3) j1 by auto
  qed
  moreover have "jobs (cron (run_job gc rc (OneTimeTask h jobID t1 data1) x)) i = jobs (cron x) i
      \<and> oneTimeJobs (run_job gc rc (OneTimeTask h jobID t1 data1) x) jobID \<noteq> Some i"
    if "oneTimeJobs x jobID \<noteq> Some i" for x
    using that gocron_remove [OF ok] by (auto split: option.split)
  ultimately have "jobs (cron ((run_job gc rc (OneTimeTask h jobID t1 data1) ^^ n) s2)) i
        = Some (DurationJob delay, OneTimeTask h jobID t1 data1)
      \<and> oneTimeJobs ((run_job gc rc (OneTimeTask h jobID t1 data1) ^^ n) s2) jobID \<noteq> Some i"
    by (induction n) (simp_all del: run_job.simps)
  then show ?thesis by blast
qed


text \<open>Restoring is selective. Whatever a key holds, restoring it either adds no job, or it held a job
  whose run time is in the future and whose task type is requestable and has a handler, and then adds
  exactly one job for it.\<close>

theorem restore_adds_only_due_jobs:
  assumes ok: "gocron_ok gc jobs"
    and st': "s' = restore_key gc rc marshal unmarshal now clk key r s"
  shows "(jobs (cron s') = jobs (cron s) \<and> oneTimeJobs s' = oneTimeJobs s)
    \<or> (\<exists>stored job h d i. snd (redis_Get rc key r) = Inr stored \<and> unmarshal stored = Inr job
        \<and> now < from_unix_milli (RunAt job) \<and> TaskType job \<in> set requestableTaskTypes
        \<and> handlers s (TaskType job) = Some h
        \<and> jobs (cron s') = (jobs (cron s))(i \<mapsto> (DurationJob d, OneTimeTask h (JobID job) (TaskType job) (JobData job)))
        \<and> oneTimeJobs s' = (oneTimeJobs s)(JobID job \<mapsto> i))"
proof -
  obtain r1 res where g: "redis_Get rc key r = (r1, res)" by (cases "redis_Get rc key r")
  show ?thesis
  proof (cases "\<exists>stored job. res = Inr stored \<and> unmarshal stored = Inr job \<and> now < from_unix_milli (RunAt job)
      \<and> handlers s (TaskType job) \<noteq> None \<and> TaskType job \<in> set requestableTaskTypes")
    case False
    then show ?thesis unfolding st' restore_key_def g prod.case Let_def
      by (auto split: sum.splits)
  next
    case True
    then obtain stored job where t: "res = Inr stored" "unmarshal stored = Inr job" "now < from_unix_milli (RunAt job)"
      "handlers s (TaskType job) \<noteq> None" "TaskType job \<in> set requestableTaskTypes" by blast
    obtain s1 e where sch: "ScheduleOneTimeJob gc rc marshal (fst clk) (snd clk) (JobID job) (TaskType job)
        (from_unix_milli (RunAt job)) (JobData job) (s\<lparr>redis := Some r1\<rparr>) = (s1, e)"
      by (cases "ScheduleOneTimeJob gc rc marshal (fst clk) (snd clk) (JobID job) (TaskType job)
        (from_unix_milli (RunAt job)) (JobData job) (s\<lparr>redis := Some r1\<rparr>)")
    show ?thesis
    proof (cases e)
      case (Some err)
      then have "cron s' = cron s1" "oneTimeJobs s' = oneTimeJobs s1"
        using t sch by (auto simp: st' restore_key_def g Let_def)
      then show ?thesis using ScheduleOneTimeJob_err(1,2) [OF ok sch [unfolded Some]] by simp
    next
      case None
      then have s1: "s' = s1" using t sch by (auto simp: st' restore_key_def g Let_def)
      show ?thesis
      proof (rule ScheduleOneTimeJob_ok [OF sch [unfolded None]])
        fix h delay gg i
        assume b: "handlers (s\<lparr>redis := Some r1\<rparr>) (TaskType job) = Some h"
          "new_job gc (DurationJob delay) (OneTimeTask h (JobID job) (TaskType job) (JobData job))
            [''onetime:'' @ JobID job, ''task:'' @ TaskType job] (cron (s\<lparr>redis := Some r1\<rparr>)) = (gg, Inr i)"
          "cron s1 = gg" "oneTimeJobs s1 = (oneTimeJobs (s\<lparr>redis := Some r1\<rparr>))(JobID job \<mapsto> i)"
        show ?thesis
          using gocron_new(2) [OF ok b(2)] b t g s1 by (intro disjI2 exI [of _ stored] exI [of _ job]) auto
      qed
    qed
  qed
qed

text \<open>Run times after the year 2262 are lost. A request whose \<open>run_at\<close> in milliseconds does not fit the
  nanoseconds of an \<open>int64\<close> wraps to a time before 1970: it is acknowledged and dropped as if it were in
  the past, and nothing is scheduled.\<close>

theorem far_future_request_dropped:
  assumes "unmarshal (Data msg) = Inr req" and "ReqJobID req \<noteq> []"
    and "9223372036855 \<le> ReqRunAt req" and "ReqRunAt req \<le> 18446744073709" and "0 \<le> request_now env"
  shows "processScheduleRequest gc rc marshal unmarshal env msg s = (fst (wrapper_call Ack msg), s)"
proof -
  have "from_unix_milli (ReqRunAt req) = ReqRunAt req * millisecond - 2 ^ 64"
  proof -
    have "i64 (ReqRunAt req * millisecond) = i64 (ReqRunAt req * millisecond - 2 ^ 64)"
      unfolding i64_cong_mod by (simp add: mod_diff_eq)
    also have "\<dots> = ReqRunAt req * millisecond - 2 ^ 64"
      using assms(3,4) by (intro i64_id) (simp add: in_i64_def millisecond_def)
    finally show ?thesis by (simp add: from_unix_milli_def)
  qed
  then have "\<not> request_now env < from_unix_milli (ReqRunAt req)"
    using assms(4,5) by (simp add: millisecond_def)
  then show ?thesis using assms(1,2) by (simp add: processScheduleRequest_def Let_def)
qed

text \<open>The interface \<open>scheduler.Scheduler\<close> through which the tasks register: a registered handler is the
  one found later, other task types keep theirs.\<close>

locale scheduler_interface =
  fixes register :: "string \<Rightarrow> 'j task_handler \<Rightarrow> 's \<Rightarrow> 's" and lookup :: "'s \<Rightarrow> string \<rightharpoonup> 'j task_handler"
  assumes lookup_register: "lookup (register t h s) = (lookup s)(t \<mapsto> h)"
begin

lemma both_registered:
  "lookup (ScheduleAdjustedPricesRefresh register publish (ScheduleIndustrySystemsRefresh register publish s)) =
     (lookup s)(''refreshSystemIndexes'' \<mapsto> industry_handler publish,
                ''refreshAdjustedPrices'' \<mapsto> prices_handler publish)"
  by (simp add: ScheduleAdjustedPricesRefresh_def ScheduleIndustrySystemsRefresh_def lookup_register)

end

interpretation task_scheduler: scheduler_interface RegisterHandler handlers
  by unfold_locales (simp add: RegisterHandler_def)

lemma ScheduleCronJob_adds:
  assumes "gocron_ok gc jobs" and "handlers s t = Some h"
    and "\<And>d tsk tags g. \<exists>g1 i. new_job gc d tsk tags g = (g1, Inr i)"
  shows "\<exists>i. jobs (cron s) i = None
    \<and> jobs (cron (fst (ScheduleCronJob gc expr t s))) = (jobs (cron s))(i \<mapsto> (CronJob expr, CronTask h))
    \<and> handlers (fst (ScheduleCronJob gc expr t s)) = handlers s
    \<and> redis (fst (ScheduleCronJob gc expr t s)) = redis s"
proof -
  obtain g i where n: "new_job gc (CronJob expr) (CronTask h) [''cron:'' @ t] (cron s) = (g, Inr i)"
    using assms(3) by blast
  show ?thesis
    using gocron_new [OF assms(1) n] n assms(2) by (intro exI [of _ i]) (simp add: ScheduleCronJob_def)
qed

text \<open>What the registry sets up. On a scheduler without jobs and without Redis, where gocron accepts
  every job, the two refresh tasks end up registered with the handlers that publish on their own
  subjects, and gocron holds exactly two jobs: each runs one of these handlers every five minutes.\<close>

theorem registry_sets_up_both_tasks:
  assumes ok: "gocron_ok gc jobs" and accepts: "\<And>d tsk tags g. \<exists>g1 i. new_job gc d tsk tags g = (g1, Inr i)"
    and s: "s = NewTaskScheduler g None j" and empty: "jobs g = Map.empty"
  shows "\<exists>s'. registry_setup gc rc marshal unmarshal publish now clks s = Some s'
    \<and> handlers s' = [''refreshSystemIndexes'' \<mapsto> industry_handler publish,
                     ''refreshAdjustedPrices'' \<mapsto> prices_handler publish]
    \<and> ran (jobs (cron s')) = {(CronJob ''*/5 * * * *'', CronTask (industry_handler publish)),
                              (CronJob ''*/5 * * * *'', CronTask (prices_handler publish))}"
proof -
  let ?s2 = "ScheduleAdjustedPricesRefresh RegisterHandler publish (ScheduleIndustrySystemsRefresh RegisterHandler publish s)"
  let ?s3 = "fst (ScheduleCronJob gc ''*/5 * * * *'' ''refreshSystemIndexes'' ?s2)"
  let ?s4 = "fst (ScheduleCronJob gc ''*/5 * * * *'' ''refreshAdjustedPrices'' ?s3)"
  have h2: "handlers ?s2 = [''refreshSystemIndexes'' \<mapsto> industry_handler publish,
      ''refreshAdjustedPrices'' \<mapsto> prices_handler publish]"
    unfolding task_scheduler.both_registered by (simp add: s NewTaskScheduler_def)
  have c2: "cron ?s2 = g" "redis ?s2 = None"
    by (simp_all add: s NewTaskScheduler_def ScheduleAdjustedPricesRefresh_def ScheduleIndustrySystemsRefresh_def
        RegisterHandler_def)
  have "handlers ?s2 ''refreshSystemIndexes'' = Some (industry_handler publish)" by (simp add: h2)
  from ScheduleCronJob_adds [OF ok this accepts, where expr = "''*/5 * * * *''"]
  obtain i where "jobs (cron ?s3) = (jobs (cron ?s2))(i \<mapsto> (CronJob ''*/5 * * * *'', CronTask (industry_handler publish)))"
      "handlers ?s3 = handlers ?s2" "redis ?s3 = redis ?s2" by blast
  then have i: "jobs (cron ?s3) = [i \<mapsto> (CronJob ''*/5 * * * *'', CronTask (industry_handler publish))]"
      "handlers ?s3 = handlers ?s2" "redis ?s3 = None"
    unfolding c2 empty by blast+
  have "handlers ?s3 ''refreshAdjustedPrices'' = Some (prices_handler publish)" by (simp add: i(2) h2)
  from ScheduleCronJob_adds [OF ok this accepts, where expr = "''*/5 * * * *''"]
  obtain k where "jobs (cron ?s3) k = None"
      "jobs (cron ?s4) = (jobs (cron ?s3))(k \<mapsto> (CronJob ''*/5 * * * *'', CronTask (prices_handler publish)))"
      "handlers ?s4 = handlers ?s3" "redis ?s4 = redis ?s3" by blast
  then have k: "jobs (cron ?s3) k = None"
      "jobs (cron ?s4) = (jobs (cron ?s3))(k \<mapsto> (CronJob ''*/5 * * * *'', CronTask (prices_handler publish)))"
      "handlers ?s4 = handlers ?s2" "redis ?s4 = None"
    unfolding i(2,3) by blast+
  have "registry_setup gc rc marshal unmarshal publish now clks s = Some ?s4"
    by (simp add: registry_setup_def Let_def RestoreOneTimeJobs_def k(4))
  moreover have "ran (jobs (cron ?s4)) = {(CronJob ''*/5 * * * *'', CronTask (industry_handler publish)),
      (CronJob ''*/5 * * * *'', CronTask (prices_handler publish))}"
    using k(1,2) i(1) by (auto simp: ran_def split: if_splits)
  moreover have "handlers ?s4 = [''refreshSystemIndexes'' \<mapsto> industry_handler publish,
      ''refreshAdjustedPrices'' \<mapsto> prices_handler publish]" unfolding k(3) by (rule h2)
  ultimately show ?thesis by (intro exI [of _ ?s4] conjI)
qed

section \<open>Witnesses\<close>

text \<open>A gocron that never fails: a list of jobs, \<open>None\<close> for a removed one.\<close>

definition sample_jobs :: "(job_definition \<times> 'j job_task) option list \<Rightarrow> job_id \<rightharpoonup> job_definition \<times> 'j job_task" where
  "sample_jobs g i = (if i < length g then g ! i else None)"

definition sample_gocron :: "((job_definition \<times> 'j job_task) option list, 'j) gocron" where
  "sample_gocron =
     \<lparr>new_job = (\<lambda>d t tags g. (g @ [Some (d, t)], Inr (length g))),
      remove_job = (\<lambda>i g. case sample_jobs g i of Some _ \<Rightarrow> (g[i := None], None)
                          | None \<Rightarrow> (g, Some (ErrText ''job not found''))),
      job_tags = (\<lambda>g. []), shutdown = (\<lambda>g. g)\<rparr>"

lemma sample_gocron_ok: "gocron_ok sample_gocron sample_jobs"
  unfolding gocron_ok_def sample_gocron_def
  by (auto simp: sample_jobs_def fun_eq_iff nth_append nth_list_update split: option.splits)

lemma sample_gocron_accepts: "\<exists>g1 i. new_job sample_gocron d tsk tags g = (g1, Inr i)"
  by (simp add: sample_gocron_def)

definition count_handler :: "nat task_handler" where
  "count_handler data n = (Suc n, None)"

definition sample_scheduler :: "((job_definition \<times> nat job_task) option list, string \<rightharpoonup> string, nat) TaskScheduler" where
  "sample_scheduler = RegisterHandler ''refreshSystemIndexes'' count_handler (NewTaskScheduler [] (Some Map.empty) 0)"

definition sample_request :: "int \<Rightarrow> string \<Rightarrow> go_error + ScheduleRequest" where
  "sample_request runAt data =
     Inr \<lparr>ReqJobID = ''a'', ReqTaskType = ''refreshSystemIndexes'', ReqRunAt = runAt, ReqData = data\<rparr>"

definition sample_request_env :: request_env where
  "sample_request_env = \<lparr>random = Inr [], id_now = 0, request_now = 5, sched_now = 5, sched_now2 = 5\<rparr>"

definition plain_msg :: js_msg where
  "plain_msg = \<lparr>Metadata = Inl (ErrText ''no metadata''), Data = ''x'', Answer = (\<lambda>_ _. None), Calls = []\<rparr>"

theorem registry_sets_up_both_tasks_witness:
  "\<exists>s'. registry_setup sample_gocron memory_redis (\<lambda>_. Inr []) (\<lambda>_. Inl ErrRedisNil) (\<lambda>subject d n. (Suc n, None)) 0
      (\<lambda>_. (0, 0)) (NewTaskScheduler [] None (0::nat)) = Some s'
    \<and> handlers s' ''refreshAdjustedPrices'' = Some (prices_handler (\<lambda>subject d n. (Suc n, None)))"
proof -
  have e: "sample_jobs [] = Map.empty" by (simp add: sample_jobs_def fun_eq_iff)
  from registry_sets_up_both_tasks [OF sample_gocron_ok sample_gocron_accepts refl e,
      where rc = memory_redis and marshal = "\<lambda>_. Inr []" and unmarshal = "\<lambda>_. Inl ErrRedisNil"
        and publish = "\<lambda>subject d n. (Suc n, None)" and now = 0 and clks = "\<lambda>_. (0, 0)" and j = "0 :: nat"]
  obtain s' where "registry_setup sample_gocron memory_redis (\<lambda>_. Inr []) (\<lambda>_. Inl ErrRedisNil)
      (\<lambda>subject d n. (Suc n, None)) 0 (\<lambda>_. (0, 0)) (NewTaskScheduler [] None (0::nat)) = Some s'"
    and "handlers s' = [''refreshSystemIndexes'' \<mapsto> industry_handler (\<lambda>subject d n. (Suc n, None)),
          ''refreshAdjustedPrices'' \<mapsto> prices_handler (\<lambda>subject d n. (Suc n, None))]" by (elim exE conjE)
  then show ?thesis by (intro exI [of _ s']) simp
qed

theorem far_future_request_dropped_witness:
  "processScheduleRequest sample_gocron memory_redis (\<lambda>_. Inr []) (sample_request 9223372036855)
     sample_request_env plain_msg sample_scheduler = (fst (wrapper_call Ack plain_msg), sample_scheduler)"
  by (rule far_future_request_dropped, simp add: sample_request_def)
    (simp_all add: sample_request_env_def)

theorem request_settled_once_witness:
  "Calls (fst (processScheduleRequest sample_gocron memory_redis (\<lambda>_. Inr []) (sample_request 7)
     sample_request_env plain_msg sample_scheduler)) \<in> {[Ack], [Nak]}"
  using request_settled_once [OF sample_gocron_ok prod.collapse [symmetric],
      of memory_redis "\<lambda>_. Inr []" "sample_request 7" sample_request_env plain_msg sample_scheduler]
  by (auto simp: plain_msg_def)

text \<open>The sample job: it is accepted, becomes job 0, and its record is saved.\<close>

definition sample_scheduled :: "time \<Rightarrow> ((job_definition \<times> nat job_task) option list, string \<rightharpoonup> string, nat) TaskScheduler
    \<Rightarrow> ((job_definition \<times> nat job_task) option list, string \<rightharpoonup> string, nat) TaskScheduler \<times> go_error option" where
  "sample_scheduled runAt = ScheduleOneTimeJob sample_gocron memory_redis (\<lambda>_. Inr ''j'') 5 5 ''a''
     ''refreshSystemIndexes'' runAt []"

lemma sample_scheduled_eq:
  assumes "handlers s ''refreshSystemIndexes'' = Some count_handler" and "redis s = Some r" and "5 < runAt"
    and "runAt < 2 ^ 63"
  shows "sample_scheduled runAt s = (s\<lparr>cron := cron s @ [Some (DurationJob (runAt - 5),
      OneTimeTask count_handler ''a'' ''refreshSystemIndexes'' [])],
    oneTimeJobs := (oneTimeJobs s)(''a'' \<mapsto> length (cron s)),
    redis := Some (r(oneTimeJobKey ''a'' \<mapsto> ''j''))\<rparr>, None)"
  using assms
  by (simp add: sample_scheduled_def ScheduleOneTimeJob_def requestableTaskTypes_def sample_gocron_def
      time_sub_def saveOneTimeJobToRedis_def memory_redis_def Let_def)

theorem one_time_job_runs_once_witness:
  "js_state (run_job sample_gocron memory_redis (OneTimeTask count_handler ''a'' ''refreshSystemIndexes'' [])
     (fst (sample_scheduled 1000 sample_scheduler))) = 1"
proof -
  have h: "handlers sample_scheduler ''refreshSystemIndexes'' = Some count_handler"
    "redis sample_scheduler = Some Map.empty" "oneTimeJobs sample_scheduler ''a'' = None"
    "js_state sample_scheduler = 0"
    by (simp_all add: sample_scheduler_def RegisterHandler_def NewTaskScheduler_def)
  have s: "ScheduleOneTimeJob sample_gocron memory_redis (\<lambda>_. Inr ''j'') 5 5 ''a''
     ''refreshSystemIndexes'' 1000 [] sample_scheduler = (fst (sample_scheduled 1000 sample_scheduler), None)"
    using sample_scheduled_eq [OF h(1,2), of 1000] by (simp add: sample_scheduled_def)
  have d: "snd (redis_Del memory_redis k r) = None" for k r by (simp add: memory_redis_def)
  show ?thesis
    using one_time_job_runs_once [OF sample_gocron_ok memory_redis_ok s h(3) h(1) h(2) d] h(4)
    by (simp add: Let_def count_handler_def)
qed

theorem duplicate_job_never_removed_witness:
  "\<exists>delay. sample_jobs (cron ((run_job sample_gocron memory_redis
       (OneTimeTask count_handler ''a'' ''refreshSystemIndexes'' []) ^^ 7)
       (fst (sample_scheduled 2000 (fst (sample_scheduled 1000 sample_scheduler)))))) 0
     = Some (DurationJob delay, OneTimeTask count_handler ''a'' ''refreshSystemIndexes'' [])"
proof -
  let ?s1 = "fst (sample_scheduled 1000 sample_scheduler)"
  have h: "handlers sample_scheduler ''refreshSystemIndexes'' = Some count_handler"
    "redis sample_scheduler = Some Map.empty" "cron sample_scheduler = []"
    by (simp_all add: sample_scheduler_def RegisterHandler_def NewTaskScheduler_def)
  have s1: "ScheduleOneTimeJob sample_gocron memory_redis (\<lambda>_. Inr ''j'') 5 5 ''a''
     ''refreshSystemIndexes'' 1000 [] sample_scheduler = (?s1, None)"
    using sample_scheduled_eq [OF h(1,2), of 1000] by (simp add: sample_scheduled_def)
  have h1: "handlers ?s1 ''refreshSystemIndexes'' = Some count_handler" "\<exists>r. redis ?s1 = Some r"
    "oneTimeJobs ?s1 ''a'' = Some 0"
    using sample_scheduled_eq [OF h(1,2), of 1000] h by simp_all
  then obtain r where r: "redis ?s1 = Some r" by blast
  have s2: "ScheduleOneTimeJob sample_gocron memory_redis (\<lambda>_. Inr ''j'') 5 5 ''a''
     ''refreshSystemIndexes'' 2000 [] ?s1 = (fst (sample_scheduled 2000 ?s1), None)"
    using sample_scheduled_eq [OF h1(1) r, of 2000] by (simp add: sample_scheduled_def)
  show ?thesis by (rule duplicate_job_never_removed [OF sample_gocron_ok s1 s2 h1(3) h(1)])
qed


theorem restore_adds_only_due_jobs_witness:
  "sample_jobs (cron (restore_key sample_gocron memory_redis (\<lambda>_. Inr ''j'')
        (\<lambda>_. Inr \<lparr>JobID = ''a'', TaskType = ''refreshSystemIndexes'', RunAt = 7, JobData = []\<rparr>)
        (9 * millisecond) (10 * millisecond, 11 * millisecond)
        (oneTimeJobKey ''a'') [oneTimeJobKey ''a'' \<mapsto> ''j''] sample_scheduler)) = Map.empty"
proof -
  have "sample_jobs (cron sample_scheduler) = Map.empty"
    by (simp add: sample_scheduler_def RegisterHandler_def NewTaskScheduler_def sample_jobs_def fun_eq_iff)
  then show ?thesis
    using restore_adds_only_due_jobs [OF sample_gocron_ok refl, where rc = memory_redis and marshal = "\<lambda>_. Inr ''j''"
      and unmarshal = "\<lambda>_. Inr \<lparr>JobID = ''a'', TaskType = ''refreshSystemIndexes'', RunAt = 7, JobData = []\<rparr>"
      and now = "9 * millisecond" and clk = "(10 * millisecond, 11 * millisecond)" and key = "oneTimeJobKey ''a''"
      and r = "[oneTimeJobKey ''a'' \<mapsto> ''j'']" and s = sample_scheduler]
    by (auto simp: from_unix_milli_def millisecond_def i64_id in_i64_def)
qed

end
