(* ===== verification/Job_Registry.thy ===== *)
theory Job_Registry
  imports Task_Scheduler
begin

text \<open>
  The scheduler service's job registry, \<open>cmd/scheduler/registry.go\<close>, and \<open>startScheduler\<close> of
  \<open>cmd/scheduler/main.go\<close>.

  A registered function gets the task scheduler through the \<open>Scheduler\<close> interface, registers its handler and
  returns a cleanup, of which only the number matters (they are never called). The registry's start is
  \<open>None\<close> when the scan for stored jobs does not end.
\<close>

section \<open>The registry\<close>

type_synonym ('g, 'r, 'j) scheduler_func =
  "('g, 'r, 'j) TaskScheduler \<Rightarrow> ('g, 'r, 'j) TaskScheduler \<times> go_error option"

record ('g, 'r, 'j) JobRegistry =
  schedulers :: "('g, 'r, 'j) scheduler_func list"
  cleanupCount :: nat
  schedulerHandler :: "('g, 'r, 'j) TaskScheduler option"

definition NewJobRegistry :: "('g, 'r, 'j) JobRegistry" where
  "NewJobRegistry = \<lparr>schedulers = [], cleanupCount = 0, schedulerHandler = None\<rparr>"

definition Register :: "('g, 'r, 'j) scheduler_func \<Rightarrow> ('g, 'r, 'j) JobRegistry \<Rightarrow> ('g, 'r, 'j) JobRegistry" where
  "Register f reg = reg\<lparr>schedulers := schedulers reg @ [f]\<rparr>"

text \<open>A function that fails is skipped.\<close>

fun run_schedulers :: "('g, 'r, 'j) scheduler_func list \<Rightarrow> nat \<Rightarrow> ('g, 'r, 'j) TaskScheduler
    \<Rightarrow> nat \<times> ('g, 'r, 'j) TaskScheduler" where
  "run_schedulers [] n s = (n, s)"
| "run_schedulers (f # fs) n s =
     (case f s of
        (s1, Some err) \<Rightarrow> run_schedulers fs n s1
      | (s1, None) \<Rightarrow> run_schedulers fs (Suc n) s1)"

text \<open>\<open>JobRegistry.Start\<close>: \<open>newSched\<close> is \<open>gocron.NewScheduler\<close>. The consumer of the message loop is the result
  of the scheduler's \<open>Start\<close>.\<close>

definition StartRegistry :: "('g, 'j) gocron \<Rightarrow> 'r redis_client \<Rightarrow> (OneTimeJob \<Rightarrow> go_error + string)
    \<Rightarrow> (string \<Rightarrow> go_error + OneTimeJob) \<Rightarrow> ('g \<Rightarrow> 'g) \<Rightarrow> ('j, 'h) jetstream option \<Rightarrow> go_error + 'g
    \<Rightarrow> time \<Rightarrow> (nat \<Rightarrow> time \<times> time) \<Rightarrow> 'r option \<Rightarrow> 'j \<Rightarrow> ('g, 'r, 'j) JobRegistry
    \<Rightarrow> (('g, 'r, 'j) JobRegistry \<times> (go_error + 'h option)) option" where
  "StartRegistry gc rc marshal unmarshal startCron js newSched now clks redisClient j reg =
     (case newSched of
        Inl err \<Rightarrow> Some (reg, Inl err)
      | Inr g \<Rightarrow>
          (case run_schedulers (schedulers reg) (cleanupCount reg) (NewTaskScheduler g redisClient j) of
             (n, s1) \<Rightarrow>
               (let s2 = fst (ScheduleCronJob gc ''*/5 * * * *'' ''refreshSystemIndexes'' s1);
                    s3 = fst (ScheduleCronJob gc ''*/5 * * * *'' ''refreshAdjustedPrices'' s2)
                in case RestoreOneTimeJobs gc rc marshal unmarshal now clks s3 of
                     None \<Rightarrow> None
                   | Some (s4, restoreErr) \<Rightarrow>
                       (case Start startCron js s4 of
                          (s5, res) \<Rightarrow>
                            Some (reg\<lparr>cleanupCount := n, schedulerHandler := Some s5\<rparr>, res)))))"

definition StopRegistry :: "('g, 'j) gocron \<Rightarrow> ('g, 'r, 'j) JobRegistry \<Rightarrow> ('g, 'r, 'j) JobRegistry" where
  "StopRegistry gc reg = reg\<lparr>schedulerHandler := map_option (Stop gc) (schedulerHandler reg)\<rparr>"

text \<open>The two functions of \<open>cmd/scheduler/esi\<close>, which never fail.\<close>

definition industry_scheduler :: "'j publisher \<Rightarrow> ('g, 'r, 'j) scheduler_func" where
  "industry_scheduler publish s = (ScheduleIndustrySystemsRefresh RegisterHandler publish s, None)"

definition prices_scheduler :: "'j publisher \<Rightarrow> ('g, 'r, 'j) scheduler_func" where
  "prices_scheduler publish s = (ScheduleAdjustedPricesRefresh RegisterHandler publish s, None)"

text \<open>\<open>startScheduler\<close>: an error of the start is logged; the function it returns stops the registry.\<close>

definition startScheduler :: "('g, 'j) gocron \<Rightarrow> 'r redis_client \<Rightarrow> (OneTimeJob \<Rightarrow> go_error + string)
    \<Rightarrow> (string \<Rightarrow> go_error + OneTimeJob) \<Rightarrow> ('g \<Rightarrow> 'g) \<Rightarrow> ('j, 'h) jetstream option \<Rightarrow> go_error + 'g \<Rightarrow> 'j publisher
    \<Rightarrow> time \<Rightarrow> (nat \<Rightarrow> time \<times> time) \<Rightarrow> 'r option \<Rightarrow> 'j \<Rightarrow> ('g, 'r, 'j) JobRegistry option" where
  "startScheduler gc rc marshal unmarshal startCron js newSched publish now clks redisClient j =
     map_option fst (StartRegistry gc rc marshal unmarshal startCron js newSched now clks redisClient j
       (Register (prices_scheduler publish) (Register (industry_scheduler publish) NewJobRegistry)))"

section \<open>What it does\<close>

lemma run_both:
  "run_schedulers [industry_scheduler publish, prices_scheduler publish] n s =
     (Suc (Suc n), ScheduleAdjustedPricesRefresh RegisterHandler publish
        (ScheduleIndustrySystemsRefresh RegisterHandler publish s))"
  by (simp add: industry_scheduler_def prices_scheduler_def)

text \<open>The start of the service is the set-up of \<open>Task_Scheduler\<close> followed by the scheduler's \<open>Start\<close>.\<close>

lemma startScheduler_setup:
  "startScheduler gc rc marshal unmarshal startCron js (Inr g) publish now clks redisClient j =
     map_option (\<lambda>s. \<lparr>schedulers = [industry_scheduler publish, prices_scheduler publish], cleanupCount = 2,
         schedulerHandler = Some (fst (Start startCron js s))\<rparr>)
       (registry_setup gc rc marshal unmarshal publish now clks (NewTaskScheduler g redisClient j))"
  by (simp add: startScheduler_def StartRegistry_def NewJobRegistry_def Register_def registry_setup_def Let_def
      industry_scheduler_def prices_scheduler_def split: option.split prod.split)

lemma stop_stops:
  "schedulerHandler (StopRegistry gc reg) = Some s \<Longrightarrow> stopped s"
  by (auto simp: StopRegistry_def Stop_def)

end
