(* ===== verification/System_Index_Api.thy ===== *)
theory System_Index_Api
  imports Esi_Stream
begin

text \<open>
  The system-index endpoint of the API service: \<open>cmd/api/v1endpoints/systemIndex.go\<close>.

  A request carries its method, the values of the query parameter \<open>id\<close> and what the JSON decoder makes
  of the body (an error of the decoder, which is only printed, is its text). The handler works on Redis and on the endpoint's Prometheus updates; the response is
  what it writes. Encoding the result map and decoding a stored index are arguments (\<open>encoding/json\<close>).
  The context's timeout shows as an error of a Redis call.
\<close>

section \<open>Requests and responses\<close>

record api_request =
  ApiMethod :: string
  QueryIds :: "string list"
  BodyIds :: "string + string list"

record api_response =
  ApiStatus :: int
  ContentType :: string
  ApiBody :: string

datatype api_metric =
    AErrors string
  | ANotFoundByID string
  | ARequests duration
  | ARequestsCount
  | ASystemsRequested nat
  | ASystemsFound nat
  | ASystemsNotFound nat

record 'r api_state =
  ApiRedis :: 'r
  ApiMetrics :: "api_metric list"

definition observe :: "api_metric list \<Rightarrow> 'r api_state \<Rightarrow> 'r api_state" where
  "observe ms s = s\<lparr>ApiMetrics := ApiMetrics s @ ms\<rparr>"

text \<open>\<open>http.Error\<close>.\<close>

definition http_Error :: "string \<Rightarrow> int \<Rightarrow> api_response" where
  "http_Error msg code =
     \<lparr>ApiStatus = code, ContentType = ''text/plain; charset=utf-8'', ApiBody = msg @ [CHR 0x0A]\<rparr>"

section \<open>The identifiers of a request\<close>

definition maxSystemIDs :: nat where "maxSystemIDs = 500"

text \<open>The pattern \<open>^\d+$\<close>.\<close>

definition validIDPattern :: "string \<Rightarrow> bool" where
  "validIDPattern s \<longleftrightarrow> s \<noteq> [] \<and> list_all is_digit s"

definition extractSystemIDsFromGet :: "api_request \<Rightarrow> string + string list" where
  "extractSystemIDsFromGet req =
     (if length (QueryIds req) = 0 then Inl ''missing 'id' query parameter''
      else Inr (QueryIds req))"

definition extractSystemIDsFromPost :: "api_request \<Rightarrow> string + string list" where
  "extractSystemIDsFromPost req =
     (case BodyIds req of
        Inl err \<Rightarrow> Inl (''invalid JSON body: '' @ err)
      | Inr ids \<Rightarrow> if length ids = 0 then Inl ''empty array in request body'' else Inr ids)"

fun validate_loop :: "string list \<Rightarrow> string list \<Rightarrow> nat \<Rightarrow> string list \<times> nat" where
  "validate_loop [] validated invalidCount = (validated, invalidCount)"
| "validate_loop (idStr # ids) validated invalidCount =
     (if \<not> validIDPattern idStr then validate_loop ids validated (Suc invalidCount)
      else if parse_int 32 idStr = None then validate_loop ids validated (Suc invalidCount)
      else validate_loop ids (validated @ [idStr]) invalidCount)"

definition validateSystemIDs :: "string list \<Rightarrow> string list \<times> nat" where
  "validateSystemIDs ids = validate_loop ids [] 0"

section \<open>The handler\<close>

definition blank_index :: "int32 \<Rightarrow> SystemIndexes" where
  "blank_index systemID =
     \<lparr>SolarSystemID = systemID, LastUpdated = 0, Manufacturing = 0, ResearchTime = 0,
      ResearchMaterial = 0, Copying = 0, Invention = 0, Reaction = 0\<rparr>"

text \<open>\<open>int32(systemID)\<close>; a parse error, which the code ignores, would leave 0 for an identifier
  that is not a number.\<close>

definition id_value :: "string \<Rightarrow> int32" where
  "id_value idStr = (case parse_int 32 idStr of None \<Rightarrow> 0 | Some v \<Rightarrow> word_of_int v)"

fun lookup_loop :: "'r redis_client \<Rightarrow> (string \<Rightarrow> go_error + SystemIndexes) \<Rightarrow> string list
    \<Rightarrow> (string \<rightharpoonup> SystemIndexes) \<Rightarrow> nat \<Rightarrow> nat \<Rightarrow> 'r api_state
    \<Rightarrow> 'r api_state \<times> (string \<rightharpoonup> SystemIndexes) \<times> nat \<times> nat" where
  "lookup_loop rc unmarshal [] res found missing s = (s, res, found, missing)"
| "lookup_loop rc unmarshal (idStr # ids) res found missing s =
     (let systemID = id_value idStr
      in case GetIndustrySystemIndex rc unmarshal systemID (ApiRedis s) of
           (r, Inr index) \<Rightarrow>
             lookup_loop rc unmarshal ids (res(idStr \<mapsto> index)) (Suc found) missing (s\<lparr>ApiRedis := r\<rparr>)
         | (r, Inl err) \<Rightarrow>
             lookup_loop rc unmarshal ids (res(idStr \<mapsto> blank_index systemID)) found (Suc missing)
               (observe (ANotFoundByID idStr # (if err \<noteq> ErrRedisNil then [AErrors ''redis_error''] else []))
                 (s\<lparr>ApiRedis := r\<rparr>)))"

text \<open>\<open>elapsed\<close> is \<open>time.Since(start)\<close>. An encoding error leaves the body empty: the status is sent
  before.\<close>

definition serve_indexes :: "'r redis_client \<Rightarrow> (string \<Rightarrow> go_error + SystemIndexes)
    \<Rightarrow> ((string \<rightharpoonup> SystemIndexes) \<Rightarrow> go_error + string) \<Rightarrow> duration \<Rightarrow> string list \<Rightarrow> 'r api_state
    \<Rightarrow> 'r api_state \<times> api_response" where
  "serve_indexes rc unmarshal encode elapsed validatedIDs s =
     (case lookup_loop rc unmarshal validatedIDs Map.empty 0 0 s of
        (s1, res, found, missing) \<Rightarrow>
          (let s2 = observe [ARequests elapsed, ARequestsCount, ASystemsRequested (length validatedIDs),
                             ASystemsFound found, ASystemsNotFound missing] s1
           in case encode res of
                Inl err \<Rightarrow> (observe [AErrors ''encode_error''] s2,
                  \<lparr>ApiStatus = status_ok, ContentType = ''application/json'', ApiBody = []\<rparr>)
              | Inr body \<Rightarrow> (s2,
                  \<lparr>ApiStatus = status_ok, ContentType = ''application/json'', ApiBody = body\<rparr>)))"

definition SystemIndexesHandler :: "'r redis_client \<Rightarrow> (string \<Rightarrow> go_error + SystemIndexes)
    \<Rightarrow> ((string \<rightharpoonup> SystemIndexes) \<Rightarrow> go_error + string) \<Rightarrow> duration \<Rightarrow> api_request \<Rightarrow> 'r api_state
    \<Rightarrow> 'r api_state \<times> api_response" where
  "SystemIndexesHandler rc unmarshal encode elapsed req s =
     (if ApiMethod req \<notin> {''GET'', ''POST''} then
        (observe [AErrors ''method_not_allowed''] s, http_Error ''Method not allowed'' status_method_not_allowed)
      else case (if ApiMethod req = ''GET'' then extractSystemIDsFromGet req
                 else extractSystemIDsFromPost req) of
        Inl err \<Rightarrow> (observe [AErrors ''extraction_error''] s,
          http_Error (''Invalid request: '' @ err) status_bad_request)
      | Inr systemIDs \<Rightarrow>
          (let (validatedIDs, invalidCount) = validateSystemIDs systemIDs
           in if length validatedIDs = 0 then
                (observe [AErrors ''no_valid_ids''] s,
                 http_Error ''No valid system IDs provided'' status_bad_request)
              else if length validatedIDs > maxSystemIDs then
                (observe [AErrors ''too_many_ids''] s,
                 http_Error (''Too many system IDs (max '' @ format_nat maxSystemIDs @ '')'') status_bad_request)
              else serve_indexes rc unmarshal encode elapsed validatedIDs s))"

section \<open>Validation\<close>

definition valid_id :: "string \<Rightarrow> bool" where
  "valid_id idStr \<longleftrightarrow> validIDPattern idStr \<and> parse_int 32 idStr \<noteq> None"

lemma validate_loop_filter:
  "validate_loop ids acc n = (acc @ filter valid_id ids, n + length (filter (\<lambda>i. \<not> valid_id i) ids))"
  by (induction ids acc n rule: validate_loop.induct) (auto simp: valid_id_def)

lemma validateSystemIDs_filter:
  "validateSystemIDs ids = (filter valid_id ids, length (filter (\<lambda>i. \<not> valid_id i) ids))"
  by (simp add: validateSystemIDs_def validate_loop_filter)

section \<open>What is served\<close>

text \<open>The index an identifier stands for in a store.\<close>

definition served_index :: "(string \<Rightarrow> go_error + SystemIndexes) \<Rightarrow> (string \<rightharpoonup> string) \<Rightarrow> string \<Rightarrow> SystemIndexes" where
  "served_index unmarshal store idStr =
     (case store (industry_index_key (id_value idStr)) of
        None \<Rightarrow> blank_index (id_value idStr)
      | Some v \<Rightarrow> (case unmarshal v of Inl _ \<Rightarrow> blank_index (id_value idStr) | Inr index \<Rightarrow> index))"

text \<open>Redis answers reads: the only error is the missing key.\<close>

definition redis_up :: "'r redis_client \<Rightarrow> bool" where
  "redis_up rc \<longleftrightarrow> (\<forall>k r err. snd (redis_Get rc k r) = Inl err \<longrightarrow> err = ErrRedisNil)"

lemma observe_simps [simp]:
  "ApiRedis (observe ms s) = ApiRedis s"
  "ApiMetrics (observe ms s) = ApiMetrics s @ ms"
  by (simp_all add: observe_def)

lemma GetIndustrySystemIndex_same:
  assumes "redis_ok rc db" and "GetIndustrySystemIndex rc unmarshal n r = (r1, res)"
  shows "db r1 = db r"
proof -
  obtain r2 v where g: "redis_Get rc (industry_index_key n) r = (r2, v)"
    by (cases "redis_Get rc (industry_index_key n) r")
  have "db r2 = db r" by (rule redis_Get_same [OF assms(1) g])
  then show ?thesis
    using assms(2) g by (auto simp: GetIndustrySystemIndex_def GetJSON_def split: sum.splits)
qed

lemma GetIndustrySystemIndex_served:
  assumes "redis_ok rc db" and "redis_up rc"
    and "GetIndustrySystemIndex rc unmarshal (id_value idStr) r = (r1, res)"
  shows "(case res of Inr index \<Rightarrow> index | Inl _ \<Rightarrow> blank_index (id_value idStr)) = served_index unmarshal (db r) idStr"
proof -
  let ?k = "industry_index_key (id_value idStr)"
  obtain r2 v where g: "redis_Get rc ?k r = (r2, v)" by (cases "redis_Get rc ?k r")
  show ?thesis
  proof (cases v)
    case (Inl err)
    then have "snd (redis_Get rc ?k r) = Inl err" using g by simp
    then have "err = ErrRedisNil" using assms(2) unfolding redis_up_def by blast
    then have "db r ?k = None" using redis_Get_nil [OF assms(1)] g Inl by simp
    then show ?thesis
      using assms(3) g Inl by (auto simp: GetIndustrySystemIndex_def GetJSON_def served_index_def)
  next
    case (Inr t)
    then have "db r ?k = Some t" using redis_Get_val [OF assms(1)] g by simp
    then show ?thesis
      using assms(3) g Inr
      by (auto simp: GetIndustrySystemIndex_def GetJSON_def served_index_def split: sum.splits)
  qed
qed

lemma lookup_loop_served:
  assumes ok: "redis_ok rc db" and up: "redis_up rc"
  shows "lookup_loop rc unmarshal ids res f m s = (s', res', f', m') \<Longrightarrow>
    db (ApiRedis s') = db (ApiRedis s) \<and> f' + m' = f + m + length ids
    \<and> res' = (\<lambda>i. if i \<in> set ids then Some (served_index unmarshal (db (ApiRedis s)) i) else res i)"
proof (induction ids arbitrary: res f m s)
  case (Cons i ids)
  obtain r x where g: "GetIndustrySystemIndex rc unmarshal (id_value i) (ApiRedis s) = (r, x)"
    by (cases "GetIndustrySystemIndex rc unmarshal (id_value i) (ApiRedis s)")
  note same = GetIndustrySystemIndex_same [OF ok g]
    and value_is = GetIndustrySystemIndex_served [OF ok up g]
  show ?case
  proof (cases x)
    case (Inl err)
    then show ?thesis
      using Cons.IH [OF Cons.prems [unfolded lookup_loop.simps g Inl Let_def prod.case sum.case]] same value_is
      by (auto simp: same intro!: ext)
  next
    case (Inr index)
    then show ?thesis
      using Cons.IH [OF Cons.prems [unfolded lookup_loop.simps g Inr Let_def prod.case sum.case]] same value_is
      by (auto simp: same intro!: ext)
  qed
qed (simp add: fun_eq_iff)

text \<open>The identifiers a request asks for.\<close>

definition requested_ids :: "api_request \<Rightarrow> string + string list" where
  "requested_ids req =
     (if ApiMethod req = ''GET'' then extractSystemIDsFromGet req else extractSystemIDsFromPost req)"

definition acceptable :: "api_request \<Rightarrow> bool" where
  "acceptable req \<longleftrightarrow> ApiMethod req \<in> {''GET'', ''POST''} \<and>
     (\<exists>ids. requested_ids req = Inr ids \<and> filter valid_id ids \<noteq> [] \<and> length (filter valid_id ids) \<le> maxSystemIDs)"

lemma handler_acceptable:
  assumes "ApiMethod req \<in> {''GET'', ''POST''}" and "requested_ids req = Inr ids"
    and "filter valid_id ids \<noteq> []" and "length (filter valid_id ids) \<le> maxSystemIDs"
  shows "SystemIndexesHandler rc unmarshal encode elapsed req s
    = serve_indexes rc unmarshal encode elapsed (filter valid_id ids) s"
  using assms by (auto simp: SystemIndexesHandler_def requested_ids_def validateSystemIDs_filter)

lemma serve_status: "ApiStatus (snd (serve_indexes rc unmarshal encode elapsed ids s)) = status_ok"
  by (auto simp: serve_indexes_def Let_def split: prod.split sum.split)

lemma handler_refused:
  assumes "\<not> acceptable req"
  shows "\<exists>label msg code. SystemIndexesHandler rc unmarshal encode elapsed req s
      = (observe [AErrors label] s, http_Error msg code) \<and> code \<in> {status_bad_request, status_method_not_allowed}"
proof (cases "ApiMethod req \<in> {''GET'', ''POST''}")
  case False
  then show ?thesis unfolding SystemIndexesHandler_def by auto
next
  case True
  note m = this
  show ?thesis
  proof (cases "requested_ids req")
    case (Inl err)
    then show ?thesis using m unfolding SystemIndexesHandler_def requested_ids_def by auto
  next
    case (Inr ids)
    then have "filter valid_id ids = [] \<or> \<not> length (filter valid_id ids) \<le> maxSystemIDs"
      using assms m by (auto simp: acceptable_def)
    then show ?thesis
      using m Inr unfolding SystemIndexesHandler_def requested_ids_def validateSystemIDs_filter
      by (auto simp: not_le)
  qed
qed

section \<open>Properties\<close>

lemma acceptable_answer:
  assumes ok: "redis_ok rc db" and up: "redis_up rc"
    and req: "acceptable req" "requested_ids req = Inr ids"
    and enc: "encode (\<lambda>i. if i \<in> set ids \<and> valid_id i
                then Some (served_index unmarshal (db (ApiRedis s)) i) else None) = Inr body"
    and run: "SystemIndexesHandler rc unmarshal encode elapsed req s = (s', resp)"
  shows "resp = \<lparr>ApiStatus = 200, ContentType = ''application/json'', ApiBody = body\<rparr>
    \<and> db (ApiRedis s') = db (ApiRedis s)
    \<and> (\<exists>ms found missing. ApiMetrics s' = ms @ [ASystemsFound found, ASystemsNotFound missing]
         \<and> found + missing = length (filter valid_id ids))"
proof -
  let ?ids = "filter valid_id ids"
  have m: "ApiMethod req \<in> {''GET'', ''POST''}" "?ids \<noteq> []" "length ?ids \<le> maxSystemIDs"
    using req by (auto simp: acceptable_def)
  obtain s1 res found missing where l: "lookup_loop rc unmarshal ?ids Map.empty 0 0 s = (s1, res, found, missing)"
    by (cases "lookup_loop rc unmarshal ?ids Map.empty 0 0 s")
  note served = lookup_loop_served [OF ok up l]
  have "res = (\<lambda>i. if i \<in> set ids \<and> valid_id i then Some (served_index unmarshal (db (ApiRedis s)) i) else None)"
    using served by (auto simp: fun_eq_iff)
  then have "encode res = Inr body" using enc by simp
  then have e: "s' = observe [ARequests elapsed, ARequestsCount, ASystemsRequested (length ?ids),
        ASystemsFound found, ASystemsNotFound missing] s1"
      "resp = \<lparr>ApiStatus = status_ok, ContentType = ''application/json'', ApiBody = body\<rparr>"
    using run l handler_acceptable [OF m(1) req(2) m(2,3), of rc unmarshal encode elapsed s]
    by (simp_all add: serve_indexes_def)
  have "ApiMetrics s' = (ApiMetrics s1 @ [ARequests elapsed, ARequestsCount, ASystemsRequested (length ?ids)])
      @ [ASystemsFound found, ASystemsNotFound missing]" by (simp add: e(1))
  then show ?thesis using served e by (auto simp: status_ok_def)
qed

text \<open>C26: what the endpoint answers. When Redis answers reads, a request with at least one and at most
  500 valid identifiers is answered with 200 and the JSON of a map with exactly these identifiers as
  keys: each is mapped to its stored index, and to a blank index with its number when none is stored or
  the stored text does not decode. Redis is only read, and the found and missing systems add up to the
  identifiers asked for.\<close>

theorem index_request_answered:
  assumes ok: "redis_ok rc db" and up: "redis_up rc"
    and req: "acceptable req" "requested_ids req = Inr ids"
    and enc: "encode (\<lambda>i. if i \<in> set ids \<and> valid_id i
                then Some (served_index unmarshal (db (ApiRedis s)) i) else None) = Inr body"
    and run: "SystemIndexesHandler rc unmarshal encode elapsed req s = (s', resp)"
  shows "resp = \<lparr>ApiStatus = 200, ContentType = ''application/json'', ApiBody = body\<rparr>
    \<and> db (ApiRedis s') = db (ApiRedis s)
    \<and> (\<exists>ms found missing. ApiMetrics s' = ms @ [ASystemsFound found, ASystemsNotFound missing]
         \<and> found + missing = length (filter valid_id ids))"
  using assms by (rule acceptable_answer)

text \<open>C27: what the endpoint refuses. The response is 200 exactly for the acceptable requests: method GET or
  POST, a decodable list, at least one valid identifier and at most 500. Any other request is answered
  with 400 or 405 without a Redis call, and counted as one error.\<close>

theorem index_request_refused:
  "(ApiStatus (snd (SystemIndexesHandler rc unmarshal encode elapsed req s)) = 200 \<longleftrightarrow> acceptable req)
   \<and> (\<not> acceptable req \<longrightarrow>
        ApiStatus (snd (SystemIndexesHandler rc unmarshal encode elapsed req s)) \<in> {400, 405}
      \<and> ApiRedis (fst (SystemIndexesHandler rc unmarshal encode elapsed req s)) = ApiRedis s
      \<and> (\<exists>label. ApiMetrics (fst (SystemIndexesHandler rc unmarshal encode elapsed req s)) = ApiMetrics s @ [AErrors label]))"
proof (cases "acceptable req")
  case True
  then obtain ids where "ApiMethod req \<in> {''GET'', ''POST''}" "requested_ids req = Inr ids"
    "filter valid_id ids \<noteq> []" "length (filter valid_id ids) \<le> maxSystemIDs"
    unfolding acceptable_def by blast
  from handler_acceptable [OF this, of rc unmarshal encode elapsed s] show ?thesis
    using True serve_status [of rc unmarshal encode elapsed _ s] by (simp add: status_ok_def)
next
  case False
  from handler_refused [OF this, of rc unmarshal encode elapsed s]
  obtain label msg code where "SystemIndexesHandler rc unmarshal encode elapsed req s
      = (observe [AErrors label] s, http_Error msg code)" "code \<in> {400, 405}"
    by (auto simp: http_statuses)
  then show ?thesis using False by (auto simp: http_Error_def)
qed

section \<open>Witnesses\<close>

definition sample_api_request :: "string list \<Rightarrow> api_request" where
  "sample_api_request ids = \<lparr>ApiMethod = ''GET'', QueryIds = ids, BodyIds = Inr []\<rparr>"

definition empty_api_state :: "(string \<rightharpoonup> string) api_state" where
  "empty_api_state = \<lparr>ApiRedis = Map.empty, ApiMetrics = []\<rparr>"

lemma memory_redis_up: "redis_up memory_redis"
  by (simp add: redis_up_def memory_redis_def split: option.splits)

theorem index_request_answered_witness:
  "ApiStatus (snd (SystemIndexesHandler memory_redis (\<lambda>_. Inl ErrRedisNil) (\<lambda>_. Inr ''{}'') 0
     (sample_api_request [''34'', ''x'']) empty_api_state)) = 200"
proof -
  have v: "valid_id ''34''" "\<not> valid_id ''x''"
    by (simp_all add: valid_id_def validIDPattern_def is_digit_def parse_int_def parse_nat_def digit_val_def Let_def)
  have "acceptable (sample_api_request [''34'', ''x''])"
    "requested_ids (sample_api_request [''34'', ''x'']) = Inr [''34'', ''x'']"
    using v by (simp_all add: acceptable_def requested_ids_def extractSystemIDsFromGet_def
        sample_api_request_def maxSystemIDs_def)
  from index_request_answered [OF memory_redis_ok memory_redis_up this refl prod.collapse [symmetric]]
  show ?thesis by simp
qed

theorem index_request_refused_witness:
  "ApiStatus (snd (SystemIndexesHandler memory_redis (\<lambda>_. Inl ErrRedisNil) (\<lambda>_. Inr ''{}'') 0
     (sample_api_request [''x'']) empty_api_state)) \<in> {400, 405}"
proof -
  have "\<not> valid_id ''x''" by (simp add: valid_id_def validIDPattern_def is_digit_def)
  then have "\<not> acceptable (sample_api_request [''x''])"
    by (simp add: acceptable_def requested_ids_def extractSystemIDsFromGet_def sample_api_request_def)
  then show ?thesis
    using index_request_refused [of memory_redis "\<lambda>_. Inl ErrRedisNil" "\<lambda>_. Inr ''{}''" 0
        "sample_api_request [''x'']" empty_api_state] by blast
qed

end
