(* ===== verification/Api_Server.thy ===== *)
theory Api_Server
  imports System_Index_Api Connections
begin

text \<open>
  The HTTP front of the API service: the middleware of \<open>cmd/api/middleware/types.go\<close> and
  \<open>ratelimiter.go\<close>, and the routes of \<open>cmd/api/apiServer.go\<close>.

  A handler takes a request and the state (what it works on and what was written) to a state. The
  third-party limiter's middleware is an argument. Listening on the port is left out.
\<close>

section \<open>Middleware\<close>

fun chain_loop :: "('h \<Rightarrow> 'h) list \<Rightarrow> nat \<Rightarrow> 'h \<Rightarrow> 'h" where
  "chain_loop constructors 0 handler = handler"
| "chain_loop constructors (Suc i) handler = chain_loop constructors i ((constructors ! i) handler)"

text \<open>\<open>chain_loop\<close> has the rounds with index below its second argument left.\<close>

definition Chain :: "('h \<Rightarrow> 'h) list \<Rightarrow> 'h \<Rightarrow> 'h" where
  "Chain constructors h = chain_loop constructors (length constructors) h"

definition Wrap :: "'h \<Rightarrow> ('h \<Rightarrow> 'h) list \<Rightarrow> 'h" where
  "Wrap h constructors = Chain constructors h"

type_synonym ('q, 's) handler = "'q \<Rightarrow> 's \<Rightarrow> 's"

definition ApplyIf :: "('q \<Rightarrow> bool) \<Rightarrow> (('q, 's) handler \<Rightarrow> ('q, 's) handler) list \<Rightarrow> ('q, 's) handler \<Rightarrow> ('q, 's) handler" where
  "ApplyIf match constructors nxt =
     (let wrapped = Chain constructors nxt
      in (\<lambda>r s. if match r then wrapped r s else nxt r s))"

text \<open>The matchers, on the path of a request.\<close>

definition Paths :: "string list \<Rightarrow> string \<Rightarrow> bool" where
  "Paths paths p = (p \<in> set paths)"

fun Prefixes :: "string list \<Rightarrow> string \<Rightarrow> bool" where
  "Prefixes [] p = False"
| "Prefixes (pref # prefixes) p =
     (if length pref > 0 \<and> length p \<ge> length pref \<and> take (length pref) p = pref then True
      else Prefixes prefixes p)"

text \<open>\<open>http.ServeMux\<close> with patterns that are plain paths: registering one twice panics.\<close>

type_synonym 'h mux = "string \<rightharpoonup> 'h"

record 'h mw_group =
  wrap :: "'h \<Rightarrow> 'h"

definition NewGroup :: "('h \<Rightarrow> 'h) list \<Rightarrow> 'h mw_group" where
  "NewGroup constructors = \<lparr>wrap = Chain constructors\<rparr>"

definition Handle :: "'h mw_group \<Rightarrow> string \<Rightarrow> 'h \<Rightarrow> 'h mux \<Rightarrow> 'h mux option" where
  "Handle g pattern h mux =
     (if pattern \<in> dom mux then None else Some (mux(pattern \<mapsto> wrap g h)))"

lemma chain_loop_take:
  "i \<le> length cs \<Longrightarrow> chain_loop cs i h = foldr (\<lambda>c h. c h) (take i cs) h"
  by (induction i arbitrary: h) (simp_all add: take_Suc_conv_app_nth)

lemma Chain_foldr: "Chain cs h = foldr (\<lambda>c h. c h) cs h"
  by (simp add: Chain_def chain_loop_take)

text \<open>The first constructor is the outermost one; chains compose.\<close>

lemma Chain_simps [simp]: "Chain [] h = h" "Chain (c # cs) h = c (Chain cs h)"
  by (simp_all add: Chain_foldr)

lemma Chain_append: "Chain (as @ bs) h = Chain as (Chain bs h)"
  by (simp add: Chain_foldr)

lemma Prefixes_iff: "Prefixes prefs p \<longleftrightarrow> (\<exists>pref\<in>set prefs. pref \<noteq> [] \<and> has_prefix p pref)"
proof (induction prefs)
  case (Cons pref prefs)
  have "length p \<ge> length pref \<and> take (length pref) p = pref \<longleftrightarrow> has_prefix p pref"
    by (auto simp: has_prefix_def dest: arg_cong [where f = length])
  then show ?case using Cons by auto
qed simp

section \<open>Rate limiting\<close>

text \<open>What a handler writes goes through a \<open>statusRecorder\<close>, which only remembers the status for the log:
  \<open>status_of\<close> is the status a state was written with, \<open>log\<close> the log entry. \<open>limit\<close> is the
  middleware of the limiter for a rate.\<close>

definition RateLimiterConstructor :: "('rate \<Rightarrow> ('q, 's) handler \<Rightarrow> ('q, 's) handler) \<Rightarrow> ('s \<Rightarrow> int)
    \<Rightarrow> (bool \<Rightarrow> 'q \<Rightarrow> 's \<Rightarrow> 's) \<Rightarrow> 'rate \<Rightarrow> ('q, 's) handler \<Rightarrow> ('q, 's) handler" where
  "RateLimiterConstructor limit status_of log rateLimit nxt =
     (let inner = limit rateLimit nxt
      in (\<lambda>r s. let s1 = inner r s
                in if status_of s1 = status_too_many_requests then log False r s1 else log True r s1))"

section \<open>The routes\<close>

text \<open>What the server's handlers work on: Redis, the endpoint's metrics, and the response.\<close>

record 'r server_state =
  Api :: "'r api_state"
  Response :: "api_response option"
  RequestLog :: "(bool \<times> string) list"

record server_request =
  UrlPath :: string
  Request :: api_request

definition write_text :: "string \<Rightarrow> 'r server_state \<Rightarrow> 'r server_state" where
  "write_text txt s =
     s\<lparr>Response := Some \<lparr>ApiStatus = status_ok, ContentType = ''text/plain; charset=utf-8'', ApiBody = txt\<rparr>\<rparr>"

definition AuthHandler :: "(server_request, 'r server_state) handler" where
  "AuthHandler r s = write_text ''Hello, Auth!'' s"

definition PrivateHandler :: "(server_request, 'r server_state) handler" where
  "PrivateHandler r s = write_text ''Hello, Private!'' s"

definition IndexHandler :: "'r redis_client \<Rightarrow> (string \<Rightarrow> go_error + SystemIndexes)
    \<Rightarrow> ((string \<rightharpoonup> SystemIndexes) \<Rightarrow> go_error + string) \<Rightarrow> duration \<Rightarrow> (server_request, 'r server_state) handler" where
  "IndexHandler rc unmarshal encode elapsed r s =
     (case SystemIndexesHandler rc unmarshal encode elapsed (Request r) (Api s) of
        (a, resp) \<Rightarrow> s\<lparr>Api := a, Response := Some resp\<rparr>)"

definition log_request :: "bool \<Rightarrow> server_request \<Rightarrow> 'r server_state \<Rightarrow> 'r server_state" where
  "log_request allowed r s = s\<lparr>RequestLog := RequestLog s @ [(allowed, UrlPath r)]\<rparr>"

definition written_status :: "'r server_state \<Rightarrow> int" where
  "written_status s = (case Response s of None \<Rightarrow> status_ok | Some resp \<Rightarrow> ApiStatus resp)"

fun register_routes :: "'h mw_group \<Rightarrow> (string \<times> 'h) list \<Rightarrow> 'h mux \<Rightarrow> 'h mux option" where
  "register_routes g [] mux = Some mux"
| "register_routes g ((path, h) # rest) mux =
     (case Handle g path h mux of None \<Rightarrow> None | Some mux1 \<Rightarrow> register_routes g rest mux1)"

text \<open>The multiplexer that \<open>StartAPIServer\<close> serves; \<open>parse_rate\<close> is \<open>limiter.NewRateFromFormatted\<close>,
  \<open>store\<close> whether the limiter's Redis store could be created.\<close>

definition StartAPIServer :: "environment \<Rightarrow> (string \<Rightarrow> go_error + 'rate) \<Rightarrow> go_error option
    \<Rightarrow> ('rate \<Rightarrow> (server_request, 'r server_state) handler \<Rightarrow> (server_request, 'r server_state) handler)
    \<Rightarrow> (server_request, 'r server_state) handler \<Rightarrow> go_error + (server_request, 'r server_state) handler mux option" where
  "StartAPIServer env parse_rate store limit index =
     (if env ''FAIL_ON_STARTUP'' = ''true'' then Inl (ErrText ''startup failure requested via FAIL_ON_STARTUP'')
      else case parse_rate ''5-S'' of
        Inl err \<Rightarrow> Inl err
      | Inr publicRateLimit \<Rightarrow>
          (case parse_rate ''100-M'' of
             Inl err \<Rightarrow> Inl err
           | Inr privateRateLimit \<Rightarrow>
               (case store of
                  Some err \<Rightarrow> Inl err
                | None \<Rightarrow>
                    (let publicGroup = NewGroup ([] @ [RateLimiterConstructor limit written_status log_request publicRateLimit]);
                         privateGroup = NewGroup ([] @ [RateLimiterConstructor limit written_status log_request privateRateLimit])
                     in Inr (case register_routes publicGroup
                                    [(''/auth/v1'', AuthHandler), (''/v1/systemindexes'', index)] Map.empty of
                               None \<Rightarrow> None
                             | Some mux \<Rightarrow> register_routes privateGroup [(''/private/v1'', PrivateHandler)] mux)))))"

text \<open>\<open>ServeHTTP\<close> of the multiplexer on a plain path.\<close>

definition serve :: "(server_request, 'r server_state) handler mux \<Rightarrow> (server_request, 'r server_state) handler" where
  "serve mux r s =
     (case mux (UrlPath r) of
        Some h \<Rightarrow> h r s
      | None \<Rightarrow> s\<lparr>Response := Some (http_Error ''404 page not found'' 404)\<rparr>)"

section \<open>Properties\<close>

text \<open>What the limiter documents: it runs the handler on a request it admits and answers the others with
  429 itself. It works on its own store, which is not part of the state here.\<close>

definition limit_ok :: "('rate \<Rightarrow> (server_request, 'r server_state) handler \<Rightarrow> (server_request, 'r server_state) handler)
    \<Rightarrow> ('rate \<Rightarrow> server_request \<Rightarrow> 'r server_state \<Rightarrow> bool) \<Rightarrow> bool" where
  "limit_ok limit admits \<longleftrightarrow>
     (\<forall>rate nxt r s. limit rate nxt r s =
        (if admits rate r s then nxt r s
         else s\<lparr>Response := Some (http_Error ''Limit exceeded'' status_too_many_requests)\<rparr>))"

lemma log_request_simps [simp]:
  "Api (log_request b r s) = Api s" "Response (log_request b r s) = Response s"
  by (simp_all add: log_request_def)

lemma limited:
  assumes "limit_ok limit admits"
  shows "Api (RateLimiterConstructor limit written_status log_request rate h r s)
      = (if admits rate r s then Api (h r s) else Api s)"
    and "Response (RateLimiterConstructor limit written_status log_request rate h r s)
      = (if admits rate r s then Response (h r s) else Some (http_Error ''Limit exceeded'' status_too_many_requests))"
  using assms by (simp_all add: RateLimiterConstructor_def limit_ok_def Let_def)

lemma started_mux:
  assumes "StartAPIServer env parse_rate store limit index = Inr m"
  obtains pub priv where "parse_rate ''5-S'' = Inr pub" "parse_rate ''100-M'' = Inr priv"
    "m = Some [''/auth/v1'' \<mapsto> RateLimiterConstructor limit written_status log_request pub AuthHandler,
           ''/v1/systemindexes'' \<mapsto> RateLimiterConstructor limit written_status log_request pub index,
           ''/private/v1'' \<mapsto> RateLimiterConstructor limit written_status log_request priv PrivateHandler]"
  using assms
  by (auto simp: StartAPIServer_def Let_def NewGroup_def Handle_def split: if_splits sum.splits option.splits)

text \<open>The routes of the API server. Once it starts, registering the routes has not panicked, and a request
  for the system indexes is answered by the endpoint exactly when the public limiter (five requests per
  second) admits it, with 429 and an untouched store otherwise; a path without a route gets 404.\<close>

theorem index_behind_limiter:
  assumes "limit_ok limit admits"
    and "StartAPIServer env parse_rate store limit (IndexHandler rc unmarshal encode elapsed) = Inr m"
  shows "\<exists>mux pub. m = Some mux \<and> parse_rate ''5-S'' = Inr pub \<and>
    (UrlPath r = ''/v1/systemindexes'' \<longrightarrow>
      (if admits pub r s
       then Response (serve mux r s) = Some (snd (SystemIndexesHandler rc unmarshal encode elapsed (Request r) (Api s)))
         \<and> Api (serve mux r s) = fst (SystemIndexesHandler rc unmarshal encode elapsed (Request r) (Api s))
       else written_status (serve mux r s) = 429 \<and> Api (serve mux r s) = Api s)) \<and>
    (UrlPath r \<notin> {''/auth/v1'', ''/v1/systemindexes'', ''/private/v1''} \<longrightarrow>
       written_status (serve mux r s) = 404 \<and> Api (serve mux r s) = Api s)"
proof -
  obtain pub priv where m: "parse_rate ''5-S'' = Inr pub"
    "m = Some [''/auth/v1'' \<mapsto> RateLimiterConstructor limit written_status log_request pub AuthHandler,
       ''/v1/systemindexes'' \<mapsto> RateLimiterConstructor limit written_status log_request pub
          (IndexHandler rc unmarshal encode elapsed),
       ''/private/v1'' \<mapsto> RateLimiterConstructor limit written_status log_request priv PrivateHandler]"
    using assms(2) by (rule started_mux)
  show ?thesis
    unfolding m
    by (intro exI conjI refl impI)
      (auto simp: serve_def limited [OF assms(1)] IndexHandler_def written_status_def http_Error_def
        status_too_many_requests_def split: prod.split)
qed

section \<open>Witness\<close>

theorem index_behind_limiter_witness:
  "\<exists>mux. StartAPIServer (\<lambda>_. []) (\<lambda>s. Inr (length s)) None (\<lambda>rate nxt r s.
        s\<lparr>Response := Some (http_Error ''Limit exceeded'' status_too_many_requests)\<rparr>)
        (IndexHandler memory_redis (\<lambda>_. Inl ErrRedisNil) (\<lambda>_. Inr ''{}'') 0) = Inr (Some mux)
    \<and> written_status (serve mux \<lparr>UrlPath = ''/v1/systemindexes'', Request = sample_api_request [''34'']\<rparr>
        \<lparr>Api = empty_api_state, Response = None, RequestLog = []\<rparr>) = 429"
proof -
  let ?limit = "\<lambda>(rate :: nat) nxt r s. s\<lparr>Response := Some (http_Error ''Limit exceeded'' status_too_many_requests)\<rparr>"
  have ok: "limit_ok ?limit (\<lambda>_ _ _. False)" by (simp add: limit_ok_def)
  obtain m where m: "StartAPIServer (\<lambda>_. []) (\<lambda>s. Inr (length s)) None ?limit
      (IndexHandler memory_redis (\<lambda>_. Inl ErrRedisNil) (\<lambda>_. Inr ''{}'') 0) = Inr m"
    by (simp add: StartAPIServer_def Let_def)
  from index_behind_limiter [OF ok m, of "\<lparr>UrlPath = ''/v1/systemindexes'', Request = sample_api_request [''34'']\<rparr>"
      "\<lparr>Api = empty_api_state, Response = None, RequestLog = []\<rparr>"]
  obtain mux where "m = Some mux" "written_status (serve mux \<lparr>UrlPath = ''/v1/systemindexes'', Request = sample_api_request [''34'']\<rparr>
        \<lparr>Api = empty_api_state, Response = None, RequestLog = []\<rparr>) = 429" by auto
  then show ?thesis using m by blast
qed

end
