(* ===== verification/Ws_Server.thy ===== *)
theory Ws_Server
  imports Services Job_Registry Api_Server
begin

text \<open>
  The WebSocket server of \<open>cmd/api/wsServer..go\<close>, the stub \<open>internal/ws/server.go\<close>, the signal context of
  \<open>internal/shared/shutdown.go\<close>, and the parts of the \<open>main\<close> functions that run beside one another: the API
  service whose server fails (\<open>cmd/api/main.go\<close>) and the scheduler (\<open>cmd/scheduler/main.go\<close>).

  The WebSocket library is a record of functions on the state of the connections. The loop of a connection
  may go on for ever: the result \<open>None\<close>.
\<close>

section \<open>A connection\<close>

record ('s, 'c) ws_lib =
  ws_Upgrade :: "'s \<Rightarrow> 's \<times> (go_error + 'c)"
  ws_ReadMessage :: "'c \<Rightarrow> 's \<Rightarrow> 's \<times> (go_error + string)"
  ws_WriteMessage :: "'c \<Rightarrow> string \<Rightarrow> 's \<Rightarrow> 's \<times> go_error option"
  ws_Close :: "'c \<Rightarrow> 's \<Rightarrow> 's"

text \<open>The upgrader admits requests of any origin.\<close>

definition CheckOrigin :: "'req \<Rightarrow> bool" where
  "CheckOrigin r = True"

partial_function (option) ws_loop :: "('s, 'c) ws_lib \<Rightarrow> 'c \<Rightarrow> 's \<Rightarrow> 's option" where
  "ws_loop lib conn s =
     (case ws_ReadMessage lib conn s of
        (s1, Inl err) \<Rightarrow> Some s1
      | (s1, Inr msg) \<Rightarrow>
          (case ws_WriteMessage lib conn ''Hello, World!'' s1 of
             (s2, Some err) \<Rightarrow> Some s2
           | (s2, None) \<Rightarrow> ws_loop lib conn s2))"

declare ws_loop.simps [simp del]

definition ws_handler :: "('s, 'c) ws_lib \<Rightarrow> 's \<Rightarrow> 's option" where
  "ws_handler lib s =
     (case ws_Upgrade lib s of
        (s1, Inl err) \<Rightarrow> Some s1
      | (s1, Inr conn) \<Rightarrow> map_option (ws_Close lib conn) (ws_loop lib conn s1))"

text \<open>The handlers behind the two routes, on the state of the connections and the last response.\<close>

definition ws_routes :: "('s, 'c) ws_lib \<Rightarrow> string \<rightharpoonup> ('s \<Rightarrow> ('s \<times> (int \<times> string) option) option)" where
  "ws_routes lib =
     [''/healthz'' \<mapsto> (\<lambda>s. Some (s, Some (status_ok, ''ok''))),
      ''/ws'' \<mapsto> (\<lambda>s. map_option (\<lambda>s1. (s1, None)) (ws_handler lib s))]"

text \<open>\<open>listen\<close> is \<open>http.ListenAndServe\<close>: it serves until it fails.\<close>

definition StartWSServer :: "environment \<Rightarrow> ('s, 'c) ws_lib
    \<Rightarrow> (string \<Rightarrow> (string \<rightharpoonup> ('s \<Rightarrow> ('s \<times> (int \<times> string) option) option)) \<Rightarrow> 's \<Rightarrow> 's \<times> go_error option) \<Rightarrow> 's \<Rightarrow> 's \<times> go_error option" where
  "StartWSServer env lib listen s = listen (CHR '':'' # WS_PORT (LoadConfig env)) (ws_routes lib) s"

definition StartServer :: "string \<Rightarrow> go_error option" where
  "StartServer addr = None"

section \<open>Signals and shutdown\<close>

text \<open>The channel of the signal context has room for one signal; its goroutine takes one, cancels the context and
  ends. A signal that finds the channel full is dropped by \<open>signal.Notify\<close>.\<close>

record signal_context =
  SigChan :: nat
  Listening :: bool
  Cancelled :: bool

definition NewSignalContext :: signal_context where
  "NewSignalContext = \<lparr>SigChan = 0, Listening = True, Cancelled = False\<rparr>"

inductive signal_step :: "signal_context \<Rightarrow> signal_context \<Rightarrow> bool" where
  arrive: "signal_step c (c\<lparr>SigChan := min 1 (SigChan c + 1)\<rparr>)"
| listen: "Listening c \<Longrightarrow> SigChan c = Suc n \<Longrightarrow> signal_step c (c\<lparr>SigChan := n, Listening := False, Cancelled := True\<rparr>)"
| cancel: "signal_step c (c\<lparr>Cancelled := True\<rparr>)"

text \<open>The API service when its server fails: the goroutine cancels the context and runs the cleanups, and so does
  \<open>main\<close>, whose return ends the process when the goroutine has run \<open>k\<close> of them.\<close>

definition api_server_failed :: "'s cleanup list \<Rightarrow> 's \<Rightarrow> 's \<Rightarrow> bool" where
  "api_server_failed cleanupFns s s1 \<longleftrightarrow>
     (\<exists>k order. order \<in> shuffles cleanupFns (take k cleanupFns) \<and> s1 = run_cleanups order s)"

text \<open>The scheduler service; \<open>begin_scheduler\<close> is its \<open>startScheduler\<close> on the outside, which gives the function that
  stops it.\<close>

definition scheduler_main :: "('s, 'm, 'n, 'j, 'r, 'p, 'h) service_libs \<Rightarrow> environment
    \<Rightarrow> ('n \<Rightarrow> 'j \<Rightarrow> 'r \<Rightarrow> 'm \<Rightarrow> 's \<Rightarrow> 's \<times> ('s \<Rightarrow> 's)) \<Rightarrow> ('s \<Rightarrow> 's) \<Rightarrow> 's \<Rightarrow> 's" where
  "scheduler_main lib env begin_scheduler running =
     start_step (\<lambda>s. connected (ConnectMongo (mongo lib) env s))
       (\<lambda>mongoClient. [Some (CleanupMongo (mongo lib) (Some mongoClient))]) (\<lambda>mongoClient.
     start_step (\<lambda>s. connected (ConnectJetStream (nats lib) env s))
       (\<lambda>(natsConn, js). [Some (CleanupNats (nats lib) (Some natsConn))]) (\<lambda>(natsConn, js).
     start_step (\<lambda>s. connected (ConnectRedis (redis_l lib) env s))
       (\<lambda>redisClient. [Some (CleanupRedis (redis_l lib) (Some redisClient))]) (\<lambda>redisClient cleanupFns s.
     (case begin_scheduler natsConn js redisClient mongoClient s of
        (s1, stop) \<Rightarrow> WaitForShutdown running (cleanupFns @ [Some stop]) s1)))) []"

section \<open>Answers\<close>

text \<open>\<open>Incoming\<close> are the messages that still arrive, after which reading fails; \<open>Written\<close> those that were sent.\<close>

definition script_ok :: "('s, 'c) ws_lib \<Rightarrow> ('s \<Rightarrow> string list) \<Rightarrow> ('s \<Rightarrow> string list) \<Rightarrow> ('s \<Rightarrow> nat) \<Rightarrow> bool" where
  "script_ok lib incoming written closed \<longleftrightarrow>
     (\<forall>c s. case ws_ReadMessage lib c s of
        (s1, Inl err) \<Rightarrow> incoming s = [] \<and> incoming s1 = [] \<and> written s1 = written s \<and> closed s1 = closed s
      | (s1, Inr msg) \<Rightarrow> incoming s = msg # incoming s1 \<and> written s1 = written s \<and> closed s1 = closed s)
   \<and> (\<forall>c m s. case ws_WriteMessage lib c m s of
        (s1, err) \<Rightarrow> err = None \<and> incoming s1 = incoming s \<and> written s1 = written s @ [m] \<and> closed s1 = closed s)
   \<and> (\<forall>c s. incoming (ws_Close lib c s) = incoming s \<and> written (ws_Close lib c s) = written s \<and> closed (ws_Close lib c s) = closed s + 1)
   \<and> (\<forall>s. case ws_Upgrade lib s of
        (s1, r) \<Rightarrow> \<not> isl r \<and> incoming s1 = incoming s \<and> written s1 = written s \<and> closed s1 = closed s)"

lemmas script_laws = script_ok_def [THEN iffD1]
lemmas script_reading = script_laws [THEN conjunct1, THEN spec, THEN spec]
lemmas script_writing = script_laws [THEN conjunct2, THEN conjunct1, THEN spec, THEN spec, THEN spec]
lemmas script_upgrading = script_laws [THEN conjunct2, THEN conjunct2, THEN conjunct2, THEN spec]

lemma script_read:
  assumes "script_ok lib incoming written closed" and "ws_ReadMessage lib conn s = (s1, r)"
  shows "written s1 = written s" "closed s1 = closed s"
    "case r of Inl err \<Rightarrow> incoming s = [] \<and> incoming s1 = [] | Inr msg \<Rightarrow> incoming s = msg # incoming s1"
  using script_reading [OF assms(1), of s conn] unfolding assms(2) by (cases r; simp)+

lemma script_write:
  assumes "script_ok lib incoming written closed"
  shows "\<exists>s1. ws_WriteMessage lib conn m s = (s1, None) \<and> incoming s1 = incoming s
    \<and> written s1 = written s @ [m] \<and> closed s1 = closed s"
  using script_writing [OF assms, of s m conn] by (cases "ws_WriteMessage lib conn m s") simp

lemma ws_loop_answers:
  assumes ok: "script_ok lib incoming written closed"
  shows "incoming s = msgs \<Longrightarrow> \<exists>s1. ws_loop lib conn s = Some s1 \<and> incoming s1 = []
    \<and> written s1 = written s @ replicate (length msgs) ''Hello, World!'' \<and> closed s1 = closed s"
proof (induction msgs arbitrary: s)
  case Nil
  obtain s1 r where r: "ws_ReadMessage lib conn s = (s1, r)" by fastforce
  show ?case using script_read [OF ok r] Nil r by (cases r) (simp_all add: ws_loop.simps [of lib conn s])
next
  case (Cons m msgs)
  obtain s1 r where r: "ws_ReadMessage lib conn s = (s1, r)" by fastforce
  have s1: "r = Inr m" "incoming s1 = msgs" using script_read(3) [OF ok r] Cons.prems by (cases r; simp)+
  note same = script_read(1,2) [OF ok r]
  obtain s2 where s2: "ws_WriteMessage lib conn ''Hello, World!'' s1 = (s2, None)" "incoming s2 = incoming s1"
    "written s2 = written s1 @ [''Hello, World!'']" "closed s2 = closed s1"
    using script_write [OF ok] by blast
  have "incoming s2 = msgs" using s2(2) s1(2) by simp
  then obtain s3 where s3: "ws_loop lib conn s2 = Some s3" "incoming s3 = []"
    "written s3 = written s2 @ replicate (length msgs) ''Hello, World!''" "closed s3 = closed s2"
    using Cons.IH by blast
  have "ws_loop lib conn s = Some s3" using r s1(1) s2(1) s3(1) by (simp add: ws_loop.simps [of lib conn s])
  then show ?case using s3(2,3,4) s2(3,4) same by simp
qed

text \<open>A connection is answered and closed. As long as messages arrive and can be answered, the handler of \<open>/ws\<close> sends one greeting
  per message; when the client is gone it ends, and the connection is closed exactly once.\<close>

theorem ws_connection_answered:
  assumes ok: "script_ok lib incoming written closed"
  shows "\<exists>s1. ws_handler lib s = Some s1
    \<and> written s1 = written s @ replicate (length (incoming s)) ''Hello, World!'' \<and> closed s1 = closed s + 1"
proof -
  obtain s1 r where u: "ws_Upgrade lib s = (s1, r)" by fastforce
  have "\<not> isl r \<and> incoming s1 = incoming s \<and> written s1 = written s \<and> closed s1 = closed s"
    using script_upgrading [OF ok, of s] by (simp add: u)
  then obtain conn where c: "r = Inr conn" "incoming s1 = incoming s" "written s1 = written s" "closed s1 = closed s"
    by (cases r) simp_all
  obtain s2 where "ws_loop lib conn s1 = Some s2"
    "written s2 = written s1 @ replicate (length (incoming s)) ''Hello, World!''" "closed s2 = closed s1"
    using ws_loop_answers [OF ok c(2)] by blast
  moreover have "written (ws_Close lib conn s2) = written s2" "closed (ws_Close lib conn s2) = closed s2 + 1"
    using ok by (simp_all add: script_ok_def)
  ultimately show ?thesis using u c by (simp add: ws_handler_def)
qed

section \<open>Shutdown runs once, or twice\<close>

text \<open>Once the first signal has been taken nothing listens to further ones: a cleanup that hangs cannot be
  interrupted by a second interrupt.\<close>

lemma signal_inv: "signal_step\<^sup>*\<^sup>* NewSignalContext c \<Longrightarrow> SigChan c \<le> 1 \<and> (\<not> Listening c \<longrightarrow> Cancelled c)"
proof (induction rule: rtranclp_induct)
  case (step c c1)
  from step(2,3) show ?case by (cases rule: signal_step.cases) auto
qed (simp add: NewSignalContext_def)

lemma signals_after_first: "signal_step\<^sup>*\<^sup>* c c1 \<Longrightarrow> \<not> Listening c \<Longrightarrow> Cancelled c \<Longrightarrow> \<not> Listening c1 \<and> Cancelled c1"
proof (induction rule: rtranclp_induct)
  case (step c1 c2)
  then show ?case by (auto elim!: signal_step.cases)
qed simp

text \<open>When the API server fails, every cleanup may run twice, one after the other.\<close>

theorem api_cleanups_twice:
  "api_server_failed cleanupFns s (run_cleanups (cleanupFns @ cleanupFns) s)"
proof -
  have "xs @ ys \<in> shuffles xs ys" for xs ys :: "'a cleanup list"
    by (induction xs) (auto simp: Cons_in_shuffles_leftI)
  then have "cleanupFns @ cleanupFns \<in> shuffles cleanupFns (take (length cleanupFns) cleanupFns)" by simp
  then show ?thesis unfolding api_server_failed_def by blast
qed

text \<open>The scheduler stops after its connections are closed.\<close>

theorem scheduler_shutdown_order:
  assumes "ConnectMongo (mongo lib) env s = (s1, l1, w1, Inr m)"
    and "ConnectJetStream (nats lib) env s1 = (s2, l2, w2, Inr (conn, js))"
    and "ConnectRedis (redis_l lib) env s2 = (s3, l3, w3, Inr rc)"
    and "begin_scheduler conn js rc m s3 = (s4, stop)"
  shows "scheduler_main lib env begin_scheduler running s =
    stop (CleanupRedis (redis_l lib) (Some rc) (CleanupNats (nats lib) (Some conn)
      (CleanupMongo (mongo lib) (Some m) (running s4))))"
  using assms by (simp add: scheduler_main_def start_step_def connected_def WaitForShutdown_def)

definition script_lib :: "(string list \<times> string list \<times> nat, unit) ws_lib" where
  "script_lib =
     \<lparr>ws_Upgrade = (\<lambda>s. (s, Inr ())),
      ws_ReadMessage = (\<lambda>c (i, w, n). case i of [] \<Rightarrow> ((i, w, n), Inl (ErrText ''closed'')) | m # ms \<Rightarrow> ((ms, w, n), Inr m)),
      ws_WriteMessage = (\<lambda>c m (i, w, n). ((i, w @ [m], n), None)), ws_Close = (\<lambda>c (i, w, n). (i, w, n + 1))\<rparr>"

theorem ws_connection_answered_witness:
  "\<exists>s1. ws_handler script_lib ([''a'', ''b''], [], 0) = Some s1
    \<and> fst (snd s1) = [''Hello, World!'', ''Hello, World!''] \<and> snd (snd s1) = 1"
proof -
  have "script_ok script_lib fst (\<lambda>s. fst (snd s)) (\<lambda>s. snd (snd s))"
    by (auto simp: script_ok_def script_lib_def split: list.split)
  from ws_connection_answered [OF this, of "([''a'', ''b''], [], 0)"] show ?thesis by (simp add: eval_nat_numeral)
qed

end
