(* ===== verification/Auth.thy ===== *)
theory Auth
  imports Connections
begin

text \<open>
  Token exchange: \<open>internal/core/auth/auth.go\<close>.

  The JWT library is a record of functions: parsing with a key function, and signing with HS256. A key
  function looks at the signing method of the token's header and gives a key or an error. Claims are
  the fields the code reads; an instant of a claim has whole seconds (\<open>jwt.NewNumericDate\<close>).
\<close>

section \<open>Claims\<close>

record ExternalClaims =
  ExtSubject :: string
  ExtName :: string
  ExtEmail :: string
  Issuer :: string
  Audience :: "string list"

record UserClaims =
  UserID :: string
  Username :: string
  Roles :: "string list"
  IssuedAt :: time
  ExpiresAt :: time

datatype signing_method = HMAC string | OtherMethod string

type_synonym jwt_key = string
type_synonym key_func = "signing_method \<Rightarrow> go_error + jwt_key"

text \<open>\<open>parse_token kf t\<close> is \<open>jwt.ParseWithClaims\<close>: the claims with the flag \<open>Valid\<close>, or an error.\<close>

record jwt_lib =
  parse_token :: "key_func \<Rightarrow> string \<Rightarrow> go_error + ExternalClaims \<times> bool"
  sign_HS256 :: "jwt_key \<Rightarrow> UserClaims \<Rightarrow> go_error + string"

record Authenticator =
  signingKey :: jwt_key
  externalKey :: jwt_key
  expectedIssuer :: string
  expectedAudience :: string

definition NewAuthenticator :: "Config \<Rightarrow> Authenticator" where
  "NewAuthenticator cfg =
     \<lparr>signingKey = AuthSecret cfg, externalKey = ExternalJWTSecret cfg,
      expectedIssuer = ExternalJWTIssuer cfg, expectedAudience = ExternalJWTAudience cfg\<rparr>"

section \<open>Validation\<close>

fun external_key :: "Authenticator \<Rightarrow> key_func" where
  "external_key a (HMAC alg) = Inr (externalKey a)"
| "external_key a (OtherMethod alg) = Inl (ErrText ''unexpected signing method for external token'')"

fun audience_matches :: "string \<Rightarrow> string list \<Rightarrow> bool" where
  "audience_matches want [] = False"
| "audience_matches want (aud # auds) = (if aud = want then True else audience_matches want auds)"

definition ValidateExternalToken :: "jwt_lib \<Rightarrow> Authenticator \<Rightarrow> string \<Rightarrow> go_error + ExternalClaims" where
  "ValidateExternalToken lib a tokenString =
     (case parse_token lib (external_key a) tokenString of
        Inl err \<Rightarrow> Inl err
      | Inr (claims, valid) \<Rightarrow>
          if \<not> valid then Inl (ErrText ''invalid external token'')
          else if expectedIssuer a \<noteq> [] \<and> Issuer claims \<noteq> expectedIssuer a
          then Inl (ErrText ''unexpected external token issuer'')
          else if expectedAudience a \<noteq> [] then
            (if Audience claims = [] then Inl (ErrText ''unexpected external token audience'')
             else if \<not> audience_matches (expectedAudience a) (Audience claims)
             then Inl (ErrText ''unexpected external token audience'')
             else Inr claims)
          else Inr claims)"

section \<open>Exchange\<close>

definition numeric_date :: "time \<Rightarrow> time" where
  "numeric_date t = t - t mod second"

definition ExchangeToken :: "jwt_lib \<Rightarrow> Authenticator \<Rightarrow> time \<Rightarrow> string \<Rightarrow> duration
    \<Rightarrow> go_error + string \<times> UserClaims" where
  "ExchangeToken lib a now externalToken ttl =
     (case ValidateExternalToken lib a externalToken of
        Inl err \<Rightarrow> Inl err
      | Inr ext \<Rightarrow>
          (let userID = ExtSubject ext;
               username = (if ExtName ext = [] then ExtEmail ext else ExtName ext);
               internal = \<lparr>UserID = userID, Username = username, Roles = [],
                           IssuedAt = numeric_date now, ExpiresAt = numeric_date (time_add now ttl)\<rparr>
           in case sign_HS256 lib (signingKey a) internal of
                Inl err \<Rightarrow> Inl err
              | Inr jwt \<Rightarrow> Inr (jwt, internal)))"

section \<open>Properties\<close>

lemma audience_matches_iff: "audience_matches want auds \<longleftrightarrow> want \<in> set auds"
  by (induction auds) auto

text \<open>What the library documents: claims come from a token whose signature is right under the key that the
  key function gave for the token's own signing method.\<close>

definition jwt_ok :: "jwt_lib \<Rightarrow> (signing_method \<Rightarrow> jwt_key \<Rightarrow> string \<Rightarrow> ExternalClaims \<Rightarrow> bool) \<Rightarrow> bool" where
  "jwt_ok lib signed_by \<longleftrightarrow>
     (\<forall>kf t claims. parse_token lib kf t = Inr (claims, True) \<longrightarrow>
        (\<exists>m k. kf m = Inr k \<and> signed_by m k t claims))"

lemma ValidateExternalToken_cases:
  assumes "ValidateExternalToken lib a t = Inr claims"
  shows "parse_token lib (external_key a) t = Inr (claims, True)"
    and "expectedIssuer a = [] \<or> Issuer claims = expectedIssuer a"
    and "expectedAudience a = [] \<or> expectedAudience a \<in> set (Audience claims)"
  using assms by (auto simp: ValidateExternalToken_def audience_matches_iff split: sum.splits if_splits)

text \<open>C28: no internal token without a valid external one. A token is issued only when the external token
  carries an HMAC signature under the external key and its issuer and audience are the configured ones
  (when configured); it is signed with the internal key over exactly this identity: the user is the external
  subject, the name the external name or else the e-mail address, no roles, issued now and expiring after
  the requested period, in whole seconds.\<close>

theorem exchange_needs_valid_token:
  assumes lib: "jwt_ok lib signed_by" and ex: "ExchangeToken lib a now t ttl = Inr (jwt, claims)"
  shows "\<exists>ext alg. signed_by (HMAC alg) (externalKey a) t ext
    \<and> (expectedIssuer a = [] \<or> Issuer ext = expectedIssuer a)
    \<and> (expectedAudience a = [] \<or> expectedAudience a \<in> set (Audience ext))
    \<and> sign_HS256 lib (signingKey a) claims = Inr jwt
    \<and> UserID claims = ExtSubject ext
    \<and> Username claims = (if ExtName ext \<noteq> [] then ExtName ext else ExtEmail ext)
    \<and> Roles claims = []
    \<and> IssuedAt claims = now - now mod second
    \<and> ExpiresAt claims = time_add now ttl - time_add now ttl mod second"
proof -
  obtain ext where v: "ValidateExternalToken lib a t = Inr ext"
    and s: "sign_HS256 lib (signingKey a) claims = Inr jwt"
    and c: "claims = \<lparr>UserID = ExtSubject ext, Username = (if ExtName ext = [] then ExtEmail ext else ExtName ext),
       Roles = [], IssuedAt = numeric_date now, ExpiresAt = numeric_date (time_add now ttl)\<rparr>"
    using ex by (auto simp: ExchangeToken_def Let_def split: sum.splits)
  note valid = ValidateExternalToken_cases [OF v]
  obtain m k where m: "external_key a m = Inr k" "signed_by m k t ext"
    using lib valid(1) unfolding jwt_ok_def by blast
  then obtain alg where "m = HMAC alg" "k = externalKey a" by (cases m) auto
  then show ?thesis using m(2) valid(2,3) s c
    by (intro exI [of _ ext] exI [of _ alg]) (simp add: numeric_date_def)
qed

section \<open>Witness\<close>

definition sample_jwt :: jwt_lib where
  "sample_jwt =
     \<lparr>parse_token = (\<lambda>kf t. case kf (HMAC ''HS256'') of
        Inl err \<Rightarrow> Inl err
      | Inr k \<Rightarrow> if t = k @ ''.ok'' then
           Inr (\<lparr>ExtSubject = ''7'', ExtName = [], ExtEmail = ''a'', Issuer = ''i'', Audience = []\<rparr>, True)
         else Inl (ErrText ''signature is invalid'')),
      sign_HS256 = (\<lambda>k c. Inr (k @ UserID c))\<rparr>"

definition sample_auth :: Authenticator where
  "sample_auth = \<lparr>signingKey = ''s'', externalKey = ''e'', expectedIssuer = ''i'', expectedAudience = []\<rparr>"

theorem exchange_needs_valid_token_witness:
  "\<exists>jwt claims. ExchangeToken sample_jwt sample_auth 0 ''e.ok'' second = Inr (jwt, claims) \<and> UserID claims = ''7''"
proof -
  have ok: "jwt_ok sample_jwt (\<lambda>m k t c. m = HMAC ''HS256'' \<and> t = k @ ''.ok'' \<and> ExtSubject c = ''7'')"
    by (auto simp: jwt_ok_def sample_jwt_def split: sum.splits if_splits)
  obtain jwt claims where ex: "ExchangeToken sample_jwt sample_auth 0 ''e.ok'' second = Inr (jwt, claims)"
    by (simp add: ExchangeToken_def ValidateExternalToken_def sample_jwt_def sample_auth_def Let_def)
  from exchange_needs_valid_token [OF ok ex] have "UserID claims = ''7''" by (elim exE conjE) simp
  then show ?thesis using ex by simp
qed

end
