(* ===== verification/Legacy_Requests.thy ===== *)
theory Legacy_Requests
  imports Esi_Errors
begin

text \<open>
  The paged download of the earlier version of the program: \<open>legacy/shared/requests/makeRequests.go\<close>
  and \<open>requests.go\<close>.

  A URL is kept parsed (\<open>URL.String\<close> followed by \<open>url.Parse\<close> gives it back, and so does encoding a
  query and reading it): \<open>RawQuery\<close> is its \<open>url.Values\<close>. The HTTP client is an argument; the errors of
  \<open>url.Parse\<close> and \<open>http.NewRequest\<close> on the text of a URL are functions of it. The decoder of the
  response body is an argument. Go maps are shared by reference: the parameters of a request are an
  address in \<open>Maps\<close>, and address 0 holds the caller's \<open>initialQueryParameters\<close>.

  \<open>FetchAllPages\<close> waits for one goroutine, which is the only receiver of the channel it sends to. A
  send to the full channel therefore blocks for ever (\<open>Blocked\<close>). The ticker, which only delays, is
  left out.
\<close>

section \<open>One request\<close>

type_synonym url_values = "string \<rightharpoonup> string list"

record url =
  UrlBase :: string
  RawQuery :: url_values

definition values_Set :: "string \<Rightarrow> string \<Rightarrow> url_values \<Rightarrow> url_values" where
  "values_Set key v q = q(key \<mapsto> [v])"

fun comma_join :: "string list \<Rightarrow> string" where
  "comma_join [] = []"
| "comma_join [v] = v"
| "comma_join (v # vs) = v @ '','' @ comma_join vs"

record 's http_lib =
  url_Parse_err :: "url \<Rightarrow> go_error option"
  NewRequest_err :: "url \<Rightarrow> go_error option"
  http_Do :: "url \<Rightarrow> header \<Rightarrow> 's \<Rightarrow> 's \<times> (go_error + (go_error + string) http_response)"
  url_text :: "url \<Rightarrow> string"

text \<open>The parameters override those of the URL; their values are joined into one.\<close>

definition merge_query :: "url_values \<Rightarrow> url_values \<Rightarrow> url_values" where
  "merge_query query queryParameters =
     (\<lambda>key. case queryParameters key of None \<Rightarrow> query key | Some vs \<Rightarrow> Some [comma_join vs])"

definition MakeHttpRequest :: "'s http_lib \<Rightarrow> (string \<Rightarrow> go_error + 'a) \<Rightarrow> url \<Rightarrow> header \<Rightarrow> url_values \<Rightarrow> 's
    \<Rightarrow> 's \<times> (go_error + 'a \<times> header)" where
  "MakeHttpRequest lib decode fullURL headers queryParameters s =
     (case url_Parse_err lib fullURL of
        Some err \<Rightarrow> (s, Inl err)
      | None \<Rightarrow>
          (let parsedURL = fullURL\<lparr>RawQuery := merge_query (RawQuery fullURL) queryParameters\<rparr>
           in case NewRequest_err lib parsedURL of
                Some err \<Rightarrow> (s, Inl err)
              | None \<Rightarrow>
                  (case http_Do lib parsedURL headers s of
                     (s1, Inl err) \<Rightarrow> (s1, Inl err)
                   | (s1, Inr response) \<Rightarrow>
                       (case Body response of
                          Inl err \<Rightarrow> (s1, Inl err)
                        | Inr responseData \<Rightarrow>
                            if StatusCode response \<noteq> status_ok then
                              (s1, Inl (ErrText (''error calling '' @ url_text lib parsedURL @ '': '' @ responseData)))
                            else (s1, case decode responseData of
                                        Inl err \<Rightarrow> Inl err
                                      | Inr responseObject \<Rightarrow> Inr (responseObject, Header response))))))"

definition fetchData :: "'s http_lib \<Rightarrow> (string \<Rightarrow> go_error + 'i list) \<Rightarrow> url \<Rightarrow> url_values \<Rightarrow> 's
    \<Rightarrow> 's \<times> (go_error + 'i list \<times> header)" where
  "fetchData lib decode baseURL queryParameters s =
     MakeHttpRequest lib decode baseURL Map.empty queryParameters s"

definition setPageQueryParameters :: "url_values \<Rightarrow> int \<Rightarrow> url_values" where
  "setPageQueryParameters initialQueryParameters page =
     values_Set ''page'' (format_int page) initialQueryParameters"

definition getAvailablePageCount :: "header \<Rightarrow> int" where
  "getAvailablePageCount headers =
     (let pagesAsString = header_get headers ''X-Pages''
      in if pagesAsString = [] then 1
         else case atoi pagesAsString of None \<Rightarrow> 1 | Some pageCount \<Rightarrow> pageCount)"

section \<open>All pages\<close>

record request =
  URL :: url
  Params :: nat
  Page :: int
  Retries :: int

record 'i fetch_state =
  Queue :: "request list"
  completedPages :: "int set"
  Maps :: "url_values list"
  allItems :: "'i list"
  updatedETags :: "int \<rightharpoonup> string"

definition queue_capacity :: nat where "queue_capacity = 100"

definition queue_request :: "request \<Rightarrow> 'i fetch_state \<Rightarrow> 'i fetch_state option" where
  "queue_request req st =
     (if length (Queue st) < queue_capacity then Some (st\<lparr>Queue := Queue st @ [req]\<rparr>) else None)"

text \<open>The loop over the pages a response announces. (\<open>page++\<close> would wrap only after the channel is
  full.)\<close>

function send_pages :: "url \<Rightarrow> int \<Rightarrow> int \<Rightarrow> 'i fetch_state \<Rightarrow> 'i fetch_state option" where
  "send_pages baseURL pagesAvailable page st =
     (if page \<le> pagesAvailable then
        (if page \<notin> completedPages st then
           (let newParams = setPageQueryParameters (Maps st ! 0) page
            in case queue_request \<lparr>URL = baseURL, Params = length (Maps st), Page = page, Retries = 0\<rparr>
                      (st\<lparr>Maps := Maps st @ [newParams]\<rparr>) of
                 None \<Rightarrow> None
               | Some st1 \<Rightarrow> send_pages baseURL pagesAvailable (page + 1) st1)
         else send_pages baseURL pagesAvailable (page + 1) st)
      else Some st)"
  by pat_completeness auto

termination
  by (relation "measure (\<lambda>(_, avail, page, _). nat (avail + 1 - page))") auto

declare send_pages.simps [simp del]

text \<open>One round of the goroutine on the request it has received: what it notes before the call, and the
  call.\<close>

definition prepare_request :: "(int \<rightharpoonup> string) \<Rightarrow> request \<Rightarrow> 'i fetch_state \<Rightarrow> 'i fetch_state" where
  "prepare_request previousETags req st0 =
     (let st = (if Page req \<notin> completedPages st0 \<or> Retries req > 0
                then st0\<lparr>completedPages := insert (Page req) (completedPages st0)\<rparr> else st0)
      in case previousETags (Page req) of
           Some prevETag \<Rightarrow>
             st\<lparr>Maps := (Maps st)[Params req := values_Set ''If-None-Match'' prevETag (Maps st ! Params req)]\<rparr>
         | None \<Rightarrow> st)"

definition process_request :: "'s http_lib \<Rightarrow> (string \<Rightarrow> go_error + 'i list) \<Rightarrow> url \<Rightarrow> (int \<rightharpoonup> string)
    \<Rightarrow> request \<Rightarrow> 's \<Rightarrow> 'i fetch_state \<Rightarrow> 's \<times> 'i fetch_state option" where
  "process_request lib decode baseURL previousETags req s st0 =
     (let st = prepare_request previousETags req st0
      in case fetchData lib decode (URL req) (Maps st ! Params req) s of
           (s1, Inl fetchErr) \<Rightarrow>
             (s1, if Retries req < 3 then queue_request (req\<lparr>Retries := Retries req + 1\<rparr>) st else Some st)
         | (s1, Inr (response, headers)) \<Rightarrow>
             (s1, send_pages baseURL (getAvailablePageCount headers) 2
                    (st\<lparr>allItems := allItems st @ response,
                        updatedETags := (updatedETags st)(Page req \<mapsto> header_get headers ''ETag'')\<rparr>)))"

datatype ('s, 'i) fetch_outcome =
    Blocked 's
  | Returned 's "'i list" "int \<rightharpoonup> string" "go_error option"

text \<open>The wait group is zero when the queue is empty after a round. The code never sets its named result
  \<open>err\<close>. The value \<open>None\<close> stands for a loop that goes on for ever.\<close>

partial_function (option) pages_loop :: "'s http_lib \<Rightarrow> (string \<Rightarrow> go_error + 'i list) \<Rightarrow> url
    \<Rightarrow> (int \<rightharpoonup> string) \<Rightarrow> 's \<Rightarrow> 'i fetch_state \<Rightarrow> ('s, 'i) fetch_outcome option" where
  "pages_loop lib decode baseURL previousETags s st =
     (case Queue st of
        [] \<Rightarrow> Some (Returned s (allItems st) (updatedETags st) None)
      | req # rest \<Rightarrow>
          (case process_request lib decode baseURL previousETags req s (st\<lparr>Queue := rest\<rparr>) of
             (s1, None) \<Rightarrow> Some (Blocked s1)
           | (s1, Some st1) \<Rightarrow> pages_loop lib decode baseURL previousETags s1 st1))"

definition FetchAllPages :: "'s http_lib \<Rightarrow> (string \<Rightarrow> go_error + 'i list) \<Rightarrow> url \<Rightarrow> url_values
    \<Rightarrow> (int \<rightharpoonup> string) \<Rightarrow> 's \<Rightarrow> ('s, 'i) fetch_outcome option" where
  "FetchAllPages lib decode baseURL0 initialQueryParameters previousETags s =
     (let baseURL = baseURL0\<lparr>RawQuery := initialQueryParameters\<rparr>
      in pages_loop lib decode baseURL previousETags s
           \<lparr>Queue = [\<lparr>URL = baseURL, Params = 0, Page = 1, Retries = 0\<rparr>], completedPages = {},
            Maps = [initialQueryParameters], allItems = [], updatedETags = Map.empty\<rparr>)"


declare pages_loop.simps [simp del]

lemma pages_loop_empty: "Queue st = [] \<Longrightarrow>
    pages_loop lib decode base prev s st = Some (Returned s (allItems st) (updatedETags st) None)"
  by (simp add: pages_loop.simps)

lemma pages_loop_round: "Queue st = req # rest \<Longrightarrow>
    process_request lib decode base prev req s (st\<lparr>Queue := rest\<rparr>) = (s1, r) \<Longrightarrow>
    pages_loop lib decode base prev s st =
      (case r of None \<Rightarrow> Some (Blocked s1) | Some st1 \<Rightarrow> pages_loop lib decode base prev s1 st1)"
  by (subst pages_loop.simps) (simp split: option.splits)

section \<open>A server with a fixed number of pages\<close>

text \<open>The page a query asks for, and a server that answers every request for a page with 200, the items
  of that page and the number of pages.\<close>

definition page_of :: "url_values \<Rightarrow> int" where
  "page_of q = (case q ''page'' of
     Some [v] \<Rightarrow> (case atoi v of Some p \<Rightarrow> p | None \<Rightarrow> 1)
   | _ \<Rightarrow> 1)"

definition serves :: "'s http_lib \<Rightarrow> (string \<Rightarrow> go_error + 'i list) \<Rightarrow> (int \<Rightarrow> 'i list) \<Rightarrow> (int \<Rightarrow> string)
    \<Rightarrow> int \<Rightarrow> bool" where
  "serves lib decode items etag n \<longleftrightarrow>
     (\<forall>u. url_Parse_err lib u = None \<and> NewRequest_err lib u = None)
   \<and> (\<forall>u h s. \<exists>s1 resp body. http_Do lib u h s = (s1, Inr resp) \<and> StatusCode resp = status_ok
        \<and> Body resp = Inr body \<and> decode body = Inr (items (page_of (RawQuery u)))
        \<and> header_get (Header resp) ''X-Pages'' = format_int n
        \<and> header_get (Header resp) ''ETag'' = etag (page_of (RawQuery u)))"

definition one_page :: "url_values \<Rightarrow> bool" where
  "one_page q \<longleftrightarrow> (case q ''page'' of None \<Rightarrow> True | Some vs \<Rightarrow> length vs = 1)"

lemma one_page_set [simp]: "one_page (values_Set ''If-None-Match'' v q) = one_page q"
    "one_page (setPageQueryParameters q p)"
  by (simp_all add: one_page_def values_Set_def setPageQueryParameters_def)

lemma page_of_merge [simp]:
  "page_of (merge_query q p) = (if p ''page'' = None then page_of q else page_of [''page'' \<mapsto> [comma_join (the (p ''page''))]])"
  by (auto simp: page_of_def merge_query_def)

lemma page_of_set [simp]: "page_of (values_Set ''If-None-Match'' v q) = page_of q"
  by (simp add: page_of_def values_Set_def)

lemma page_of_setPage: "in_i64 p \<Longrightarrow> page_of (setPageQueryParameters q p) = p"
  by (simp add: page_of_def setPageQueryParameters_def values_Set_def atoi_format)

lemma fetchData_serves:
  assumes "serves lib decode items etag n" and "page_of (RawQuery u) = 1" and "one_page q"
  shows "\<exists>s1 h. fetchData lib decode u q s = (s1, Inr (items (page_of q), h))
    \<and> header_get h ''X-Pages'' = format_int n \<and> header_get h ''ETag'' = etag (page_of q)"
proof -
  let ?u = "u\<lparr>RawQuery := merge_query (RawQuery u) q\<rparr>"
  from assms(1) obtain s1 resp body where r: "http_Do lib ?u Map.empty s = (s1, Inr resp)" "StatusCode resp = status_ok"
      "Body resp = Inr body" "decode body = Inr (items (page_of (RawQuery ?u)))"
      "header_get (Header resp) ''X-Pages'' = format_int n"
      "header_get (Header resp) ''ETag'' = etag (page_of (RawQuery ?u))"
    unfolding serves_def by blast
  have "page_of (RawQuery ?u) = page_of q"
    using assms(2,3) by (auto simp: page_of_def one_page_def merge_query_def length_Suc_conv split: option.splits)
  then show ?thesis
    using assms(1) r by (simp add: fetchData_def MakeHttpRequest_def serves_def Let_def)
qed

section \<open>The queue of pages\<close>

text \<open>Requests that stand for their page, and the pages that are still to be sent.\<close>

definition req_ok :: "url \<Rightarrow> url_values list \<Rightarrow> request \<Rightarrow> bool" where
  "req_ok base maps req \<longleftrightarrow> URL req = base \<and> Params req < length maps
     \<and> one_page (maps ! Params req) \<and> page_of (maps ! Params req) = Page req"

definition queue_ok :: "url \<Rightarrow> 'i fetch_state \<Rightarrow> bool" where
  "queue_ok base st \<longleftrightarrow> Maps st \<noteq> [] \<and> (\<forall>req\<in>set (Queue st). req_ok base (Maps st) req)"

definition new_pages :: "'i fetch_state \<Rightarrow> int \<Rightarrow> int \<Rightarrow> int list" where
  "new_pages st page avail = filter (\<lambda>p. p \<notin> completedPages st) [page..avail]"

lemma req_ok_append: "req_ok base maps req \<Longrightarrow> req_ok base (maps @ [q]) req"
  by (auto simp: req_ok_def nth_append)

lemma req_ok_update: "req_ok base maps req \<Longrightarrow> req_ok base (maps[i := values_Set ''If-None-Match'' v (maps ! i)]) req"
  by (cases "i = Params req") (auto simp: req_ok_def)

lemma send_pages_spec:
  assumes "queue_ok base st" and "length (Queue st) \<le> queue_capacity" and "1 \<le> page" and "in_i64 avail"
  shows "if length (Queue st) + length (new_pages st page avail) \<le> queue_capacity
    then \<exists>st1. send_pages base avail page st = Some st1 \<and> queue_ok base st1
      \<and> map Page (Queue st1) = map Page (Queue st) @ new_pages st page avail
      \<and> completedPages st1 = completedPages st \<and> allItems st1 = allItems st \<and> updatedETags st1 = updatedETags st
    else send_pages base avail page st = None"
  using assms
proof (induction base avail page st rule: send_pages.induct)
  case (1 base avail page st)
  note q = 1(3) and len = 1(4) and page = 1(5) and avail = 1(6)
  let ?req = "\<lparr>URL = base, Params = length (Maps st), Page = page, Retries = 0\<rparr>"
  let ?st = "st\<lparr>Maps := Maps st @ [setPageQueryParameters (Maps st ! 0) page]\<rparr>"
  show ?case
  proof (cases "page \<le> avail")
    case False
    then show ?thesis using q len by (simp add: send_pages.simps [of _ _ page] new_pages_def)
  next
    case le: True
    have cons: "[page..avail] = page # [page + 1..avail]" using le by (simp add: upto_rec1)
    show ?thesis
    proof (cases "page \<in> completedPages st")
      case True
      then have "new_pages st page avail = new_pages st (page + 1) avail" by (simp add: new_pages_def cons)
      then show ?thesis using 1(2) [OF le] True le q len page avail
        by (simp add: send_pages.simps [of _ _ page])
    next
      case fresh: False
      have new: "new_pages st page avail = page # new_pages st (page + 1) avail"
        using fresh by (simp add: new_pages_def cons)
      show ?thesis
      proof (cases "length (Queue st) < queue_capacity")
        case False
        then show ?thesis using le fresh len by (simp add: send_pages.simps [of _ _ page] new queue_request_def)
      next
        case True
        let ?st1 = "?st\<lparr>Queue := Queue st @ [?req]\<rparr>"
        have sent: "queue_request ?req ?st = Some ?st1" using True by (simp add: queue_request_def)
        have p64: "in_i64 page" using le page avail by (simp add: in_i64_def)
        have ok: "queue_ok base ?st1" using q page_of_setPage [OF p64]
          by (auto simp: queue_ok_def req_ok_append) (simp add: req_ok_def)
        have eq: "send_pages base avail page st = send_pages base avail (page + 1) ?st1"
          using le fresh sent by (simp add: send_pages.simps [of _ _ page] Let_def)
        have np: "new_pages ?st1 (page + 1) avail = new_pages st (page + 1) avail" by (simp add: new_pages_def)
        show ?thesis
          using 1(1) [OF le fresh refl sent ok _ _ avail] True page
          by (auto simp: eq np new split: if_splits)
      qed
    qed
  qed
qed


lemma prepare_request_simps [simp]:
  "Queue (prepare_request prev req st) = Queue st"
  "completedPages (prepare_request prev req st) = insert (Page req) (completedPages st)"
  "allItems (prepare_request prev req st) = allItems st"
  "updatedETags (prepare_request prev req st) = updatedETags st"
  by (auto simp: prepare_request_def Let_def split: option.splits)

lemma prepare_request_maps:
  "\<exists>i v. Maps (prepare_request prev req st) = Maps st
     \<or> Maps (prepare_request prev req st) = (Maps st)[i := values_Set ''If-None-Match'' v (Maps st ! i)]"
  by (auto simp: prepare_request_def Let_def split: option.splits)

lemma prepare_request_ok:
  assumes "queue_ok base st" and "Queue st = req # rest"
  shows "queue_ok base (prepare_request prev req (st\<lparr>Queue := rest\<rparr>))
    \<and> req_ok base (Maps (prepare_request prev req (st\<lparr>Queue := rest\<rparr>))) req"
  using assms prepare_request_maps [of prev req "st\<lparr>Queue := rest\<rparr>"]
  by (auto simp: queue_ok_def req_ok_update dest: arg_cong [where f = length])

lemma format_int_ne: "format_int n \<noteq> []"
  by (simp add: format_int_def)

text \<open>The state of the loop, read as pages.\<close>

definition loop_at :: "url \<Rightarrow> 'i fetch_state \<Rightarrow> int list \<Rightarrow> int set \<Rightarrow> 'i list \<Rightarrow> (int \<rightharpoonup> string) \<Rightarrow> bool" where
  "loop_at base st pages done_pages its tags \<longleftrightarrow> queue_ok base st \<and> length pages \<le> queue_capacity
     \<and> map Page (Queue st) = pages \<and> completedPages st = done_pages \<and> allItems st = its \<and> updatedETags st = tags"

lemma pages_loop_served:
  assumes srv: "serves lib decode items etag n" and base: "page_of (RawQuery base) = 1" and n: "in_i64 n"
    and at: "loop_at base st (p # pages) C its tags"
  defines "new \<equiv> filter (\<lambda>q. q \<notin> insert p C) [2..n]"
  shows "\<exists>s1. if length (pages @ new) \<le> queue_capacity
    then \<exists>st1. pages_loop lib decode base prev s st = pages_loop lib decode base prev s1 st1
      \<and> loop_at base st1 (pages @ new) (insert p C) (its @ items p) (tags(p \<mapsto> etag p))
    else pages_loop lib decode base prev s st = Some (Blocked s1)"
proof -
  obtain req rest where q: "Queue st = req # rest" and p: "Page req = p" and rest: "map Page rest = pages"
    using at by (auto simp: loop_at_def)
  have qok: "queue_ok base st" and it: "completedPages st = C" "allItems st = its" "updatedETags st = tags"
    and cap: "Suc (length rest) \<le> queue_capacity"
    using at q by (auto simp: loop_at_def dest: arg_cong [where f = length])
  define st2 where "st2 = prepare_request prev req (st\<lparr>Queue := rest\<rparr>)"
  have st2: "Queue st2 = rest" "completedPages st2 = insert p C" "allItems st2 = its" "updatedETags st2 = tags"
    using prepare_request_simps [of prev req "st\<lparr>Queue := rest\<rparr>"] by (simp_all add: st2_def it p)
  have ok2: "queue_ok base st2" and reqok: "req_ok base (Maps st2) req"
    using prepare_request_ok [of base st req rest prev] qok q by (auto simp: st2_def)
  from fetchData_serves [OF srv, of "URL req" "Maps st2 ! Params req" s] reqok base
  obtain s1 h where fd: "fetchData lib decode (URL req) (Maps st2 ! Params req) s = (s1, Inr (items p, h))"
      and h: "header_get h ''X-Pages'' = format_int n" "header_get h ''ETag'' = etag p"
    unfolding req_ok_def p by auto
  have avail: "getAvailablePageCount h = n"
    using h(1) n atoi_format [of n] by (simp add: getAvailablePageCount_def Let_def format_int_ne)
  let ?st3 = "st2\<lparr>allItems := its @ items p, updatedETags := tags(p \<mapsto> etag p)\<rparr>"
  have proc: "process_request lib decode base prev req s (st\<lparr>Queue := rest\<rparr>) = (s1, send_pages base n 2 ?st3)"
    using fd avail h(2) by (simp add: process_request_def st2_def [symmetric] st2 p)
  have ok3: "queue_ok base ?st3" using ok2 by (simp add: queue_ok_def)
  have new3: "new_pages ?st3 2 n = new" by (simp add: new_pages_def new_def st2)
  from send_pages_spec [OF ok3 _ _ n, of 2] cap
  have sp: "if length (pages @ new) \<le> queue_capacity
      then \<exists>st1. send_pages base n 2 ?st3 = Some st1 \<and> loop_at base st1 (pages @ new) (insert p C) (its @ items p) (tags(p \<mapsto> etag p))
      else send_pages base n 2 ?st3 = None"
    using rest by (auto simp: new3 st2 loop_at_def split: if_splits)
  show ?thesis
    using sp pages_loop_round [OF q proc] by (auto intro!: exI [of _ s1] split: if_splits)
qed

text \<open>Once every page is marked, the requests that are left are answered and nothing is added.\<close>

lemma pages_loop_drain:
  assumes srv: "serves lib decode items etag n" and base: "page_of (RawQuery base) = 1" and n: "in_i64 n"
  shows "loop_at base st pages C its tags \<Longrightarrow> {2..n} \<subseteq> C \<Longrightarrow>
    \<exists>s1. pages_loop lib decode base prev s st = Some (Returned s1 (its @ concat (map items pages))
      (tags ++ (\<lambda>p. if p \<in> set pages then Some (etag p) else None)) None)"
proof (induction pages arbitrary: s st C its tags)
  case Nil
  then show ?case by (auto simp: loop_at_def pages_loop_empty map_add_def fun_eq_iff)
next
  case (Cons p pages)
  have none: "filter (\<lambda>q. q \<notin> insert p C) [2..n] = []" using Cons.prems(2) by (auto simp: filter_empty_conv)
  have cap: "length (pages @ []) \<le> queue_capacity" using Cons.prems(1) by (simp add: loop_at_def)
  obtain s1 st1 where r: "pages_loop lib decode base prev s st = pages_loop lib decode base prev s1 st1"
      "loop_at base st1 pages (insert p C) (its @ items p) (tags(p \<mapsto> etag p))"
    using pages_loop_served [OF srv base n Cons.prems(1), of prev s] cap unfolding none by auto
  obtain s2 where s2: "pages_loop lib decode base prev s1 st1 = Some (Returned s2 ((its @ items p) @ concat (map items pages))
      (tags(p \<mapsto> etag p) ++ (\<lambda>q. if q \<in> set pages then Some (etag q) else None)) None)"
    using Cons.IH [OF r(2), of s1] Cons.prems(2) by blast
  have "tags(p \<mapsto> etag p) ++ (\<lambda>q. if q \<in> set pages then Some (etag q) else None)
      = tags ++ (\<lambda>q. if q \<in> set (p # pages) then Some (etag q) else None)"
    by (auto simp: map_add_def fun_eq_iff)
  then show ?case using r(1) s2 by simp
qed


section \<open>Which pages are fetched\<close>

text \<open>The queue after the first \<open>k\<close> rounds, and the order in which \<open>n\<close> pages are fetched.\<close>

definition queued_pages :: "int \<Rightarrow> int \<Rightarrow> int list" where
  "queued_pages n k = [k + 1..n] @ concat (map (\<lambda>i. [i + 1..n]) [2..k])"

definition fetch_order :: "int \<Rightarrow> int list" where
  "fetch_order n = [1..n] @ concat (map (\<lambda>i. [i + 1..n]) [2..n])"

lemma queued_pages_step:
  assumes "1 \<le> k" and "k < n"
  shows "\<exists>pages. queued_pages n k = (k + 1) # pages
    \<and> queued_pages n (k + 1) = pages @ filter (\<lambda>q. q \<notin> insert (k + 1) {1..k}) [2..n]"
proof -
  have split: "[2..n] = [2..k + 1] @ [k + 2..n]"
    using upto_split2 [of 2 "k + 1" n] assms by (simp add: ac_simps)
  have "filter (\<lambda>q. q \<notin> insert (k + 1) {1..k}) [2..k + 1] = []"
    by (auto simp: filter_empty_conv)
  moreover have "filter (\<lambda>q. q \<notin> insert (k + 1) {1..k}) [k + 2..n] = [k + 2..n]"
    by (auto simp: filter_id_conv)
  ultimately have new: "filter (\<lambda>q. q \<notin> insert (k + 1) {1..k}) [2..n] = [k + 2..n]"
    unfolding split filter_append by simp
  have "[k + 1..n] = (k + 1) # [k + 2..n]" using assms upto_rec1 [of "k + 1" n] by (simp add: add.commute)
  moreover have "[2..k + 1] = [2..k] @ [k + 1]" using assms upto_rec2 [of 2 "k + 1"] by simp
  ultimately show ?thesis unfolding queued_pages_def new by (simp add: ac_simps)
qed

lemma length_queued_pages:
  assumes "1 \<le> k" and "k \<le> n"
  shows "2 * int (length (queued_pages n k)) = 2 * k * n - 3 * k - k * k + 2"
proof -
  have sum: "2 * int (length (concat (map (\<lambda>i. [i + 1..n]) [2..j]))) = 2 * (j - 1) * n - j * (j + 1) + 2"
    if "1 \<le> j" "j \<le> n" for j
    using that
  proof (induction "nat (j - 1)" arbitrary: j)
    case 0
    then have "j = 1" by simp
    then show ?case by simp
  next
    case (Suc m)
    then have j: "2 \<le> j" by linarith
    then have "[2..j] = [2..j - 1] @ [j]" using upto_rec2 [of 2 j] by simp
    moreover have "2 * int (length (concat (map (\<lambda>i. [i + 1..n]) [2..j - 1]))) = 2 * (j - 1 - 1) * n - (j - 1) * (j - 1 + 1) + 2"
      using Suc j by (intro Suc.hyps(1)) auto
    ultimately show ?case using Suc.prems by (simp add: algebra_simps)
  qed
  show ?thesis using sum [OF assms] assms by (simp add: queued_pages_def algebra_simps)
qed

lemma queue_fits:
  assumes "n \<le> 15" and "1 \<le> k" and "k \<le> n"
  shows "length (queued_pages n k) \<le> queue_capacity"
proof -
  have "0 \<le> (k - 13) * (k - 14)"
    by (cases "k \<le> 13") (auto intro: mult_nonpos_nonpos mult_nonneg_nonneg)
  moreover have "k * n \<le> k * 15" using assms by (intro mult_left_mono) auto
  ultimately have "2 * int (length (queued_pages n k)) \<le> 200"
    using length_queued_pages [OF assms(2,3)] by (simp add: algebra_simps)
  then show ?thesis by (simp add: queue_capacity_def)
qed

lemma queue_overflows: "16 \<le> n \<Longrightarrow> queue_capacity < length (queued_pages n 12)"
  using length_queued_pages [of 12 n] by (simp add: queue_capacity_def)

lemma first_page_round:
  fixes baseURL :: url
  assumes srv: "serves lib decode items etag n" and base: "page_of params = 1" "one_page params" and n: "in_i64 n" "1 \<le> n"
  defines "b \<equiv> baseURL\<lparr>RawQuery := params\<rparr>"
  shows "\<exists>s1. if length (queued_pages n 1) \<le> queue_capacity
    then \<exists>st1. FetchAllPages lib decode baseURL params prev s = pages_loop lib decode b prev s1 st1
      \<and> loop_at b st1 (queued_pages n 1) {1..1} (concat (map items [1..1])) [1 \<mapsto> etag 1]
    else FetchAllPages lib decode baseURL params prev s = Some (Blocked s1)"
proof -
  let ?st = "\<lparr>Queue = [\<lparr>URL = b, Params = 0, Page = 1, Retries = 0\<rparr>], completedPages = {},
            Maps = [params], allItems = [], updatedETags = Map.empty\<rparr>"
  have at: "loop_at b ?st [1] {} [] Map.empty"
    using base by (simp add: loop_at_def queue_ok_def req_ok_def b_def queue_capacity_def)
  have "filter (\<lambda>q. q \<notin> insert 1 {}) [2..n] = [2..n]" by (auto simp: filter_id_conv)
  then have q: "[] @ filter (\<lambda>q. q \<notin> insert 1 {}) [2..n] = queued_pages n 1" by (simp add: queued_pages_def)
  have "page_of (RawQuery b) = 1" using base by (simp add: b_def)
  note served = pages_loop_served [OF srv this n(1) at, of prev s, unfolded q]
  have e: "concat (map items [1..1]) = [] @ items 1" "{1..1} = insert 1 ({} :: int set)" by simp_all
  show ?thesis unfolding FetchAllPages_def Let_def b_def [symmetric] e by (rule served)
qed


definition tags_to :: "(int \<Rightarrow> string) \<Rightarrow> int \<Rightarrow> int \<rightharpoonup> string" where
  "tags_to etag k = (\<lambda>p. if 1 \<le> p \<and> p \<le> k then Some (etag p) else None)"

lemma tags_to_step: "1 \<le> k \<Longrightarrow> (tags_to etag k)(k + 1 \<mapsto> etag (k + 1)) = tags_to etag (k + 1)"
  by (auto simp: tags_to_def fun_eq_iff)

lemma pages_loop_climb:
  assumes srv: "serves lib decode items etag n" and base: "page_of (RawQuery b) = 1" and n: "in_i64 n"
  shows "1 \<le> k \<Longrightarrow> k \<le> n
    \<Longrightarrow> loop_at b st (queued_pages n k) {1..k} (concat (map items [1..k])) (tags_to etag k)
    \<Longrightarrow> \<exists>s1. pages_loop lib decode b prev s st =
      Some (if \<forall>j\<in>{k + 1..n}. length (queued_pages n j) \<le> queue_capacity
            then Returned s1 (concat (map items (fetch_order n))) (tags_to etag n) None else Blocked s1)"
proof (induction "nat (n - k)" arbitrary: k s st)
  case 0
  then have k: "k = n" by simp
  have "{2..n} \<subseteq> {1..n}" by auto
  moreover have "tags_to etag n ++ (\<lambda>p. if p \<in> set (queued_pages n n) then Some (etag p) else None) = tags_to etag n"
    by (auto simp: tags_to_def map_add_def fun_eq_iff queued_pages_def)
  moreover have "concat (map items [1..n]) @ concat (map items (queued_pages n n)) = concat (map items (fetch_order n))"
    by (simp add: queued_pages_def fetch_order_def)
  ultimately show ?case
    using pages_loop_drain [OF srv base n 0(4) [unfolded k]] k by auto
next
  case (Suc m)
  then have lt: "k < n" by linarith
  obtain pages where pages: "queued_pages n k = (k + 1) # pages"
      "pages @ filter (\<lambda>q. q \<notin> insert (k + 1) {1..k}) [2..n] = queued_pages n (k + 1)"
    using queued_pages_step [OF Suc.prems(1) lt] by auto
  have set: "insert (k + 1) {1..k} = {1..k + 1}" using Suc.prems(1) by auto
  have its: "concat (map items [1..k]) @ items (k + 1) = concat (map items [1..k + 1])"
    using Suc.prems(1) by (simp add: upto_rec2)
  have range: "{k + 1..n} = insert (k + 1) {k + 1 + 1..n}" using lt by auto
  from pages_loop_served [OF srv base n Suc.prems(3) [unfolded pages(1)], of prev s,
      unfolded its tags_to_step [OF Suc.prems(1)] set pages(2) [unfolded set]]
  obtain s1 where r: "if length (queued_pages n (k + 1)) \<le> queue_capacity
    then \<exists>st1. pages_loop lib decode b prev s st = pages_loop lib decode b prev s1 st1
      \<and> loop_at b st1 (queued_pages n (k + 1)) {1..k + 1} (concat (map items [1..k + 1])) (tags_to etag (k + 1))
    else pages_loop lib decode b prev s st = Some (Blocked s1)" by blast
  show ?case
  proof (cases "length (queued_pages n (k + 1)) \<le> queue_capacity")
    case True
    then obtain st1 where st1: "pages_loop lib decode b prev s st = pages_loop lib decode b prev s1 st1"
      "loop_at b st1 (queued_pages n (k + 1)) {1..k + 1} (concat (map items [1..k + 1])) (tags_to etag (k + 1))"
      using r by auto
    have "m = nat (n - (k + 1))" "1 \<le> k + 1" "k + 1 \<le> n" using Suc.hyps(2) Suc.prems(1) lt by auto
    from Suc.hyps(1) [OF this st1(2), of s1] show ?thesis
      unfolding st1(1) range using True by simp
  next
    case False
    then show ?thesis using r unfolding range by auto
  qed
qed

lemma count_upto: "count_list [i..j] p = (if i \<le> p \<and> p \<le> j then 1 else 0)"
proof -
  have "distinct xs \<Longrightarrow> count_list xs p = (if p \<in> set xs then 1 else 0)" for xs
    by (induction xs) auto
  from this [OF distinct_upto] show ?thesis by simp
qed

lemma count_fetch_order:
  assumes "1 \<le> p" and "p \<le> n"
  shows "count_list (fetch_order n) p = (if p = 1 then 1 else nat (p - 1))"
proof -
  have concat: "count_list (concat (map f xs)) p = sum_list (map (\<lambda>i. count_list (f i) p) xs)"
    for f :: "int \<Rightarrow> int list" and xs by (induction xs) auto
  have less: "sum_list (map (\<lambda>i. if i < p then 1 else 0) xs) = length (filter (\<lambda>i. i < p) xs)" for xs
    by (induction xs) auto
  have "count_list [i + 1..n] p = (if i < p then 1 else 0)" for i using assms by (simp add: count_upto)
  then have "count_list (concat (map (\<lambda>i. [i + 1..n]) [2..n])) p = length (filter (\<lambda>i. i < p) [2..n])"
    by (simp add: concat less)
  also have "\<dots> = nat (p - 2)"
  proof (cases "2 \<le> p")
    case True
    then have "[2..n] = [2..p - 1] @ [p..n]" using upto_split1 [of 2 p n] assms by simp
    moreover have "filter (\<lambda>i. i < p) [2..p - 1] = [2..p - 1]" "filter (\<lambda>i. i < p) [p..n] = []"
      by (auto simp: filter_id_conv filter_empty_conv)
    ultimately show ?thesis by simp
  qed (use assms in \<open>auto simp: filter_empty_conv\<close>)
  finally show ?thesis using assms by (auto simp: fetch_order_def count_upto)
qed

lemma fetch_pages_result:
  assumes srv: "serves lib decode items etag n" and n: "in_i64 n" "1 \<le> n"
    and params: "page_of params = 1" "one_page params"
  shows "\<exists>s1. FetchAllPages lib decode base params prev s =
      Some (if n \<le> 15 then Returned s1 (concat (map items (fetch_order n))) (tags_to etag n) None else Blocked s1)"
proof -
  let ?b = "base\<lparr>RawQuery := params\<rparr>"
  have b: "page_of (RawQuery ?b) = 1" using params by simp
  have fits: "(\<forall>j\<in>{1..n}. length (queued_pages n j) \<le> queue_capacity) \<longleftrightarrow> n \<le> 15"
  proof (cases "n \<le> 15")
    case True
    then show ?thesis using queue_fits by auto
  next
    case False
    then have "12 \<in> {1..n}" "queue_capacity < length (queued_pages n 12)" using queue_overflows by auto
    then show ?thesis using False by (meson not_le)
  qed
  have range: "{1..n} = insert 1 {1 + 1..n}" using n by auto
  have tags: "[1 \<mapsto> etag 1] = tags_to etag 1" by (auto simp: tags_to_def fun_eq_iff)
  obtain s1 where r: "if length (queued_pages n 1) \<le> queue_capacity
    then \<exists>st1. FetchAllPages lib decode base params prev s = pages_loop lib decode ?b prev s1 st1
      \<and> loop_at ?b st1 (queued_pages n 1) {1..1} (concat (map items [1..1])) (tags_to etag 1)
    else FetchAllPages lib decode base params prev s = Some (Blocked s1)"
    using first_page_round [OF srv params n, of base prev s] unfolding tags by blast
  show "\<exists>s1. FetchAllPages lib decode base params prev s =
      Some (if n \<le> 15 then Returned s1 (concat (map items (fetch_order n))) (tags_to etag n) None else Blocked s1)"
  proof (cases "length (queued_pages n 1) \<le> queue_capacity")
    case True
    then obtain st1 where st1: "FetchAllPages lib decode base params prev s = pages_loop lib decode ?b prev s1 st1"
      "loop_at ?b st1 (queued_pages n 1) {1..1} (concat (map items [1..1])) (tags_to etag 1)" using r by auto
    from pages_loop_climb [OF srv b n(1) _ n(2) st1(2), of prev s1] show ?thesis
      unfolding st1(1) fits [symmetric] range using True by simp
  next
    case False
    then show ?thesis using r unfolding fits [symmetric] range by auto
  qed
qed

text \<open>C30: a download of several pages repeats itself, and one of sixteen pages or more does not end. From a server that
  answers every request, a download of at most fifteen pages ends without an error, with the ETag of
  every page; but page 2 is fetched once, page 3 twice, and page \<open>p\<close> in general \<open>p - 1\<close> times, each time with its
  items appended to the result. With sixteen pages or more the goroutine blocks on the channel it alone
  reads, and \<open>FetchAllPages\<close> never returns.\<close>

theorem pages_fetched_repeatedly:
  assumes srv: "serves lib decode items etag n" and n: "in_i64 n" "1 \<le> n"
    and params: "page_of params = 1" "one_page params"
  shows "(\<exists>s1. FetchAllPages lib decode base params prev s =
      Some (if n \<le> 15 then Returned s1 (concat (map items (fetch_order n))) (tags_to etag n) None else Blocked s1))
    \<and> (\<forall>p\<in>{1..n}. count_list (fetch_order n) p = (if p = 1 then 1 else nat (p - 1)))"
  using fetch_pages_result [OF assms] count_fetch_order by auto

text \<open>A server whose page \<open>p\<close> holds the number \<open>p\<close>.\<close>

definition sample_server :: "int \<Rightarrow> unit http_lib" where
  "sample_server n =
     \<lparr>url_Parse_err = \<lambda>_. None, NewRequest_err = \<lambda>_. None,
      http_Do = \<lambda>u h s. (s, Inr \<lparr>StatusCode = 200, Header = header_set Map.empty ''X-Pages'' (format_int n),
        Body = Inr (format_int (page_of (RawQuery u)))\<rparr>),
      url_text = UrlBase\<rparr>"

definition page_decode :: "(int \<Rightarrow> 'i list) \<Rightarrow> string \<Rightarrow> go_error + 'i list" where
  "page_decode f body = (case atoi body of None \<Rightarrow> Inl (ErrText ''json'') | Some p \<Rightarrow> Inr (f p))"

definition sample_decode :: "string \<Rightarrow> go_error + int list" where
  "sample_decode = page_decode (\<lambda>p. [p])"

lemma sample_serves: "serves (sample_server n) (page_decode f) f (\<lambda>_. []) n"
proof -
  have k: "canonical_key ''ETag'' = ''Etag''" "canonical_key ''X-Pages'' = ''X-Pages''" by code_simp+
  have "in_i64 (page_of q)" for q
    using atoi_in_i64 by (auto simp: page_of_def in_i64_def split: option.splits list.splits)
  then show ?thesis
    by (simp add: serves_def sample_server_def page_decode_def atoi_format status_ok_def k)
qed

theorem pages_fetched_repeatedly_witness:
  "FetchAllPages (sample_server 4) sample_decode \<lparr>UrlBase = [], RawQuery = Map.empty\<rparr> Map.empty Map.empty ()
     = Some (Returned () [1, 2, 3, 4, 3, 4, 4] (tags_to (\<lambda>_. []) 4) None)
   \<and> FetchAllPages (sample_server 16) sample_decode \<lparr>UrlBase = [], RawQuery = Map.empty\<rparr> Map.empty Map.empty () = Some (Blocked ())"
proof -
  have q: "page_of Map.empty = 1" "one_page Map.empty" by (simp_all add: page_of_def one_page_def)
  have o: "fetch_order 4 = [1, 2, 3, 4, 3, 4, 4]"
    by (simp add: fetch_order_def upto_rec1)
  have n: "in_i64 4" "in_i64 16" by (simp_all add: in_i64_def)
  show ?thesis
    unfolding sample_decode_def using pages_fetched_repeatedly [OF sample_serves [where f = "\<lambda>p. [p]"] n(1) _ q, of "\<lparr>UrlBase = [], RawQuery = Map.empty\<rparr>" Map.empty "()"]
      pages_fetched_repeatedly [OF sample_serves [where f = "\<lambda>p. [p]"] n(2) _ q, of "\<lparr>UrlBase = [], RawQuery = Map.empty\<rparr>" Map.empty "()"]
    by (auto simp: o)
qed

section \<open>A server that does not answer\<close>

text \<open>A request that failed goes back to the queue three times.\<close>

definition refuses :: "'s http_lib \<Rightarrow> ('s \<Rightarrow> 's) \<Rightarrow> bool" where
  "refuses lib f \<longleftrightarrow>
     (\<forall>u. url_Parse_err lib u = None \<and> NewRequest_err lib u = None)
   \<and> (\<forall>u h s. \<exists>r. http_Do lib u h s = (f s, r) \<and> (case r of Inl err \<Rightarrow> True | Inr resp \<Rightarrow> StatusCode resp \<noteq> status_ok))"

lemma fetchData_refused:
  assumes "refuses lib f" shows "\<exists>err. fetchData lib decode u q s = (f s, Inl err)"
proof -
  let ?u = "u\<lparr>RawQuery := merge_query (RawQuery u) q\<rparr>"
  obtain r where r: "http_Do lib ?u Map.empty s = (f s, r)"
      "case r of Inl err \<Rightarrow> True | Inr resp \<Rightarrow> StatusCode resp \<noteq> status_ok"
    using assms unfolding refuses_def by blast
  show ?thesis
  proof (cases r)
    case (Inl err)
    then show ?thesis using r assms by (simp add: fetchData_def MakeHttpRequest_def refuses_def Let_def)
  next
    case (Inr resp)
    then show ?thesis using r assms
      by (cases "Body resp") (simp_all add: fetchData_def MakeHttpRequest_def refuses_def Let_def)
  qed
qed

lemma refused_round:
  assumes "refuses lib f" and "Queue st = [req]"
  shows "\<exists>st1. allItems st1 = allItems st \<and> updatedETags st1 = updatedETags st
    \<and> (if Retries req < 3 then Queue st1 = [req\<lparr>Retries := Retries req + 1\<rparr>] else Queue st1 = [])
    \<and> pages_loop lib decode base prev s st = pages_loop lib decode base prev (f s) st1"
proof -
  let ?st = "prepare_request prev req (st\<lparr>Queue := []\<rparr>)"
  obtain err where "fetchData lib decode (URL req) (Maps ?st ! Params req) s = (f s, Inl err)"
    using fetchData_refused [OF assms(1)] by blast
  then have "process_request lib decode base prev req s (st\<lparr>Queue := []\<rparr>) =
      (f s, Some (if Retries req < 3 then ?st\<lparr>Queue := [req\<lparr>Retries := Retries req + 1\<rparr>]\<rparr> else ?st))"
    by (simp add: process_request_def queue_request_def queue_capacity_def)
  from pages_loop_round [OF assms(2) this] show ?thesis by (intro exI conjI) auto
qed

lemma failed_download:
  assumes "refuses lib f"
  shows "FetchAllPages lib decode base params prev s = Some (Returned (f (f (f (f s)))) [] Map.empty None)"
proof -
  have round: "\<exists>st1 req1. allItems st1 = [] \<and> updatedETags st1 = Map.empty \<and> Queue st1 = [req1] \<and> Retries req1 = Retries req + 1
      \<and> pages_loop lib decode b prev s st = pages_loop lib decode b prev (f s) st1"
    if "Queue st = [req]" "Retries req < 3" "allItems st = []" "updatedETags st = Map.empty" for st req b s
    using refused_round [OF assms that(1), of decode b prev s] that by auto
  have last: "pages_loop lib decode b prev s st = Some (Returned (f s) [] Map.empty None)"
    if "Queue st = [req]" "Retries req = 3" "allItems st = []" "updatedETags st = Map.empty" for st req b s
    using refused_round [OF assms that(1), of decode b prev s] that by (auto simp: pages_loop_empty)
  define b where "b = base\<lparr>RawQuery := params\<rparr>"
  define req0 where "req0 = \<lparr>URL = b, Params = 0, Page = 1, Retries = 0\<rparr>"
  define st0 :: "'b fetch_state" where "st0 = \<lparr>Queue = [req0], completedPages = {}, Maps = [params], allItems = [], updatedETags = Map.empty\<rparr>"
  have st0: "Queue st0 = [req0]" "Retries req0 = 0" "allItems st0 = []" "updatedETags st0 = Map.empty"
    by (simp_all add: st0_def req0_def)
  obtain st1 req1 where r1: "allItems st1 = []" "updatedETags st1 = Map.empty" "Queue st1 = [req1]" "Retries req1 = 1"
      "pages_loop lib decode b prev s st0 = pages_loop lib decode b prev (f s) st1"
    using round [OF st0(1) _ st0(3,4), of b s] st0(2) by auto
  obtain st2 req2 where r2: "allItems st2 = []" "updatedETags st2 = Map.empty" "Queue st2 = [req2]" "Retries req2 = 2"
      "pages_loop lib decode b prev (f s) st1 = pages_loop lib decode b prev (f (f s)) st2"
    using round [OF r1(3) _ r1(1,2), of b "f s"] r1(4) by auto
  obtain st3 req3 where r3: "allItems st3 = []" "updatedETags st3 = Map.empty" "Queue st3 = [req3]" "Retries req3 = 3"
      "pages_loop lib decode b prev (f (f s)) st2 = pages_loop lib decode b prev (f (f (f s))) st3"
    using round [OF r2(3) _ r2(1,2), of b "f (f s)"] r2(4) by auto
  show ?thesis
    using last [OF r3(3,4,1,2), of b "f (f (f s))"] r1(5) r2(5) r3(5)
    by (simp add: FetchAllPages_def Let_def st0_def req0_def b_def)
qed

text \<open>A failed download is not reported. When the server does not answer, or answers with any status
  other than 200 (304 among them), \<open>FetchAllPages\<close> makes exactly four requests and returns no items, no ETags
  and no error.\<close>

theorem failed_download_unreported:
  assumes "refuses lib f"
  shows "FetchAllPages lib decode base params prev s = Some (Returned (f (f (f (f s)))) [] Map.empty None)"
  using assms by (rule failed_download)

text \<open>A server that is down, counting the requests.\<close>

definition down_server :: "int http_lib" where
  "down_server =
     \<lparr>url_Parse_err = \<lambda>_. None, NewRequest_err = \<lambda>_. None,
      http_Do = \<lambda>u h s. (s + 1, Inl (ErrText ''connection refused'')), url_text = UrlBase\<rparr>"

lemma down_refuses: "refuses down_server (\<lambda>s. s + 1)"
  by (simp add: refuses_def down_server_def)

theorem failed_download_unreported_witness:
  "FetchAllPages down_server sample_decode base params prev 0 = Some (Returned 4 [] Map.empty None)"
  using failed_download_unreported [OF down_refuses, of sample_decode base params prev 0] by simp

end
