(* ===== verification/Go_Float.thy ===== *)
theory Go_Float
  imports Go_Base Complex_Main
begin

text \<open>
  Go's \<open>float64\<close> on its bit pattern (IEEE 754 binary64): comparison, the conversions from and to
  integers, and the arithmetic the market-history code uses, rounded to nearest, ties to even.
\<close>

unbundle bit_operations_syntax

section \<open>Bit patterns\<close>

definition f64_abs :: "float64 \<Rightarrow> int" where "f64_abs w = uint w mod 2 ^ 63"
definition f64_neg :: "float64 \<Rightarrow> bool" where "f64_neg w \<longleftrightarrow> 2 ^ 63 \<le> uint w"

definition inf_bits :: int where "inf_bits = 0x7FF * 2 ^ 52"

definition f64_nan :: "float64 \<Rightarrow> bool" where "f64_nan w \<longleftrightarrow> inf_bits < f64_abs w"
definition f64_finite :: "float64 \<Rightarrow> bool" where "f64_finite w \<longleftrightarrow> f64_abs w < inf_bits"

definition f64_pos_inf :: float64 where "f64_pos_inf = word_of_int inf_bits"
definition f64_neg_inf :: float64 where "f64_neg_inf = word_of_int (2 ^ 63 + inf_bits)"
definition f64_max :: float64 where "f64_max = word_of_int (inf_bits - 1)"

text \<open>The key orders the patterns that are not NaN; both zeros have key 0.\<close>

definition f64_key :: "float64 \<Rightarrow> int" where
  "f64_key w = (if f64_neg w then - f64_abs w else f64_abs w)"

definition f64_less :: "float64 \<Rightarrow> float64 \<Rightarrow> bool" where
  "f64_less a b \<longleftrightarrow> \<not> f64_nan a \<and> \<not> f64_nan b \<and> f64_key a < f64_key b"

definition f64_eq :: "float64 \<Rightarrow> float64 \<Rightarrow> bool" where
  "f64_eq a b \<longleftrightarrow> \<not> f64_nan a \<and> \<not> f64_nan b \<and> f64_key a = f64_key b"

section \<open>Values and rounding\<close>

definition pow2 :: "int \<Rightarrow> rat" where
  "pow2 k = (if 0 \<le> k then 2 ^ nat k else 1 / 2 ^ nat (- k))"

text \<open>The magnitude of a finite pattern.\<close>

definition mag_value :: "int \<Rightarrow> rat" where
  "mag_value a = (let e = a div 2 ^ 52; m = a mod 2 ^ 52
     in if e = 0 then of_int m * pow2 (- 1074) else of_int (m + 2 ^ 52) * pow2 (e - 1075))"

definition f64_value :: "float64 \<Rightarrow> rat" where
  "f64_value w = (if f64_neg w then - mag_value (f64_abs w) else mag_value (f64_abs w))"

definition round_even :: "rat \<Rightarrow> int" where
  "round_even x = (let f = \<lfloor>x\<rfloor>; r = x - of_int f
     in if r < 1 / 2 then f else if 1 / 2 < r then f + 1 else if even f then f else f + 1)"

function ilog2 :: "int \<Rightarrow> int" where
  "ilog2 n = (if n < 2 then 0 else 1 + ilog2 (n div 2))"
  by pat_completeness auto

termination
  by (relation "measure nat") auto

declare ilog2.simps [simp del]

text \<open>The exponent of a positive rational: \<open>pow2 k \<le> x < pow2 (k + 1)\<close>.\<close>

definition floor_log :: "rat \<Rightarrow> int" where
  "floor_log x = (let (p, q) = quotient_of x; k = ilog2 p - ilog2 q
     in if pow2 k \<le> x then k else k - 1)"

definition round_mag :: "rat \<Rightarrow> int" where
  "round_mag x =
     (if x = 0 then 0
      else let e = max (- 1022) (floor_log x)
           in min inf_bits (round_even (x * pow2 (52 - e)) + (e + 1022) * 2 ^ 52))"

definition f64_pack :: "bool \<Rightarrow> rat \<Rightarrow> float64" where
  "f64_pack neg mag = word_of_int (round_mag mag + (if neg then 2 ^ 63 else 0))"

definition f64_of_rat :: "rat \<Rightarrow> float64" where
  "f64_of_rat x = f64_pack (x < 0) \<bar>x\<bar>"

text \<open>\<open>float64(n)\<close>, and \<open>int64(f)\<close>, which truncates; a value out of range is left to the implementation
  (amd64 gives the smallest integer).\<close>

definition f64_of_int :: "int \<Rightarrow> float64" where
  "f64_of_int n = f64_of_rat (of_int n)"

definition truncate :: "rat \<Rightarrow> int" where
  "truncate x = (if x < 0 then - \<lfloor>- x\<rfloor> else \<lfloor>x\<rfloor>)"

definition i64_of_f64 :: "float64 \<Rightarrow> int" where
  "i64_of_f64 w = (if f64_finite w \<and> in_i64 (truncate (f64_value w)) then truncate (f64_value w) else - (2 ^ 63))"

section \<open>Arithmetic\<close>

definition f64_qnan :: float64 where "f64_qnan = word_of_int (inf_bits + 1)"

definition f64_inf :: "bool \<Rightarrow> float64" where
  "f64_inf neg = (if neg then f64_neg_inf else f64_pos_inf)"

definition f64_add :: "float64 \<Rightarrow> float64 \<Rightarrow> float64" where
  "f64_add a b =
     (if f64_nan a \<or> f64_nan b then f64_qnan
      else if \<not> f64_finite a then (if \<not> f64_finite b \<and> f64_neg a \<noteq> f64_neg b then f64_qnan else a)
      else if \<not> f64_finite b then b
      else let x = f64_value a + f64_value b
           in if x = 0 then f64_pack (f64_neg a \<and> f64_neg b) 0 else f64_of_rat x)"

definition f64_mul :: "float64 \<Rightarrow> float64 \<Rightarrow> float64" where
  "f64_mul a b =
     (let neg = (f64_neg a \<noteq> f64_neg b)
      in if f64_nan a \<or> f64_nan b then f64_qnan
         else if \<not> f64_finite a \<or> \<not> f64_finite b then
           (if f64_abs a = 0 \<or> f64_abs b = 0 then f64_qnan else f64_inf neg)
         else f64_pack neg (\<bar>f64_value a\<bar> * \<bar>f64_value b\<bar>))"

definition f64_div :: "float64 \<Rightarrow> float64 \<Rightarrow> float64" where
  "f64_div a b =
     (let neg = (f64_neg a \<noteq> f64_neg b)
      in if f64_nan a \<or> f64_nan b then f64_qnan
         else if \<not> f64_finite a then (if \<not> f64_finite b then f64_qnan else f64_inf neg)
         else if \<not> f64_finite b then f64_pack neg 0
         else if f64_abs b = 0 then (if f64_abs a = 0 then f64_qnan else f64_inf neg)
         else f64_pack neg (\<bar>f64_value a\<bar> / \<bar>f64_value b\<bar>))"

text \<open>\<open>math.Round\<close>: half away from zero, keeping the sign of a zero.\<close>

definition math_Round :: "float64 \<Rightarrow> float64" where
  "math_Round w =
     (if \<not> f64_finite w then w else f64_pack (f64_neg w) (of_int \<lfloor>\<bar>f64_value w\<bar> + 1 / 2\<rfloor>))"

lemmas f64_consts = f64_pos_inf_def f64_neg_inf_def f64_max_def inf_bits_def

section \<open>Order\<close>

lemma f64_less_irrefl [simp]: "\<not> f64_less a a"
  by (simp add: f64_less_def)

lemma f64_less_trans: "f64_less a b \<Longrightarrow> f64_less b c \<Longrightarrow> f64_less a c"
  by (auto simp: f64_less_def)

lemma f64_not_less: "\<not> f64_nan a \<Longrightarrow> \<not> f64_nan b \<Longrightarrow> \<not> f64_less a b \<longleftrightarrow> f64_key b \<le> f64_key a"
  by (auto simp: f64_less_def)


section \<open>Integers as floats\<close>

lemma pow2_inverse [simp]: "pow2 k * pow2 (- k) = 1"
  by (simp add: pow2_def)

lemma round_even_int [simp]: "round_even (of_int m) = m"
  by (simp add: round_even_def)

lemma ilog2_bounds: "1 \<le> n \<Longrightarrow> 0 \<le> ilog2 n \<and> 2 ^ nat (ilog2 n) \<le> n \<and> n < 2 ^ Suc (nat (ilog2 n))"
proof (induction n rule: ilog2.induct)
  case (1 n)
  show ?case
  proof (cases "n < 2")
    case True
    with 1(2) have "n = 1" by simp
    then show ?thesis by (simp add: ilog2.simps [of 1])
  next
    case False
    then have ih: "0 \<le> ilog2 (n div 2)" "2 ^ nat (ilog2 (n div 2)) \<le> n div 2" "n div 2 < 2 ^ Suc (nat (ilog2 (n div 2)))"
      using 1(1) by auto
    have s: "nat (ilog2 n) = Suc (nat (ilog2 (n div 2)))"
      using False ih(1) by (simp add: ilog2.simps [of n] nat_add_distrib)
    have "0 \<le> ilog2 n" using False ih(1) by (simp add: ilog2.simps [of n])
    moreover have "2 * 2 ^ nat (ilog2 (n div 2)) \<le> n" "n < 2 * 2 ^ Suc (nat (ilog2 (n div 2)))" using ih(2,3) by linarith+
    ultimately show ?thesis by (simp add: s)
  qed
qed

lemma floor_log_int:
  assumes "1 \<le> n" shows "floor_log (of_int n) = ilog2 n"
proof -
  have one: "ilog2 1 = 0" by (subst ilog2.simps) simp
  have "0 \<le> ilog2 n" "(of_int (2 ^ nat (ilog2 n)) :: rat) \<le> of_int n"
    using ilog2_bounds [OF assms] by (simp_all only: of_int_le_iff)
  then have "pow2 (ilog2 n) \<le> of_int n" by (simp add: pow2_def)
  then show ?thesis by (simp add: floor_log_def one)
qed

text \<open>An integer of at most 53 bits becomes a mantissa and an exponent without loss.\<close>

lemma int_mantissa:
  assumes "1 \<le> n" and "n \<le> 2 ^ 53"
  obtains e m where "e = ilog2 n" "0 \<le> e" "e \<le> 53" "of_int n * pow2 (52 - e) = of_int m"
    "2 ^ 52 \<le> m" "m < 2 ^ 53" "of_int m * pow2 (e - 52) = (of_int n :: rat)"
proof -
  define e where "e = ilog2 n"
  have b: "0 \<le> e" "2 ^ nat e \<le> n" "n < 2 ^ Suc (nat e)" using ilog2_bounds [OF assms(1)] by (auto simp: e_def)
  have "2 ^ nat e \<le> (2 :: int) ^ 53" using b(2) assms(2) by linarith
  then have "nat e \<le> 53" using power_le_imp_le_exp [of "2 :: int" "nat e" 53] by linarith
  then have e: "e \<le> 53" by simp
  have inv: "x * pow2 (52 - e) * pow2 (e - 52) = x" for x
    using pow2_inverse [of "52 - e"] by (simp add: mult.assoc)
  show ?thesis
  proof (cases "e = 53")
    case True
    then have n: "n = 2 ^ 53" using b(2) assms(2) by simp
    show ?thesis
      by (rule that [OF e_def b(1) e, of "2 ^ 52"]) (use n True in \<open>simp_all add: pow2_def\<close>)
  next
    case False
    then have le: "0 \<le> 52 - e" using e by simp
    define k where "k = nat (52 - e)"
    have k: "nat e + k = 52" "pow2 (52 - e) = 2 ^ k" using b(1) le by (auto simp: k_def pow2_def)
    have "2 ^ nat e * 2 ^ k \<le> n * 2 ^ k" "n * 2 ^ k < 2 ^ Suc (nat e) * 2 ^ k"
      using b(2,3) by (auto intro: mult_right_mono mult_strict_right_mono)
    moreover have p: "(2 :: int) ^ nat e * 2 ^ k = 2 ^ 52" using k(1) by (simp only: power_add [symmetric])
    moreover have "(2 :: int) ^ Suc (nat e) * 2 ^ k = 2 ^ 53" using p by (simp add: mult.assoc)
    ultimately have m: "2 ^ 52 \<le> n * 2 ^ k" "n * 2 ^ k < 2 ^ 53" by linarith+
    have int: "of_int n * pow2 (52 - e) = of_int (n * 2 ^ k)" by (simp add: k(2))
    show ?thesis
      by (rule that [OF e_def b(1) e int m]) (use inv [of "of_int n"] int in simp)
  qed
qed

lemma f64_of_int_exact:
  assumes "0 \<le> n" and "n \<le> 2 ^ 53"
  shows "f64_finite (f64_of_int n) \<and> f64_value (f64_of_int n) = of_int n"
proof (cases "n = 0")
  case True
  then show ?thesis
    by (simp add: f64_of_int_def f64_of_rat_def f64_pack_def round_mag_def f64_finite_def f64_abs_def inf_bits_def
        f64_value_def f64_neg_def mag_value_def)
next
  case False
  then have n: "1 \<le> n" using assms by simp
  obtain e m where e: "e = ilog2 n" "0 \<le> e" "e \<le> 53" "of_int n * pow2 (52 - e) = of_int m"
    "2 ^ 52 \<le> m" "m < 2 ^ 53" "of_int m * pow2 (e - 52) = (of_int n :: rat)"
    using int_mantissa [OF n assms(2)] .
  let ?bits = "m + (e + 1022) * 2 ^ 52"
  have bits: "0 \<le> ?bits" "?bits < inf_bits" "?bits < 2 ^ 63"
    using e(2,3,5,6) by (auto simp: inf_bits_def)
  have "round_mag (of_int n) = ?bits"
    using n e(1,2,4) bits(2) by (simp add: round_mag_def floor_log_int Let_def)
  then have w: "f64_of_int n = word_of_int ?bits"
    using n by (simp add: f64_of_int_def f64_of_rat_def f64_pack_def)
  have "uint (word_of_int b :: float64) = b" if "0 \<le> b" "b < 2 ^ 63" for b
    using that by (simp add: uint_word_of_int take_bit_int_eq_self)
  then have u: "uint (f64_of_int n) = ?bits" unfolding w using bits(1,3) by blast
  have abs: "f64_abs (f64_of_int n) = ?bits" and neg: "\<not> f64_neg (f64_of_int n)"
    using bits by (auto simp: f64_abs_def f64_neg_def u)
  define f where "f = m - 2 ^ 52"
  have f: "m = f + 2 ^ 52" "0 \<le> f" "f < 2 ^ 52" using e(5,6) by (auto simp: f_def)
  have split: "?bits = f + (e + 1023) * 2 ^ 52" by (simp add: f(1) algebra_simps)
  have "?bits div 2 ^ 52 = e + 1023" "?bits mod 2 ^ 52 = f"
    unfolding split using f(2,3) by (simp_all only: div_mult_self1 mod_mult_self1 mod_pos_pos_trivial div_pos_pos_trivial)
  then have "mag_value ?bits = of_int m * pow2 (e - 52)"
    using e(2) by (simp add: mag_value_def Let_def f(1))
  then show ?thesis using abs neg e(7) bits(2) by (simp add: f64_finite_def f64_value_def)
qed

lemma i64_of_f64_of_int:
  assumes "0 \<le> n" and "n \<le> 2 ^ 53" shows "i64_of_f64 (f64_of_int n) = n"
proof -
  have "truncate (of_int n) = n" using assms(1) by (simp add: truncate_def)
  moreover have "in_i64 n" using assms by (simp add: in_i64_def)
  ultimately show ?thesis using f64_of_int_exact [OF assms] by (simp add: i64_of_f64_def)
qed

end
