(* ===== verification/Legacy_Redis.thy ===== *)
theory Legacy_Redis
  imports Esi_Errors Go_Float
begin

text \<open>
  The storage of the earlier version of the program: \<open>legacy/redisDB/redisDB.go\<close>, and
  \<open>PopulateStruct\<close> of \<open>legacy/apiServer/util/util.go\<close>, which reads a stored struct back.

  The commands of go-redis are a record of functions on the state \<open>'r\<close> the client sees. A value of a Go
  struct is the list of its fields. \<open>mapstructure.Decode\<close>, \<open>json.Marshal\<close> and \<open>strconv.ParseFloat\<close> are
  arguments. Go visits the entries of a map in any order: \<open>HGetAll\<close> gives them as a list.
\<close>

section \<open>Values\<close>

text \<open>A field by its \<open>reflect.Kind\<close>; \<open>FInt\<close> is \<open>int\<close> or \<open>int64\<close>.\<close>

datatype go_field =
    FString string
  | FInt int
  | FInt32 int32
  | FFloat float64
  | FBool bool

type_synonym go_struct = "(string \<times> go_field) list"

datatype go_any =
    AnyStruct go_struct
  | AnyOther string

record 'r legacy_redis =
  lr_HSet :: "string \<Rightarrow> (string \<rightharpoonup> go_field) \<Rightarrow> 'r \<Rightarrow> 'r \<times> go_error option"
  lr_HGetAll :: "string \<Rightarrow> 'r \<Rightarrow> 'r \<times> (go_error + (string \<times> string) list)"
  lr_ZAdd :: "string \<Rightarrow> string \<Rightarrow> float64 \<Rightarrow> 'r \<Rightarrow> 'r \<times> go_error option"
  lr_ZScore :: "string \<Rightarrow> string \<Rightarrow> 'r \<Rightarrow> 'r \<times> (go_error + float64)"
  lr_ZRangeWithScores :: "string \<Rightarrow> int \<Rightarrow> int \<Rightarrow> 'r \<Rightarrow> 'r \<times> (go_error + (string option \<times> float64) list)"
  lr_Set :: "string \<Rightarrow> string \<Rightarrow> duration \<Rightarrow> 'r \<Rightarrow> 'r \<times> go_error option"
  lr_Get :: "string \<Rightarrow> 'r \<Rightarrow> 'r \<times> (go_error + string)"
  lr_Incr :: "string \<Rightarrow> 'r \<Rightarrow> 'r"
  lr_Decr :: "string \<Rightarrow> 'r \<Rightarrow> 'r"
  lr_Expire :: "string \<Rightarrow> duration \<Rightarrow> 'r \<Rightarrow> 'r"

text \<open>\<open>fmt.Errorf\<close> with the verb \<open>%v\<close> keeps the text of an error only. (A rate-limit error does not occur
  here.)\<close>

fun error_text :: "go_error \<Rightarrow> string" where
  "error_text (ErrText s) = s"
| "error_text ErrRedisNil = ''redis: nil''"
| "error_text ErrDeadline = ''context deadline exceeded''"
| "error_text (ErrWrap s e) = s @ error_text e"
| "error_text (ErrRateLimit e) = ''rate limit '' @ Reason e"

definition errorf :: "string \<Rightarrow> go_error \<Rightarrow> go_error" where
  "errorf msg err = ErrText (msg @ error_text err)"

section \<open>Connecting\<close>

definition env_int :: "(string \<Rightarrow> string) \<Rightarrow> string \<Rightarrow> int \<Rightarrow> int" where
  "env_int env name fallback =
     (case atoi (env name) of None \<Rightarrow> fallback | Some v \<Rightarrow> if v \<le> 0 then fallback else v)"

definition env_url :: "(string \<Rightarrow> string) \<Rightarrow> string" where
  "env_url env = (if env ''REDIS_URL'' = [] then ''redis:6379'' else env ''REDIS_URL'')"

text \<open>\<open>open\<close> makes the client and pings it; the last client stays in the package variable also when no
  ping succeeds. The result lists the sleeps. The body increments the loop variable as well (a count so
  large that it wraps is out of reach).\<close>

function legacy_connect_loop :: "(string \<Rightarrow> 's \<Rightarrow> 's \<times> 'c \<times> go_error option) \<Rightarrow> string \<Rightarrow> int \<Rightarrow> int \<Rightarrow> int
    \<Rightarrow> 'c option \<Rightarrow> duration list \<Rightarrow> 's \<Rightarrow> 's \<times> 'c option \<times> duration list \<times> bool" where
  "legacy_connect_loop open_client redisURL retryCount retryDelay i client sleeps s =
     (if i < retryCount then
        (case open_client redisURL s of
           (s1, c, None) \<Rightarrow> (s1, Some c, sleeps, True)
         | (s1, c, Some err) \<Rightarrow>
             (let i1 = i + 1
              in legacy_connect_loop open_client redisURL retryCount retryDelay (i1 + 1) (Some c)
                   (sleeps @ [dur_mul retryDelay second]) s1))
      else (s, client, sleeps, False))"
  by pat_completeness auto

termination
  by (relation "measure (\<lambda>(_, _, n, _, i, _, _, _). nat (n - i))") auto

declare legacy_connect_loop.simps [simp del]

definition legacy_Connect :: "(string \<Rightarrow> 's \<Rightarrow> 's \<times> 'c \<times> go_error option) \<Rightarrow> (string \<Rightarrow> string) \<Rightarrow> 'c option \<Rightarrow> 's
    \<Rightarrow> 's \<times> 'c option \<times> duration list \<times> bool" where
  "legacy_Connect open_client env client s =
     legacy_connect_loop open_client (env_url env) (env_int env ''REDIS_RETRY_COUNT'' 5)
       (env_int env ''REDIS_RETRY_DELAY'' 5) 0 client [] s"

section \<open>Hashes\<close>

text \<open>The map of fields for \<open>HSet\<close>: the decimal text of a page number is a field.\<close>

definition etag_fields :: "(int \<rightharpoonup> string) \<Rightarrow> string \<rightharpoonup> go_field" where
  "etag_fields m f =
     (case atoi f of None \<Rightarrow> None
      | Some k \<Rightarrow> if format_int k = f then map_option FString (m k) else None)"

definition SaveETagsAsHash :: "'r legacy_redis \<Rightarrow> string \<Rightarrow> (int \<rightharpoonup> string) \<Rightarrow> 'r \<Rightarrow> 'r \<times> go_error option" where
  "SaveETagsAsHash lib key m r =
     (case lr_HSet lib key (etag_fields m) r of
        (r1, Some err) \<Rightarrow> (r1, Some (errorf ''could not store user data: '' err))
      | (r1, None) \<Rightarrow> (r1, None))"

fun read_etags :: "(string \<times> string) list \<Rightarrow> (int \<rightharpoonup> string) \<Rightarrow> int \<rightharpoonup> string" where
  "read_etags [] m = m"
| "read_etags ((k, v) # r) m =
     (case atoi k of None \<Rightarrow> read_etags r m | Some pageNumber \<Rightarrow> read_etags r (m(pageNumber \<mapsto> v)))"

definition GetETagsAsMap :: "'r legacy_redis \<Rightarrow> string \<Rightarrow> 'r \<Rightarrow> 'r \<times> (go_error + (int \<rightharpoonup> string))" where
  "GetETagsAsMap lib key r =
     (case lr_HGetAll lib key r of
        (r1, Inl err) \<Rightarrow> (r1, Inl (ErrWrap ''failed to get hash from Redis: '' err))
      | (r1, Inr h) \<Rightarrow> (r1, Inr (read_etags h Map.empty)))"

definition SaveStructAsHash :: "'r legacy_redis \<Rightarrow> (go_struct \<Rightarrow> go_error + (string \<rightharpoonup> go_field)) \<Rightarrow> string \<Rightarrow> go_any
    \<Rightarrow> 'r \<Rightarrow> 'r \<times> go_error option" where
  "SaveStructAsHash lib decode_map key dat r =
     (case dat of
        AnyOther ty \<Rightarrow> (r, Some (ErrText (''input data must be a struct, got '' @ ty)))
      | AnyStruct flds \<Rightarrow>
          (case decode_map flds of
             Inl err \<Rightarrow> (r, Some (errorf ''could not convert struct to map: '' err))
           | Inr redisMap \<Rightarrow>
               (case lr_HSet lib key redisMap r of
                  (r1, Some err) \<Rightarrow> (r1, Some (errorf ''could not store user data: '' err))
                | (r1, None) \<Rightarrow> (r1, None))))"

definition GetRedisMap :: "'r legacy_redis \<Rightarrow> string \<Rightarrow> 'r \<Rightarrow> 'r \<times> (go_error + (string \<rightharpoonup> string))" where
  "GetRedisMap lib key r =
     (case lr_HGetAll lib key r of
        (r1, Inl err) \<Rightarrow> (r1, Inl err)
      | (r1, Inr dat) \<Rightarrow>
          (r1, if length dat = 0 then Inl (ErrText (''no data found for key: '' @ key)) else Inr (map_of dat)))"

section \<open>Sorted sets\<close>

definition SaveToSortedSet :: "'r legacy_redis \<Rightarrow> string \<Rightarrow> string \<Rightarrow> float64 \<Rightarrow> 'r \<Rightarrow> 'r \<times> go_error option" where
  "SaveToSortedSet lib setKey member score r = lr_ZAdd lib setKey member score r"

definition GetScoreFromSortedSet :: "'r legacy_redis \<Rightarrow> string \<Rightarrow> string \<Rightarrow> 'r \<Rightarrow> 'r \<times> (go_error + float64)" where
  "GetScoreFromSortedSet lib setKey member r =
     (case lr_ZScore lib setKey member r of
        (r1, Inl err) \<Rightarrow>
          (r1, Inl (if err = ErrRedisNil then ErrText ''member not found in the sorted set''
                    else errorf ''error retrieving score from sorted set: '' err))
      | (r1, Inr score) \<Rightarrow> (r1, Inr score))"

record SortedSetResult =
  ResultTypeID :: string
  ResultUpdated :: time

text \<open>\<open>time.UnixMilli(ms)\<close> does not overflow.\<close>

definition time_UnixMilli :: "int \<Rightarrow> time" where
  "time_UnixMilli ms = ms * millisecond"

fun sorted_results :: "(string option \<times> float64) list \<Rightarrow> go_error + SortedSetResult list" where
  "sorted_results [] = Inr []"
| "sorted_results ((None, score) # scores) = Inl (ErrText ''member is not a string'')"
| "sorted_results ((Some memberStr, score) # scores) =
     (case sorted_results scores of
        Inl err \<Rightarrow> Inl err
      | Inr results \<Rightarrow>
          Inr (\<lparr>ResultTypeID = memberStr, ResultUpdated = time_UnixMilli (i64_of_f64 score)\<rparr> # results))"

definition RetrieveOldestValuesFromSortedSet :: "'r legacy_redis \<Rightarrow> string \<Rightarrow> int \<Rightarrow> 'r
    \<Rightarrow> 'r \<times> (go_error + SortedSetResult list)" where
  "RetrieveOldestValuesFromSortedSet lib setKey numberOfResults r =
     (if numberOfResults \<le> 0 then (r, Inl (ErrText ''numberOfResults must be greater than 0''))
      else case lr_ZRangeWithScores lib setKey 0 (numberOfResults - 1) r of
             (r1, Inl err) \<Rightarrow> (r1, Inl (ErrWrap ''error retrieving from sorted set: '' err))
           | (r1, Inr scores) \<Rightarrow> (r1, sorted_results scores))"

section \<open>Strings and counters\<close>

definition SaveAsJSON :: "'r legacy_redis \<Rightarrow> ('v \<Rightarrow> go_error + string) \<Rightarrow> string \<Rightarrow> 'v \<Rightarrow> 'r \<Rightarrow> 'r \<times> go_error option" where
  "SaveAsJSON lib marshal key v r =
     (case marshal v of
        Inl err \<Rightarrow> (r, Some (errorf ''failed to marshal struct to JSON: '' err))
      | Inr valueJSON \<Rightarrow>
          (case lr_Set lib key valueJSON 0 r of
             (r1, Some err) \<Rightarrow> (r1, Some (errorf ''failed to save struct to Redis: '' err))
           | (r1, None) \<Rightarrow> (r1, None)))"

text \<open>\<open>client.Get(ctx, key).Int()\<close>.\<close>

definition GetKeyAsInt :: "'r legacy_redis \<Rightarrow> string \<Rightarrow> 'r \<Rightarrow> 'r \<times> (go_error + int)" where
  "GetKeyAsInt lib key r =
     (case lr_Get lib key r of
        (r1, Inl err) \<Rightarrow> (r1, Inl err)
      | (r1, Inr v) \<Rightarrow>
          (r1, case atoi v of None \<Rightarrow> Inl (ErrText (''strconv.Atoi: parsing '' @ v)) | Some n \<Rightarrow> Inr n))"

definition IncrementRedisValue :: "'r legacy_redis \<Rightarrow> string \<Rightarrow> 'r \<Rightarrow> 'r" where
  "IncrementRedisValue lib key r = lr_Incr lib key r"

definition DecrementRedisValue :: "'r legacy_redis \<Rightarrow> string \<Rightarrow> 'r \<Rightarrow> 'r" where
  "DecrementRedisValue lib key r = lr_Decr lib key r"

definition SetKeyExpirey :: "'r legacy_redis \<Rightarrow> string \<Rightarrow> duration \<Rightarrow> 'r \<Rightarrow> 'r" where
  "SetKeyExpirey lib key expiry r = lr_Expire lib key expiry r"

definition GetValue :: "'r legacy_redis \<Rightarrow> string \<Rightarrow> 'r \<Rightarrow> 'r \<times> (go_error + string)" where
  "GetValue lib key r = lr_Get lib key r"

section \<open>Reading a struct\<close>

text \<open>\<open>strconv.ParseBool\<close>.\<close>

definition parse_bool :: "string \<Rightarrow> bool option" where
  "parse_bool s =
     (if s \<in> {''1'', ''t'', ''T'', ''TRUE'', ''true'', ''True''} then Some True
      else if s \<in> {''0'', ''f'', ''F'', ''FALSE'', ''false'', ''False''} then Some False
      else None)"

fun populate_field :: "(string \<Rightarrow> float64 option) \<Rightarrow> string \<Rightarrow> go_field \<Rightarrow> go_field" where
  "populate_field parse_float redisValue (FString s) = FString redisValue"
| "populate_field parse_float redisValue (FInt n) =
     (case parse_int 64 redisValue of None \<Rightarrow> FInt n | Some v \<Rightarrow> FInt v)"
| "populate_field parse_float redisValue (FFloat f) =
     (case parse_float redisValue of None \<Rightarrow> FFloat f | Some v \<Rightarrow> FFloat v)"
| "populate_field parse_float redisValue (FBool b) =
     (case parse_bool redisValue of None \<Rightarrow> FBool b | Some v \<Rightarrow> FBool v)"
| "populate_field parse_float redisValue (FInt32 n) = FInt32 n"

fun PopulateStruct :: "(string \<Rightarrow> float64 option) \<Rightarrow> (string \<rightharpoonup> string) \<Rightarrow> go_struct \<Rightarrow> go_struct" where
  "PopulateStruct parse_float dat [] = []"
| "PopulateStruct parse_float dat ((name, fld) # flds) =
     (name, case dat name of None \<Rightarrow> fld | Some redisValue \<Rightarrow> populate_field parse_float redisValue fld)
     # PopulateStruct parse_float dat flds"


section \<open>What the commands do\<close>

text \<open>\<open>hashes\<close> and \<open>scores\<close> read the hashes and the sorted sets of a state, \<open>arg_text\<close> is the text in which
  go-redis sends a value. A command that fails may have been executed.\<close>

definition stored_fields :: "(go_field \<Rightarrow> string) \<Rightarrow> (string \<rightharpoonup> go_field) \<Rightarrow> string \<rightharpoonup> string" where
  "stored_fields arg_text m = (\<lambda>f. map_option arg_text (m f))"

definition legacy_ok :: "'r legacy_redis \<Rightarrow> (go_field \<Rightarrow> string) \<Rightarrow> ('r \<Rightarrow> string \<Rightarrow> string \<rightharpoonup> string)
    \<Rightarrow> ('r \<Rightarrow> string \<Rightarrow> string \<rightharpoonup> float64) \<Rightarrow> bool" where
  "legacy_ok lib arg_text hashes scores \<longleftrightarrow>
     (\<forall>k m r. let (r1, e) = lr_HSet lib k m r; new = (hashes r)(k := hashes r k ++ stored_fields arg_text m)
        in scores r1 = scores r \<and> (hashes r1 = new \<or> e \<noteq> None \<and> hashes r1 = hashes r))
   \<and> (\<forall>k r. let (r1, res) = lr_HGetAll lib k r
        in hashes r1 = hashes r \<and> scores r1 = scores r
           \<and> (\<forall>h. res = Inr h \<longrightarrow> distinct (map fst h) \<and> map_of h = hashes r k))
   \<and> (\<forall>k m v r. let (r1, e) = lr_ZAdd lib k m v r; new = (scores r)(k := (scores r k)(m \<mapsto> v))
        in hashes r1 = hashes r \<and> (scores r1 = new \<or> e \<noteq> None \<and> scores r1 = scores r))
   \<and> (\<forall>k m r. let (r1, res) = lr_ZScore lib k m r
        in hashes r1 = hashes r \<and> scores r1 = scores r
           \<and> (case res of Inr v \<Rightarrow> scores r k m = Some v | Inl e \<Rightarrow> e = ErrRedisNil \<longrightarrow> scores r k m = None))
   \<and> (\<forall>k i j r. let (r1, res) = lr_ZRangeWithScores lib k i j r
        in hashes r1 = hashes r \<and> scores r1 = scores r
           \<and> (\<forall>l m v. res = Inr l \<and> (m, v) \<in> set l \<longrightarrow> (\<exists>t. m = Some t \<and> scores r k t = Some v)))"

lemma legacy_okD:
  assumes "legacy_ok lib arg_text hashes scores"
  shows HSet_ok: "lr_HSet lib k m r = (r1, None) \<Longrightarrow>
      hashes r1 = (hashes r)(k := hashes r k ++ stored_fields arg_text m) \<and> scores r1 = scores r"
    and HSet_any: "lr_HSet lib k m r = (r1, e) \<Longrightarrow> scores r1 = scores r \<and>
      (hashes r1 = (hashes r)(k := hashes r k ++ stored_fields arg_text m) \<or> hashes r1 = hashes r)"
    and HGetAll_same: "lr_HGetAll lib k r = (r1, res) \<Longrightarrow> hashes r1 = hashes r \<and> scores r1 = scores r"
    and HGetAll_val: "lr_HGetAll lib k r = (r1, Inr h) \<Longrightarrow> distinct (map fst h) \<and> map_of h = hashes r k"
    and ZAdd_ok: "lr_ZAdd lib k t v r = (r1, None) \<Longrightarrow>
      hashes r1 = hashes r \<and> scores r1 = (scores r)(k := (scores r k)(t \<mapsto> v))"
    and ZAdd_any: "lr_ZAdd lib k t v r = (r1, e) \<Longrightarrow> hashes r1 = hashes r"
    and ZScore_same: "lr_ZScore lib k t r = (r1, sc) \<Longrightarrow> hashes r1 = hashes r \<and> scores r1 = scores r"
    and ZScore_val: "lr_ZScore lib k t r = (r1, Inr v) \<Longrightarrow> scores r k t = Some v"
    and ZRange_val: "lr_ZRangeWithScores lib k i j r = (r1, Inr l) \<Longrightarrow> (mem, v) \<in> set l \<Longrightarrow>
      \<exists>t. mem = Some t \<and> scores r k t = Some v"
proof -
  note a = assms [unfolded legacy_ok_def]
  show "lr_HSet lib k m r = (r1, None) \<Longrightarrow>
      hashes r1 = (hashes r)(k := hashes r k ++ stored_fields arg_text m) \<and> scores r1 = scores r"
    and "lr_HSet lib k m r = (r1, e) \<Longrightarrow> scores r1 = scores r \<and>
      (hashes r1 = (hashes r)(k := hashes r k ++ stored_fields arg_text m) \<or> hashes r1 = hashes r)"
    using a [THEN conjunct1, rule_format, of k m r] by (auto simp: Let_def)
  show "lr_HGetAll lib k r = (r1, res) \<Longrightarrow> hashes r1 = hashes r \<and> scores r1 = scores r"
    and "lr_HGetAll lib k r = (r1, Inr h) \<Longrightarrow> distinct (map fst h) \<and> map_of h = hashes r k"
    using a [THEN conjunct2, THEN conjunct1, rule_format, of k r] by (auto simp: Let_def)
  show "lr_ZAdd lib k t v r = (r1, None) \<Longrightarrow>
      hashes r1 = hashes r \<and> scores r1 = (scores r)(k := (scores r k)(t \<mapsto> v))"
    and "lr_ZAdd lib k t v r = (r1, e) \<Longrightarrow> hashes r1 = hashes r"
    using a [THEN conjunct2, THEN conjunct2, THEN conjunct1, rule_format, of k t v r] by (auto simp: Let_def)
  show "lr_ZScore lib k t r = (r1, sc) \<Longrightarrow> hashes r1 = hashes r \<and> scores r1 = scores r"
    and "lr_ZScore lib k t r = (r1, Inr v) \<Longrightarrow> scores r k t = Some v"
    using a [THEN conjunct2, THEN conjunct2, THEN conjunct2, THEN conjunct1, rule_format, of k t r]
    by (auto simp: Let_def)
  show "lr_ZRangeWithScores lib k i j r = (r1, Inr l) \<Longrightarrow> (mem, v) \<in> set l \<Longrightarrow>
      \<exists>t. mem = Some t \<and> scores r k t = Some v"
    using a [THEN conjunct2, THEN conjunct2, THEN conjunct2, THEN conjunct2, rule_format, of k i j r]
    by (auto simp: Let_def)
qed

section \<open>Structs survive storage\<close>

fun field_kind :: "go_field \<Rightarrow> nat" where
  "field_kind (FString s) = 0"
| "field_kind (FInt n) = 1"
| "field_kind (FInt32 n) = 2"
| "field_kind (FFloat f) = 3"
| "field_kind (FBool b) = 4"

text \<open>The type of a struct, and the values its fields can have.\<close>

definition struct_type :: "go_struct \<Rightarrow> (string \<times> nat) list" where
  "struct_type s = map (\<lambda>(n, f). (n, field_kind f)) s"

definition field_ok :: "go_field \<Rightarrow> bool" where
  "field_ok f = (case f of FInt n \<Rightarrow> in_i64 n | _ \<Rightarrow> True)"

definition struct_ok :: "go_struct \<Rightarrow> bool" where
  "struct_ok s \<longleftrightarrow> (\<forall>(n, f)\<in>set s. field_ok f)"

lemma populate_field_type:
  "field_kind (populate_field pf v f) = field_kind f \<and> (field_ok f \<longrightarrow> field_ok (populate_field pf v f))"
  using parse_int_range [of 64 v]
  by (cases f) (auto simp: field_ok_def in_i64_def split: option.splits)


text \<open>The text of a value can be read back: integers in range, finite floats.\<close>

definition text_ok :: "(go_field \<Rightarrow> string) \<Rightarrow> (string \<Rightarrow> float64 option) \<Rightarrow> bool" where
  "text_ok arg_text parse_float \<longleftrightarrow>
     (\<forall>s. arg_text (FString s) = s) \<and> (\<forall>n. arg_text (FInt n) = format_int n)
   \<and> (\<forall>b. arg_text (FBool b) = (if b then ''1'' else ''0''))
   \<and> (\<forall>f. f64_finite f \<longrightarrow> parse_float (arg_text (FFloat f)) = Some f)"

definition readable :: "go_field \<Rightarrow> bool" where
  "readable f = (case f of FInt n \<Rightarrow> in_i64 n | FFloat x \<Rightarrow> f64_finite x | FInt32 n \<Rightarrow> False | _ \<Rightarrow> True)"

lemma populate_field_text:
  "text_ok arg_text pf \<Longrightarrow> readable f \<Longrightarrow> field_kind g = field_kind f \<Longrightarrow> populate_field pf (arg_text f) g = f"
  using parse_format_int [of 64]
  by (cases f; cases g) (auto simp: text_ok_def readable_def in_i64_def parse_bool_def)

lemma populate_back:
  assumes "text_ok arg_text pf" and "\<forall>(n, f)\<in>set s. dat n = Some (arg_text f) \<and> readable f"
    and "struct_type blank = struct_type s"
  shows "PopulateStruct pf dat blank = s"
  using assms(2,3)
proof (induction s arbitrary: blank)
  case (Cons nf s)
  obtain n f g rest where nf: "nf = (n, f)" and b: "blank = (n, g) # rest" "field_kind g = field_kind f"
    using Cons.prems(2) by (cases nf) (auto simp: struct_type_def)
  then show ?case using Cons.IH [of rest] Cons.prems populate_field_text [OF assms(1)]
    by (auto simp: struct_type_def)
qed (simp add: struct_type_def)

text \<open>A struct is read back as it was saved. When \<open>SaveStructAsHash\<close> and then \<open>GetRedisMap\<close> succeed,
  \<open>PopulateStruct\<close> makes of any value of the type the value that was saved, if the
  fields are strings, booleans, 64-bit integers and finite floats. Fields the hash had before do not
  matter.\<close>

theorem struct_read_back:
  assumes ok: "legacy_ok lib arg_text hashes scores" and tok: "text_ok arg_text pf"
    and dec: "\<forall>s. distinct (map fst s) \<longrightarrow> decode_map s = Inr (map_of s)"
    and s: "distinct (map fst s)" "\<forall>(n, f)\<in>set s. readable f"
    and saved: "SaveStructAsHash lib decode_map key (AnyStruct s) r = (r1, None)"
    and got: "GetRedisMap lib key r1 = (r2, Inr dat)"
    and ty: "struct_type blank = struct_type s"
  shows "PopulateStruct pf dat blank = s"
proof -
  have "lr_HSet lib key (map_of s) r = (r1, None)"
    using saved dec s(1) by (auto simp: SaveStructAsHash_def split: prod.splits option.splits)
  then have h: "hashes r1 key = hashes r key ++ stored_fields arg_text (map_of s)"
    using HSet_ok [OF ok] by simp
  have "dat = hashes r1 key"
    using got HGetAll_val [OF ok] by (auto simp: GetRedisMap_def split: prod.splits sum.splits if_splits)
  then have "dat n = Some (arg_text f)" if "(n, f) \<in> set s" for n f
    using h that s(1) by (simp add: stored_fields_def map_add_def)
  then show ?thesis using s(2) by (intro populate_back [OF tok _ ty]) auto
qed


section \<open>ETags survive storage\<close>

text \<open>A hash that only \<open>SaveETagsAsHash\<close> has written.\<close>

definition etag_hash :: "(string \<rightharpoonup> string) \<Rightarrow> bool" where
  "etag_hash h \<longleftrightarrow> (\<forall>f\<in>dom h. \<exists>n. f = format_int n \<and> in_i64 n)"

definition pages_ok :: "(int \<rightharpoonup> string) \<Rightarrow> bool" where
  "pages_ok m \<longleftrightarrow> (\<forall>n\<in>dom m. in_i64 n)"

lemma etag_fields_format: "in_i64 n \<Longrightarrow> etag_fields m (format_int n) = map_option FString (m n)"
  by (simp add: etag_fields_def atoi_format)

lemma etag_fields_dom: "etag_fields m f = Some v \<Longrightarrow> \<exists>n. f = format_int n \<and> in_i64 n"
  using atoi_in_i64 [of f] by (auto simp: etag_fields_def split: option.splits if_splits)

lemma read_etags_spec:
  "distinct (map fst h) \<Longrightarrow> \<forall>f\<in>set (map fst h). \<exists>n. f = format_int n \<and> in_i64 n \<Longrightarrow> in_i64 n \<Longrightarrow>
    read_etags h m n = (case map_of h (format_int n) of None \<Rightarrow> m n | Some v \<Rightarrow> Some v)"
proof (induction h arbitrary: m)
  case (Cons kv r)
  obtain k v where kv: "kv = (k, v)" by (cases kv)
  obtain i where i: "k = format_int i" "in_i64 i" using Cons.prems(2) kv by auto
  have none: "map_of r (format_int i) = None" using Cons.prems(1) kv i by (auto simp: map_of_eq_None_iff)
  have "read_etags (kv # r) m n = read_etags r (m(i \<mapsto> v)) n" using i by (simp add: kv atoi_format)
  also have "\<dots> = (case map_of r (format_int n) of None \<Rightarrow> (m(i \<mapsto> v)) n | Some v \<Rightarrow> Some v)"
    using Cons.prems by (intro Cons.IH) auto
  also have "\<dots> = (case map_of (kv # r) (format_int n) of None \<Rightarrow> m n | Some v \<Rightarrow> Some v)"
    using none i by (auto simp: kv format_int_inj split: option.splits)
  finally show ?case .
qed simp

lemma read_etags_out:
  "\<forall>f\<in>set (map fst h). \<exists>n. f = format_int n \<and> in_i64 n \<Longrightarrow> \<not> in_i64 n \<Longrightarrow> read_etags h m n = m n"
  by (induction h m rule: read_etags.induct) (auto simp: atoi_format)

text \<open>ETags are read back as they were saved, page by page: after a successful \<open>SaveETagsAsHash\<close>,
  \<open>GetETagsAsMap\<close> gives the saved ETags, and those of earlier downloads for the pages that are not
  among them.\<close>

theorem etags_read_back:
  assumes ok: "legacy_ok lib arg_text hashes scores" and str: "\<forall>s. arg_text (FString s) = s"
    and m: "pages_ok m" and old: "etag_hash (hashes r key)"
    and saved: "SaveETagsAsHash lib key m r = (r1, None)"
    and got: "GetETagsAsMap lib key r1 = (r2, Inr m1)"
  shows "m1 = (\<lambda>n. if in_i64 n then hashes r key (format_int n) else None) ++ m"
proof
  fix n
  have h: "hashes r1 key = hashes r key ++ stored_fields arg_text (etag_fields m)"
    using saved HSet_ok [OF ok] by (auto simp: SaveETagsAsHash_def split: prod.splits option.splits)
  obtain l where l: "lr_HGetAll lib key r1 = (r2, Inr l)" and m1: "m1 = read_etags l Map.empty"
    using got by (auto simp: GetETagsAsMap_def split: prod.splits sum.splits)
  note g = HGetAll_val [OF ok l]
  have "etag_hash (hashes r1 key)"
    using old etag_fields_dom [of m] by (fastforce simp: etag_hash_def h stored_fields_def)
  then have dom: "\<forall>f\<in>set (map fst l). \<exists>n. f = format_int n \<and> in_i64 n"
    using g by (auto simp: etag_hash_def dom_map_of_conv_image_fst [symmetric])
  show "m1 n = ((\<lambda>n. if in_i64 n then hashes r key (format_int n) else None) ++ m) n"
  proof (cases "in_i64 n")
    case True
    have "m1 n = hashes r1 key (format_int n)"
      using read_etags_spec [OF _ dom True] g by (simp add: m1 split: option.splits)
    also have "\<dots> = (hashes r key ++ (\<lambda>f. map_option arg_text (etag_fields m f))) (format_int n)"
      by (simp add: h stored_fields_def)
    finally show ?thesis
      using True str by (simp add: map_add_def etag_fields_format option.map_comp comp_def split: option.splits)
  next
    case False
    then have "m n = None" using m by (auto simp: pages_ok_def)
    then show ?thesis using False read_etags_out [OF dom False, of Map.empty] by (simp add: m1 map_add_def)
  qed
qed

section \<open>Redis in memory\<close>

text \<open>A Redis whose hashes have fields among \<open>U\<close> and whose sorted sets have members among \<open>U\<close>: a write
  outside fails.\<close>

record memory_state =
  Hashes :: "string \<Rightarrow> string \<rightharpoonup> string"
  Scores :: "string \<Rightarrow> string \<rightharpoonup> float64"

definition listed :: "string list \<Rightarrow> (string \<rightharpoonup> 'a) \<Rightarrow> (string \<times> 'a) list" where
  "listed U m = List.map_filter (\<lambda>f. map_option (Pair f) (m f)) (remdups U)"

definition memory_hashes :: "string list \<Rightarrow> memory_state \<Rightarrow> string \<Rightarrow> string \<rightharpoonup> string" where
  "memory_hashes U r k = Hashes r k |` set U"

definition memory_legacy :: "string list \<Rightarrow> (go_field \<Rightarrow> string) \<Rightarrow> memory_state legacy_redis" where
  "memory_legacy U arg_text =
     \<lparr>lr_HSet = \<lambda>k m r. if dom m \<subseteq> set U
        then (r\<lparr>Hashes := (Hashes r)(k := Hashes r k ++ stored_fields arg_text m)\<rparr>, None)
        else (r, Some (ErrText ''field'')),
      lr_HGetAll = \<lambda>k r. (r, Inr (listed U (Hashes r k))),
      lr_ZAdd = \<lambda>k m v r. (r\<lparr>Scores := (Scores r)(k := (Scores r k)(m \<mapsto> v))\<rparr>, None),
      lr_ZScore = \<lambda>k m r. (r, case Scores r k m of None \<Rightarrow> Inl ErrRedisNil | Some v \<Rightarrow> Inr v),
      lr_ZRangeWithScores = \<lambda>k i j r. (r, Inr (map (\<lambda>(m, v). (Some m, v))
        (take (nat (j + 1 - i)) (drop (nat i) (sort_key (\<lambda>(m, v). f64_key v) (listed U (Scores r k))))))),
      lr_Set = \<lambda>k v ttl r. (r, None), lr_Get = \<lambda>k r. (r, Inl ErrRedisNil),
      lr_Incr = \<lambda>k r. r, lr_Decr = \<lambda>k r. r, lr_Expire = \<lambda>k d r. r\<rparr>"

lemma listed_set: "(f, v) \<in> set (listed U m) \<longleftrightarrow> f \<in> set U \<and> m f = Some v"
  by (force simp: listed_def map_filter_def)

lemma listed_map: "distinct (map fst (listed U m)) \<and> map_of (listed U m) = m |` set U"
proof -
  have d: "distinct (map fst (List.map_filter (\<lambda>f. map_option (Pair f) (m f)) xs))" if "distinct xs" for xs
    using that by (induction xs) (auto simp: map_filter_def split: option.splits)
  have "map_of (listed U m) f = (m |` set U) f" for f
  proof (cases "(m |` set U) f")
    case None
    then show ?thesis
      using listed_set [of f _ U m] by (auto simp: map_of_eq_None_iff restrict_map_def image_iff split: if_splits)
  next
    case (Some v)
    then have "(f, v) \<in> set (listed U m)" by (auto simp: listed_set restrict_map_def split: if_splits)
    then show ?thesis using Some d [of "remdups U"] by (simp add: listed_def)
  qed
  then show ?thesis using d [of "remdups U"] by (auto simp: listed_def)
qed

lemma memory_legacy_ok: "legacy_ok (memory_legacy U arg_text) arg_text (memory_hashes U) Scores"
proof -
  have add: "(h ++ stored_fields arg_text m) |` set U = h |` set U ++ stored_fields arg_text m" if "dom m \<subseteq> set U" for h m
    using that by (auto simp: fun_eq_iff restrict_map_def map_add_def stored_fields_def split: option.splits)
  have take: "x \<in> set (take i (drop j l)) \<Longrightarrow> x \<in> set l" for x :: "string \<times> float64" and i j l
    by (meson in_set_dropD in_set_takeD)
  show ?thesis
    unfolding legacy_ok_def memory_legacy_def
    by (auto simp: Let_def memory_hashes_def fun_eq_iff add listed_map listed_set
        split: option.splits dest!: take)
qed


text \<open>A text for floats: the pattern as a number.\<close>

fun sample_text :: "go_field \<Rightarrow> string" where
  "sample_text (FString s) = s"
| "sample_text (FInt n) = format_int n"
| "sample_text (FInt32 n) = format_int (sint n)"
| "sample_text (FFloat f) = format_nat (unat f)"
| "sample_text (FBool b) = (if b then ''1'' else ''0'')"

definition sample_float :: "string \<Rightarrow> float64 option" where
  "sample_float s = map_option of_nat (parse_nat s)"

definition sample_map :: "go_struct \<Rightarrow> go_error + (string \<rightharpoonup> go_field)" where
  "sample_map s = Inr (map_of s)"

lemma sample_text_ok: "text_ok sample_text sample_float"
  by (simp add: text_ok_def sample_float_def)


definition empty_memory :: memory_state where
  "empty_memory = \<lparr>Hashes = \<lambda>_. Map.empty, Scores = \<lambda>_. Map.empty\<rparr>"

theorem struct_read_back_witness:
  "PopulateStruct sample_float [''TypeID'' \<mapsto> ''34'', ''Buy'' \<mapsto> ''5''] [(''TypeID'', FInt 0), (''Buy'', FFloat 0)]
     = [(''TypeID'', FInt 34), (''Buy'', FFloat 5)]"
proof -
  let ?s = "[(''TypeID'', FInt 34), (''Buy'', FFloat 5)]" and ?U = "[''TypeID'', ''Buy'']"
  let ?r = "empty_memory\<lparr>Hashes := (\<lambda>_. Map.empty)(''k'' := [''TypeID'' \<mapsto> ''34'', ''Buy'' \<mapsto> ''5''])\<rparr>"
  have f: "format_int 34 = ''34''" "format_nat 5 = ''5''" by code_simp+
  have fields: "stored_fields sample_text [''Buy'' \<mapsto> FFloat 5, ''TypeID'' \<mapsto> FInt 34] = [''TypeID'' \<mapsto> ''34'', ''Buy'' \<mapsto> ''5'']"
    by (auto simp: fun_eq_iff stored_fields_def f)
  have "dom (map_of ?s) \<subseteq> set ?U" by (auto split: if_splits)
  then have saved: "SaveStructAsHash (memory_legacy ?U sample_text) sample_map ''k'' (AnyStruct ?s) empty_memory = (?r, None)"
    unfolding SaveStructAsHash_def sample_map_def memory_legacy_def by (simp add: empty_memory_def fields)
  have "listed ?U [''TypeID'' \<mapsto> ''34'', ''Buy'' \<mapsto> ''5''] = [(''TypeID'', ''34''), (''Buy'', ''5'')]"
    by (simp add: listed_def map_filter_def)
  then have got: "GetRedisMap (memory_legacy ?U sample_text) ''k'' ?r = (?r, Inr [''TypeID'' \<mapsto> ''34'', ''Buy'' \<mapsto> ''5''])"
    by (auto simp: GetRedisMap_def memory_legacy_def empty_memory_def fun_eq_iff)
  have d: "\<forall>s. distinct (map fst s) \<longrightarrow> sample_map s = Inr (map_of s)" by (simp add: sample_map_def)
  have s: "distinct (map fst ?s)" "\<forall>(n, f)\<in>set ?s. readable f"
    by (simp_all add: readable_def in_i64_def f64_finite_def f64_abs_def inf_bits_def)
  show ?thesis
    by (rule struct_read_back [OF memory_legacy_ok sample_text_ok d s saved got]) (simp add: struct_type_def)
qed

theorem etags_read_back_witness:
  "\<exists>r1. SaveETagsAsHash (memory_legacy [''1'', ''2''] sample_text) ''k'' [2 \<mapsto> ''b''] empty_memory = (r1, None)
     \<and> GetETagsAsMap (memory_legacy [''1'', ''2''] sample_text) ''k'' r1 = (r1, Inr [2 \<mapsto> ''b''])"
proof -
  let ?lib = "memory_legacy [''1'', ''2''] sample_text" and ?m = "[2 \<mapsto> ''b''] :: int \<rightharpoonup> string"
  let ?r1 = "empty_memory\<lparr>Hashes := (Hashes empty_memory)(''k'' := Hashes empty_memory ''k'' ++ stored_fields sample_text (etag_fields ?m))\<rparr>"
  have two: "format_int 2 = ''2''" by code_simp
  have "f = ''2''" if "etag_fields ?m f = Some v" for f v
    using that two by (auto simp: etag_fields_def split: option.splits if_splits)
  then have "dom (etag_fields ?m) \<subseteq> set [''1'', ''2'']" by (auto simp: dom_def)
  then have saved: "SaveETagsAsHash ?lib ''k'' ?m empty_memory = (?r1, None)"
    by (simp add: SaveETagsAsHash_def memory_legacy_def)
  obtain m1 where got: "GetETagsAsMap ?lib ''k'' ?r1 = (?r1, Inr m1)"
    by (simp add: GetETagsAsMap_def memory_legacy_def)
  have "m1 = (\<lambda>n. if in_i64 n then memory_hashes [''1'', ''2''] empty_memory ''k'' (format_int n) else None) ++ ?m"
    by (rule etags_read_back [OF memory_legacy_ok _ _ _ saved got])
      (simp_all add: pages_ok_def in_i64_def etag_hash_def memory_hashes_def empty_memory_def)
  then have "m1 = ?m" by (auto simp: memory_hashes_def empty_memory_def map_add_def fun_eq_iff)
  then show ?thesis using saved got by blast
qed

section \<open>Connection attempts\<close>

text \<open>The loop counts every failed attempt twice: with a server that is down it makes half of the
  configured attempts, rounded up.\<close>

theorem legacy_connect_half:
  assumes "\<forall>s. \<exists>s1 c err. open_client url s = (s1, c, Some err)" and "0 \<le> i"
  shows "\<exists>s1 c. legacy_connect_loop open_client url n delay i client sleeps s =
    (s1, c, sleeps @ replicate (nat ((n + 1 - i) div 2)) (dur_mul delay second), False)"
  using assms(2)
proof (induction "nat (n - i)" arbitrary: i client sleeps s rule: less_induct)
  case less
  obtain s1 c err where o: "open_client url s = (s1, c, Some err)" using assms(1) by blast
  show ?case
  proof (cases "i < n")
    case True
    then obtain s2 c2 where r: "legacy_connect_loop open_client url n delay (i + 2) (Some c) (sleeps @ [dur_mul delay second]) s1
        = (s2, c2, (sleeps @ [dur_mul delay second]) @ replicate (nat ((n + 1 - (i + 2)) div 2)) (dur_mul delay second), False)"
      using less(1) [of "i + 2" "Some c"] less(2) by fastforce
    have "nat ((n + 1 - i) div 2) = Suc (nat ((n + 1 - (i + 2)) div 2))" using True by linarith
    moreover have "legacy_connect_loop open_client url n delay i client sleeps s
        = legacy_connect_loop open_client url n delay (i + 2) (Some c) (sleeps @ [dur_mul delay second]) s1"
      using True o by (subst legacy_connect_loop.simps) (simp add: add.assoc)
    ultimately show ?thesis using r by simp
  next
    case False
    then have "nat ((n + 1 - i) div 2) = 0" by linarith
    then show ?thesis using False by (subst legacy_connect_loop.simps) simp
  qed
qed

end
