(* ===== verification/Legacy_Market.thy ===== *)
theory Legacy_Market
  imports Legacy_Requests Legacy_Redis Esi_Stream
begin

text \<open>
  The ESI client of the earlier version of the program: \<open>legacy/esi/models.go\<close>, \<open>marketPrices.go\<close>,
  \<open>marketHistory.go\<close>, \<open>adjustedPrices.go\<close> and \<open>systemindex.go\<close>.

  Each fetch goes through \<open>FetchAllPages\<close>, which may never return: the result \<open>None\<close>. The JSON
  decoders are arguments, \<open>now\<close> a reading of the clock; \<open>AddDate(0, 0, -30)\<close> is thirty times 24 hours (the
  services run in UTC), and \<open>time.Parse\<close> of a date is an argument.
\<close>

section \<open>Data\<close>

record MarketLocation =
  LocID :: int
  LocName :: string
  RegionID :: int
  StationID :: int

definition DEFAULT_MARKET_LOCATIONS :: "MarketLocation list" where
  "DEFAULT_MARKET_LOCATIONS =
     [\<lparr>LocID = 1, LocName = ''Jita'', RegionID = 10000002, StationID = 60003760\<rparr>,
      \<lparr>LocID = 2, LocName = ''Amarr'', RegionID = 10000043, StationID = 60008494\<rparr>,
      \<lparr>LocID = 3, LocName = ''Dodixie'', RegionID = 10000032, StationID = 60011866\<rparr>]"

record RegionMarketOrder =
  OrderDuration :: int32
  IsBuyOrder :: bool
  Issued :: time
  LocationID :: int
  MinVolume :: int32
  OrderID :: int
  Price :: float64
  Range :: string
  OrderSystemID :: int32
  OrderTypeID :: int32
  VolumeRemain :: int32
  VolumeTotal :: int32

record DBMarketPriceEntry =
  EntryTypeID :: int
  Buy :: float64
  Sell :: float64

record ESIMarketHistoryEntry =
  Average :: float64
  Date :: string
  Highest :: float64
  Lowest :: float64
  OrderCount :: int
  Volume :: int

record DBMarketHistoryEntry =
  DailyAverageMarketPrice :: float64
  DailyAverageOrderQuantity :: float64
  DailyAverageUnitCount :: float64
  HighestMarketPrice :: float64
  LowestMarketPrice :: float64

record LegacyPrice =
  LegacyAdjusted :: float64
  LegacyAverage :: float64
  LegacyTypeID :: int32

text \<open>The structs as they are stored.\<close>

definition price_struct :: "DBMarketPriceEntry \<Rightarrow> go_struct" where
  "price_struct e = [(''TypeID'', FInt (EntryTypeID e)), (''Buy'', FFloat (Buy e)), (''Sell'', FFloat (Sell e))]"

definition history_struct :: "DBMarketHistoryEntry \<Rightarrow> go_struct" where
  "history_struct e =
     [(''DailyAverageMarketPrice'', FFloat (DailyAverageMarketPrice e)),
      (''DailyAverageOrderQuantity'', FFloat (DailyAverageOrderQuantity e)),
      (''DailyAverageUnitCount'', FFloat (DailyAverageUnitCount e)),
      (''HighestMarketPrice'', FFloat (HighestMarketPrice e)),
      (''LowestMarketPrice'', FFloat (LowestMarketPrice e))]"

definition adjusted_struct :: "LegacyPrice \<Rightarrow> go_struct" where
  "adjusted_struct e =
     [(''AdjustedPrice'', FFloat (LegacyAdjusted e)), (''AveragePrice'', FFloat (LegacyAverage e)),
      (''TypeID'', FInt32 (LegacyTypeID e))]"

section \<open>Market prices\<close>

definition returned :: "('s, 'i) fetch_outcome option \<Rightarrow> ('s \<times> 'i list \<times> (int \<rightharpoonup> string) \<times> go_error option) option" where
  "returned out = (case out of Some (Returned s its tags err) \<Rightarrow> Some (s, its, tags, err) | _ \<Rightarrow> None)"

definition esi_url :: "string \<Rightarrow> url" where
  "esi_url path = \<lparr>UrlBase = ''https://esi.evetech.net'' @ path, RawQuery = Map.empty\<rparr>"

definition fetchRegionPrices :: "'s http_lib \<Rightarrow> (string \<Rightarrow> go_error + RegionMarketOrder list) \<Rightarrow> MarketLocation
    \<Rightarrow> int \<Rightarrow> (int \<rightharpoonup> string) \<Rightarrow> 's \<Rightarrow> ('s \<times> (int \<rightharpoonup> string) \<times> (go_error + RegionMarketOrder list)) option" where
  "fetchRegionPrices lib decode loc Type_ID ETags s =
     (let baseURL = esi_url (''/v1/markets/'' @ format_int (RegionID loc) @ ''/orders/'');
          queryParams = [''datasource'' \<mapsto> [''tranquility''], ''order_type'' \<mapsto> [''all''],
                         ''type_id'' \<mapsto> [format_int Type_ID], ''page'' \<mapsto> [''1'']]
      in case returned (FetchAllPages lib decode baseURL queryParams ETags s) of
           None \<Rightarrow> None
         | Some (s1, allOrders, newETags, Some err) \<Rightarrow>
             Some (s1, newETags, Inl (ErrWrap ''failed to fetch market orders: '' err))
         | Some (s1, allOrders, newETags, None) \<Rightarrow> Some (s1, newETags, Inr allOrders))"

fun filterOrdersByStation :: "RegionMarketOrder list \<Rightarrow> int \<Rightarrow> RegionMarketOrder list" where
  "filterOrdersByStation [] stationID = []"
| "filterOrdersByStation (order # orders) stationID =
     (if LocationID order = stationID then order # filterOrdersByStation orders stationID
      else filterOrdersByStation orders stationID)"

fun categorizeOrders :: "RegionMarketOrder list \<Rightarrow> RegionMarketOrder list \<times> RegionMarketOrder list" where
  "categorizeOrders [] = ([], [])"
| "categorizeOrders (order # orders) =
     (let (buyOrders, sellOrders) = categorizeOrders orders
      in if IsBuyOrder order then (order # buyOrders, sellOrders) else (buyOrders, order # sellOrders))"

fun highest_loop :: "RegionMarketOrder list \<Rightarrow> float64 \<Rightarrow> float64" where
  "highest_loop [] highestBuyPrice = highestBuyPrice"
| "highest_loop (order # orders) highestBuyPrice =
     highest_loop orders (if f64_less highestBuyPrice (Price order) then Price order else highestBuyPrice)"

fun lowest_loop :: "RegionMarketOrder list \<Rightarrow> float64 \<Rightarrow> float64" where
  "lowest_loop [] lowestSellPrice = lowestSellPrice"
| "lowest_loop (order # orders) lowestSellPrice =
     lowest_loop orders (if f64_less (Price order) lowestSellPrice then Price order else lowestSellPrice)"

definition getBestBuyAndSellPrices :: "RegionMarketOrder list \<Rightarrow> RegionMarketOrder list \<Rightarrow> float64 \<times> float64" where
  "getBestBuyAndSellPrices buyOrders sellOrders =
     (let highestBuyPrice = highest_loop buyOrders 0;
          lowestSellPrice = lowest_loop sellOrders f64_max
      in (highestBuyPrice, if f64_eq lowestSellPrice f64_max then 0 else lowestSellPrice))"

definition FetchStationPrices :: "'s http_lib \<Rightarrow> (string \<Rightarrow> go_error + RegionMarketOrder list) \<Rightarrow> MarketLocation
    \<Rightarrow> int \<Rightarrow> (int \<rightharpoonup> string) \<Rightarrow> 's \<Rightarrow> ('s \<times> (int \<rightharpoonup> string) \<times> (go_error + DBMarketPriceEntry)) option" where
  "FetchStationPrices lib decode loc Type_ID ETags s =
     (case fetchRegionPrices lib decode loc Type_ID ETags s of
        None \<Rightarrow> None
      | Some (s1, newETags, Inl err) \<Rightarrow> Some (s1, newETags, Inl err)
      | Some (s1, newETags, Inr allOrders) \<Rightarrow>
          (let stationOrders = filterOrdersByStation allOrders (StationID loc);
               (buyOrders, sellOrders) = categorizeOrders stationOrders;
               (highestBuyPrice, lowestSellPrice) = getBestBuyAndSellPrices buyOrders sellOrders
           in Some (s1, newETags,
                Inr \<lparr>EntryTypeID = Type_ID, Buy = highestBuyPrice, Sell = lowestSellPrice\<rparr>)))"

section \<open>Market history\<close>

fun filterEntiesOlderThan30Days :: "(string \<Rightarrow> time option) \<Rightarrow> time \<Rightarrow> ESIMarketHistoryEntry list
    \<Rightarrow> ESIMarketHistoryEntry list" where
  "filterEntiesOlderThan30Days parse_date now [] = []"
| "filterEntiesOlderThan30Days parse_date now (entry # marketData) =
     (let thresholdTime = now - 30 * 24 * 60 * minute
      in case parse_date (Date entry) of
           None \<Rightarrow> filterEntiesOlderThan30Days parse_date now marketData
         | Some parsedDate \<Rightarrow>
             if thresholdTime < parsedDate then entry # filterEntiesOlderThan30Days parse_date now marketData
             else filterEntiesOlderThan30Days parse_date now marketData)"

definition go_max :: "float64 \<Rightarrow> float64 \<Rightarrow> float64" where
  "go_max a b = (if f64_less b a then a else b)"

definition go_min :: "float64 \<Rightarrow> float64 \<Rightarrow> float64" where
  "go_min a b = (if f64_less a b then a else b)"

definition roundToTwo :: "float64 \<Rightarrow> float64" where
  "roundToTwo v = f64_div (math_Round (f64_mul v (f64_of_int 100))) (f64_of_int 100)"

fun history_loop :: "ESIMarketHistoryEntry list \<Rightarrow> float64 \<times> int \<times> int \<times> float64 \<times> float64
    \<Rightarrow> float64 \<times> int \<times> int \<times> float64 \<times> float64" where
  "history_loop [] acc = acc"
| "history_loop (entry # marketData) (totalAverage, totalOrders, totalUnits, highest, lowest) =
     history_loop marketData
       (f64_add totalAverage (Average entry), i64 (totalOrders + OrderCount entry),
        i64 (totalUnits + Volume entry), go_max highest (Highest entry), go_min lowest (Lowest entry))"

definition processMarketData :: "ESIMarketHistoryEntry list \<Rightarrow> float64 \<times> float64 \<times> float64 \<times> float64 \<times> float64" where
  "processMarketData marketData =
     (if length marketData = 0 then (0, 0, 0, 0, 0)
      else (let (totalAverage, totalOrders, totalUnits, highest, lowest) =
                  history_loop marketData (0, 0, 0, f64_neg_inf, f64_pos_inf);
                dataLength = f64_of_int (int (length marketData))
            in (roundToTwo (f64_div totalAverage dataLength),
                roundToTwo (f64_div (f64_of_int totalOrders) dataLength),
                roundToTwo (f64_div (f64_of_int totalUnits) dataLength), highest, lowest)))"

definition FetchRegionHistory :: "'s http_lib \<Rightarrow> (string \<Rightarrow> go_error + ESIMarketHistoryEntry list)
    \<Rightarrow> (string \<Rightarrow> time option) \<Rightarrow> time \<Rightarrow> MarketLocation \<Rightarrow> int \<Rightarrow> (int \<rightharpoonup> string) \<Rightarrow> 's
    \<Rightarrow> ('s \<times> (int \<rightharpoonup> string) \<times> (go_error + DBMarketHistoryEntry)) option" where
  "FetchRegionHistory lib decode parse_date now loc Type_ID ETags s =
     (let baseURL = esi_url (''/v1/markets/'' @ format_int (RegionID loc) @ ''/history/'');
          initialQueryParameters = [''datasource'' \<mapsto> [''tranquility''], ''type_id'' \<mapsto> [format_int Type_ID]]
      in case returned (FetchAllPages lib decode baseURL initialQueryParameters ETags s) of
           None \<Rightarrow> None
         | Some (s1, items, newETags, Some err) \<Rightarrow>
             Some (s1, newETags, Inl (ErrWrap ''failed to fetch market history: '' err))
         | Some (s1, items, newETags, None) \<Rightarrow>
             (let filteredItems = filterEntiesOlderThan30Days parse_date now items;
                  (price, orders, units, high, low) = processMarketData filteredItems
              in Some (s1, newETags,
                   Inr \<lparr>DailyAverageMarketPrice = price, DailyAverageOrderQuantity = orders,
                        DailyAverageUnitCount = units, HighestMarketPrice = high, LowestMarketPrice = low\<rparr>)))"

section \<open>Adjusted prices and system indexes\<close>

text \<open>On an error of the download the code returns no ETags.\<close>

definition FetchAdjustedPrices :: "'s http_lib \<Rightarrow> (string \<Rightarrow> go_error + LegacyPrice list) \<Rightarrow> (int \<rightharpoonup> string) \<Rightarrow> 's
    \<Rightarrow> ('s \<times> (go_error + LegacyPrice list \<times> (int \<rightharpoonup> string))) option" where
  "FetchAdjustedPrices lib decode existingETags s =
     (case returned (FetchAllPages lib decode (esi_url ''/v1/markets/prices/'') Map.empty existingETags s) of
        None \<Rightarrow> None
      | Some (s1, items, newETags, Some err) \<Rightarrow> Some (s1, Inl (ErrWrap ''failed to fetch adjusted prices: '' err))
      | Some (s1, items, newETags, None) \<Rightarrow> Some (s1, Inr (items, newETags)))"

text \<open>The clock is read once per system.\<close>

definition legacy_index :: "time \<Rightarrow> ESIIndustrySystem \<Rightarrow> SystemIndexes" where
  "legacy_index now dat =
     set_indexes (CostIndices dat)
       \<lparr>SolarSystemID = SystemID dat, LastUpdated = unix_milli now, Manufacturing = 0, ResearchTime = 0,
        ResearchMaterial = 0, Copying = 0, Invention = 0, Reaction = 0\<rparr>"

definition FetchSystemIndexes :: "'s http_lib \<Rightarrow> (string \<Rightarrow> go_error + ESIIndustrySystem list) \<Rightarrow> (nat \<Rightarrow> time)
    \<Rightarrow> (int \<rightharpoonup> string) \<Rightarrow> 's \<Rightarrow> 's \<times> (go_error + SystemIndexes list \<times> (int \<rightharpoonup> string))" where
  "FetchSystemIndexes lib decode clock existingETags s =
     (let queryParams = (case existingETags 1 of
                           Some tag \<Rightarrow> values_Set ''If-None-Match'' tag Map.empty | None \<Rightarrow> Map.empty);
          baseURL = (esi_url ''/v1/industry/systems/'')\<lparr>RawQuery := queryParams\<rparr>
      in case MakeHttpRequest lib decode baseURL Map.empty queryParams s of
           (s1, Inl err) \<Rightarrow> (s1, Inl (ErrWrap ''failed to fetch system indexes: '' err))
         | (s1, Inr (items, headers)) \<Rightarrow>
             (s1, Inr (map (\<lambda>i. legacy_index (clock i) (items ! i)) [0..<length items],
                       [1 \<mapsto> header_get headers ''ETag''])))"


section \<open>The best prices of a station\<close>

lemma filterOrdersByStation_filter: "filterOrdersByStation os st = filter (\<lambda>o1. LocationID o1 = st) os"
  by (induction os st rule: filterOrdersByStation.induct) auto

lemma categorizeOrders_filter: "categorizeOrders os = (filter IsBuyOrder os, filter (\<lambda>o1. \<not> IsBuyOrder o1) os)"
  by (induction os) auto

lemma highest_loop_spec:
  "\<not> f64_nan h \<Longrightarrow> \<not> f64_less (highest_loop os h) h \<and> (highest_loop os h = h \<or> (\<exists>o1\<in>set os. Price o1 = highest_loop os h))
   \<and> (\<forall>o1\<in>set os. \<not> f64_less (highest_loop os h) (Price o1))"
proof (induction os arbitrary: h)
  case (Cons o1 os)
  show ?case
  proof (cases "f64_less h (Price o1)")
    case True
    then have "\<not> f64_nan (Price o1)" by (simp add: f64_less_def)
    then show ?thesis using Cons.IH [of "Price o1"] True f64_less_trans by auto
  next
    case False
    then have "\<not> f64_less (highest_loop os h) (Price o1)"
      using Cons.IH [of h] Cons.prems by (auto simp: f64_less_def)
    then show ?thesis using False Cons.IH [of h] Cons.prems by auto
  qed
qed simp

lemma lowest_loop_spec:
  "\<not> f64_nan h \<Longrightarrow> \<not> f64_less h (lowest_loop os h) \<and> (lowest_loop os h = h \<or> (\<exists>o1\<in>set os. Price o1 = lowest_loop os h))
   \<and> (\<forall>o1\<in>set os. \<not> f64_less (Price o1) (lowest_loop os h))"
proof (induction os arbitrary: h)
  case (Cons o1 os)
  show ?case
  proof (cases "f64_less (Price o1) h")
    case True
    then have "\<not> f64_nan (Price o1)" by (simp add: f64_less_def)
    then show ?thesis using Cons.IH [of "Price o1"] True f64_less_trans by auto
  next
    case False
    then have "\<not> f64_less (Price o1) (lowest_loop os h)"
      using Cons.IH [of h] Cons.prems by (auto simp: f64_less_def)
    then show ?thesis using False Cons.IH [of h] Cons.prems by auto
  qed
qed simp

text \<open>What the price entry of a station says of a set of orders.\<close>

definition best_prices :: "RegionMarketOrder set \<Rightarrow> float64 \<Rightarrow> float64 \<Rightarrow> bool" where
  "best_prices orders buy sell \<longleftrightarrow>
     (let buys = {o1 \<in> orders. IsBuyOrder o1}; sells = {o1 \<in> orders. \<not> IsBuyOrder o1}
      in (\<forall>o1\<in>buys. \<not> f64_less buy (Price o1)) \<and> (buy = 0 \<or> (\<exists>o1\<in>buys. Price o1 = buy))
       \<and> (sells = {} \<longrightarrow> sell = 0)
       \<and> ((\<exists>o1\<in>sells. f64_less (Price o1) f64_max) \<longrightarrow>
            (\<forall>o1\<in>sells. \<not> f64_less (Price o1) sell) \<and> (\<exists>o1\<in>sells. Price o1 = sell)))"

lemma f64_not_nan [simp]: "\<not> f64_nan 0" "\<not> f64_nan f64_max"
  by (simp_all add: f64_nan_def f64_abs_def f64_consts)

lemma f64_eq_max [simp]: "f64_eq f64_max f64_max"
  by (simp add: f64_eq_def)

lemma best_of_station:
  "case_prod (best_prices {o1 \<in> set os. LocationID o1 = st})
     (case categorizeOrders (filterOrdersByStation os st) of (b, s) \<Rightarrow> getBestBuyAndSellPrices b s)"
proof -
  let ?os = "{o1 \<in> set os. LocationID o1 = st}"
  let ?b = "filter IsBuyOrder (filter (\<lambda>o1. LocationID o1 = st) os)"
  let ?s = "filter (\<lambda>o1. \<not> IsBuyOrder o1) (filter (\<lambda>o1. LocationID o1 = st) os)"
  have b: "set ?b = {o1 \<in> ?os. IsBuyOrder o1}" and s: "set ?s = {o1 \<in> ?os. \<not> IsBuyOrder o1}" by auto
  have none: "lowest_loop ?s f64_max = f64_max" if "set ?s = {}" using that by (metis lowest_loop.simps(1) set_empty)
  have less: "\<not> f64_eq (lowest_loop ?s f64_max) f64_max" if "\<exists>o1\<in>set ?s. f64_less (Price o1) f64_max"
    using that lowest_loop_spec [of f64_max ?s] by (force simp: f64_eq_def f64_less_def)
  have neq: "lowest_loop ?s f64_max \<noteq> f64_max" if "\<not> f64_eq (lowest_loop ?s f64_max) f64_max"
    using that by (metis f64_eq_max)
  show ?thesis
    using highest_loop_spec [of 0 ?b] lowest_loop_spec [of f64_max ?s] none less neq
    unfolding categorizeOrders_filter filterOrdersByStation_filter getBestBuyAndSellPrices_def best_prices_def Let_def
      b [symmetric] s [symmetric] case_prod_conv
    by auto
qed

lemma station_query:
  "page_of [''datasource'' \<mapsto> d, ''order_type'' \<mapsto> ot, ''type_id'' \<mapsto> t, ''page'' \<mapsto> [''1'']] = 1"
  "one_page [''datasource'' \<mapsto> d, ''order_type'' \<mapsto> ot, ''type_id'' \<mapsto> t, ''page'' \<mapsto> [''1'']]"
proof -
  have "atoi ''1'' = Some 1" by code_simp
  then show "page_of [''datasource'' \<mapsto> d, ''order_type'' \<mapsto> ot, ''type_id'' \<mapsto> t, ''page'' \<mapsto> [''1'']] = 1"
    and "one_page [''datasource'' \<mapsto> d, ''order_type'' \<mapsto> ot, ''type_id'' \<mapsto> t, ''page'' \<mapsto> [''1'']]"
    by (simp_all add: page_of_def one_page_def)
qed

lemma set_fetch_order: "set (fetch_order n) = {1..n}"
  by (auto simp: fetch_order_def)


lemma region_fetched:
  assumes srv: "serves lib decode items etag n" and n: "1 \<le> n" "n \<le> 15"
  shows "\<exists>s1. fetchRegionPrices lib decode loc T tags s = Some (s1, tags_to etag n, Inr (concat (map items (fetch_order n))))"
proof -
  let ?q = "[''datasource'' \<mapsto> [''tranquility''], ''order_type'' \<mapsto> [''all''],
                         ''type_id'' \<mapsto> [format_int T], ''page'' \<mapsto> [''1'']]"
  have n64: "in_i64 n" using n by (simp add: in_i64_def)
  have q: "page_of ?q = 1" "one_page ?q" by (rule station_query)+
  obtain s1 where "FetchAllPages lib decode (esi_url (''/v1/markets/'' @ format_int (RegionID loc) @ ''/orders/'')) ?q tags s
      = Some (Returned s1 (concat (map items (fetch_order n))) (tags_to etag n) None)"
    using fetch_pages_result [OF srv n64 n(1) q, of "esi_url (''/v1/markets/'' @ format_int (RegionID loc) @ ''/orders/'')" tags s] n(2)
    by auto
  then show ?thesis by (simp add: fetchRegionPrices_def returned_def Let_def)
qed

text \<open>C31: the best prices of a station. From a server that answers, for a type with at most fifteen pages of
  orders, \<open>FetchStationPrices\<close> ends without an error; \<open>Buy\<close> is the highest price of a buy order at the
  station on any page (zero when no price is above zero), \<open>Sell\<close> the lowest price of a sell order there
  (zero when there is no sell order). That pages are fetched several times does not matter.\<close>

theorem station_prices_best:
  assumes srv: "serves lib decode items etag n" and n: "1 \<le> n" "n \<le> 15"
  shows "\<exists>s1 entry. FetchStationPrices lib decode loc T tags s = Some (s1, tags_to etag n, Inr entry)
    \<and> EntryTypeID entry = T
    \<and> best_prices {o1. (\<exists>p\<in>{1..n}. o1 \<in> set (items p)) \<and> LocationID o1 = StationID loc} (Buy entry) (Sell entry)"
proof -
  let ?its = "concat (map items (fetch_order n))"
  obtain s1 where region: "fetchRegionPrices lib decode loc T tags s = Some (s1, tags_to etag n, Inr ?its)"
    using region_fetched [OF assms] by blast
  obtain b sl where best: "(case categorizeOrders (filterOrdersByStation ?its (StationID loc)) of
      (b, s) \<Rightarrow> getBestBuyAndSellPrices b s) = (b, sl)" by fastforce
  have "set ?its = {o1. \<exists>p\<in>{1..n}. o1 \<in> set (items p)}" by (auto simp: set_fetch_order)
  then have "best_prices {o1. (\<exists>p\<in>{1..n}. o1 \<in> set (items p)) \<and> LocationID o1 = StationID loc} b sl"
    using best_of_station [where os = ?its and st = "StationID loc"] unfolding best by simp
  moreover have "FetchStationPrices lib decode loc T tags s
      = Some (s1, tags_to etag n, Inr \<lparr>EntryTypeID = T, Buy = b, Sell = sl\<rparr>)"
    using best by (auto simp: FetchStationPrices_def region Let_def split: prod.splits)
  ultimately show ?thesis by auto
qed

lemma station_prices_down:
  assumes "refuses lib f"
  shows "FetchStationPrices lib decode loc T tags s
    = Some (f (f (f (f s))), Map.empty, Inr \<lparr>EntryTypeID = T, Buy = 0, Sell = 0\<rparr>)"
  by (simp add: FetchStationPrices_def fetchRegionPrices_def Let_def returned_def failed_download [OF assms]
      getBestBuyAndSellPrices_def)

section \<open>The figures of a history\<close>

lemma history_loop_spec:
  assumes "\<forall>e\<in>set es. \<not> f64_nan (Highest e) \<and> \<not> f64_nan (Lowest e)" and "\<not> f64_nan h" "\<not> f64_nan l"
    and "history_loop es (avg, i64 ords, i64 units, h, l) = (avg1, ords1, units1, h1, l1)"
  shows "ords1 = i64 (ords + sum_list (map OrderCount es)) \<and> units1 = i64 (units + sum_list (map Volume es))
    \<and> \<not> f64_nan h1 \<and> h1 \<in> insert h (Highest ` set es) \<and> (\<forall>x\<in>insert h (Highest ` set es). f64_key x \<le> f64_key h1)
    \<and> \<not> f64_nan l1 \<and> l1 \<in> insert l (Lowest ` set es) \<and> (\<forall>x\<in>insert l (Lowest ` set es). f64_key l1 \<le> f64_key x)"
  using assms
proof (induction es arbitrary: avg ords units h l)
  case (Cons e es)
  let ?h = "go_max h (Highest e)" and ?l = "go_min l (Lowest e)"
  have hl: "\<not> f64_nan ?h" "\<not> f64_nan ?l" "?h = h \<or> ?h = Highest e" "?l = l \<or> ?l = Lowest e"
    "f64_key h \<le> f64_key ?h" "f64_key (Highest e) \<le> f64_key ?h" "f64_key ?l \<le> f64_key l" "f64_key ?l \<le> f64_key (Lowest e)"
    using Cons.prems(1,2,3) by (auto simp: go_max_def go_min_def f64_less_def)
  have run: "history_loop es (f64_add avg (Average e), i64 (ords + OrderCount e), i64 (units + Volume e), ?h, ?l)
      = (avg1, ords1, units1, h1, l1)" using Cons.prems(4) by simp
  have es: "\<forall>e\<in>set es. \<not> f64_nan (Highest e) \<and> \<not> f64_nan (Lowest e)" using Cons.prems(1) by simp
  from Cons.IH [OF es hl(1,2) run] hl(3-) show ?case by (auto simp: add.assoc intro: order_trans)
qed auto

text \<open>The highest and the lowest price of a history are the extremes of its entries, whatever their order;
  the daily averages of orders and units are the totals, which wrap at 64 bits, over the number of
  entries. A history with no entry has zeros.\<close>

theorem history_figures:
  assumes nan: "\<forall>e\<in>set es. \<not> f64_nan (Highest e) \<and> \<not> f64_nan (Lowest e)
      \<and> f64_less (Highest e) f64_pos_inf \<and> f64_less f64_neg_inf (Highest e)
      \<and> f64_less (Lowest e) f64_pos_inf \<and> f64_less f64_neg_inf (Lowest e)"
    and ne: "es \<noteq> []"
    and res: "processMarketData es = (avg, orders, units, high, low)"
  shows "high \<in> Highest ` set es \<and> (\<forall>e\<in>set es. \<not> f64_less high (Highest e))
    \<and> low \<in> Lowest ` set es \<and> (\<forall>e\<in>set es. \<not> f64_less (Lowest e) low)
    \<and> orders = roundToTwo (f64_div (f64_of_int (i64 (sum_list (map OrderCount es)))) (f64_of_int (int (length es))))
    \<and> units = roundToTwo (f64_div (f64_of_int (i64 (sum_list (map Volume es)))) (f64_of_int (int (length es))))"
proof -
  obtain a os us h l where run: "history_loop es (0, i64 0, i64 0, f64_neg_inf, f64_pos_inf) = (a, os, us, h, l)"
    by (cases "history_loop es (0, i64 0, i64 0, f64_neg_inf, f64_pos_inf)")
  have z: "i64 0 = 0" by (simp add: i64_def)
  have inf: "\<not> f64_nan f64_neg_inf" "\<not> f64_nan f64_pos_inf"
    by (simp_all add: f64_nan_def f64_abs_def f64_consts)
  have es: "\<forall>e\<in>set es. \<not> f64_nan (Highest e) \<and> \<not> f64_nan (Lowest e)" using nan by blast
  note sp = history_loop_spec [OF es inf run]
  obtain e where e: "e \<in> set es" using ne by (cases es) auto
  have "h \<noteq> f64_neg_inf" "l \<noteq> f64_pos_inf" using sp e nan by (force simp: f64_less_def)+
  moreover have "high = h" "low = l"
    "orders = roundToTwo (f64_div (f64_of_int os) (f64_of_int (int (length es))))"
    "units = roundToTwo (f64_div (f64_of_int us) (f64_of_int (int (length es))))"
    using res ne run by (auto simp: processMarketData_def z Let_def)
  ultimately show ?thesis using sp by (auto simp: f64_less_def not_less)
qed

section \<open>Old and new system indexes\<close>

text \<open>The earlier version and the present one normalise a system alike.\<close>

theorem legacy_index_normalize: "legacy_index now dat = normalize_system (unix_milli now) dat"
  by (simp add: legacy_index_def normalize_system_def)


definition sample_order :: "bool \<Rightarrow> float64 \<Rightarrow> RegionMarketOrder" where
  "sample_order buy price =
     \<lparr>OrderDuration = 90, IsBuyOrder = buy, Issued = 0, LocationID = 60003760, MinVolume = 1, OrderID = 1,
      Price = price, Range = ''region'', OrderSystemID = 30000142, OrderTypeID = 34, VolumeRemain = 1, VolumeTotal = 1\<rparr>"

theorem station_prices_best_witness:
  "\<exists>s1 e. FetchStationPrices (sample_server 2) (page_decode (\<lambda>p. [sample_order True (word_of_int p), sample_order False 9]))
      (hd DEFAULT_MARKET_LOCATIONS) 34 Map.empty () = Some (s1, tags_to (\<lambda>_. []) 2, Inr e) \<and> Sell e = 9"
proof -
  let ?items = "\<lambda>p. [sample_order True (word_of_int p), sample_order False 9]"
  obtain s1 e where e: "FetchStationPrices (sample_server 2) (page_decode ?items)
      (hd DEFAULT_MARKET_LOCATIONS) 34 Map.empty () = Some (s1, tags_to (\<lambda>_. []) 2, Inr e)"
    "best_prices {o1. (\<exists>p\<in>{1..2}. o1 \<in> set (?items p)) \<and> LocationID o1 = StationID (hd DEFAULT_MARKET_LOCATIONS)}
        (Buy e) (Sell e)"
    using station_prices_best [OF sample_serves, of 2 ?items "hd DEFAULT_MARKET_LOCATIONS" 34 Map.empty "()"] by auto
  have sells: "{o1 \<in> {o1. (\<exists>p\<in>{1..2}. o1 \<in> set (?items p)) \<and> LocationID o1 = StationID (hd DEFAULT_MARKET_LOCATIONS)}.
      \<not> IsBuyOrder o1} = {sample_order False 9}"
    by (auto simp: sample_order_def DEFAULT_MARKET_LOCATIONS_def intro: bexI [of _ 1])
  have "f64_less (Price (sample_order False 9)) f64_max"
    by (simp add: sample_order_def f64_less_def f64_nan_def f64_key_def f64_neg_def f64_abs_def f64_consts)
  then have "Sell e = 9" using e(2) unfolding best_prices_def sells Let_def by (simp add: sample_order_def)
  then show ?thesis using e(1) by blast
qed

end
