(* ===== verification/Legacy_Broker.thy ===== *)
theory Legacy_Broker
  imports Legacy_Redis
begin

text \<open>
  Messages and periodic tasks of the earlier version of the program:
  \<open>legacy/messagebroker/messagebroker.go\<close>, \<open>legacy/scheduler/scheduler.go\<close> and \<open>legacy/scheduler/tasks\<close>.

  The package variable \<open>instance\<close> is the state \<open>Instance\<close>; \<open>Started\<close> is the \<open>sync.Once\<close>. The NATS library is
  a record of functions on the state \<open>'s\<close> of the outside. A function that dereferences the nil \<open>instance\<close>
  panics: the result \<open>None\<close>. Logging is left out except where its receiver is nil.
\<close>

section \<open>The message broker\<close>

record ('s, 'c) broker_lib =
  br_Connect :: "string \<Rightarrow> 's \<Rightarrow> 's \<times> (go_error + 'c)"
  br_Close :: "'c \<Rightarrow> 's \<Rightarrow> 's"
  br_Publish :: "'c \<Rightarrow> string \<Rightarrow> string \<Rightarrow> 's \<Rightarrow> 's \<times> go_error option"
  br_Subscribe :: "'c \<Rightarrow> string \<Rightarrow> 's \<Rightarrow> 's \<times> go_error option"
  br_Flush :: "'c \<Rightarrow> 's \<Rightarrow> 's \<times> go_error option"

record ('s, 'c) broker =
  Outside :: 's
  Instance :: "'c option"
  Started :: bool

definition SubjectAdjustedPrices :: string where "SubjectAdjustedPrices = ''refreshAdjustedPrices''"
definition SubjectMarketHistory :: string where "SubjectMarketHistory = ''refreshMarketHistory''"
definition SubjectMarketPrices :: string where "SubjectMarketPrices = ''refreshMarketPrices''"
definition SubjectSystemIndexes :: string where "SubjectSystemIndexes = ''refreshSystemIndexes''"

definition maxRetries :: nat where "maxRetries = 5"
definition broker_delay :: duration where "broker_delay = 2 * second"

text \<open>The loop over \<open>range maxRetries\<close>, with the rounds that are left; incrementing its variable does not
  change the next round.\<close>

fun broker_loop :: "('s, 'c) broker_lib \<Rightarrow> string \<Rightarrow> nat \<Rightarrow> duration list \<Rightarrow> 's \<Rightarrow> 's \<times> duration list \<times> 'c option" where
  "broker_loop lib natsURL 0 sleeps s = (s, sleeps, None)"
| "broker_loop lib natsURL (Suc n) sleeps s =
     (case br_Connect lib natsURL s of
        (s1, Inr nc) \<Rightarrow> (s1, sleeps, Some nc)
      | (s1, Inl err) \<Rightarrow> broker_loop lib natsURL n (sleeps @ [broker_delay]) s1)"

definition broker_Connect :: "('s, 'c) broker_lib \<Rightarrow> (string \<Rightarrow> string) \<Rightarrow> ('s, 'c) broker \<Rightarrow> ('s, 'c) broker" where
  "broker_Connect lib env b =
     (if Started b then b
      else (let natsURL = (if env ''NATS_URL'' = [] then ''nats:4222'' else env ''NATS_URL'')
            in case broker_loop lib natsURL maxRetries [] (Outside b) of
                 (s, sleeps, nc) \<Rightarrow>
                   b\<lparr>Outside := s, Started := True, Instance := (case nc of None \<Rightarrow> Instance b | Some c \<Rightarrow> Some c)\<rparr>))"

text \<open>\<open>instance.log\<close> is read after \<open>instance\<close> has been set to nil: the connection is closed, then the
  function panics. The second component tells whether it returned.\<close>

definition Disconnect :: "('s, 'c) broker_lib \<Rightarrow> ('s, 'c) broker \<Rightarrow> ('s, 'c) broker \<times> bool" where
  "Disconnect lib b =
     (case Instance b of
        None \<Rightarrow> (b, False)
      | Some c \<Rightarrow>
          (let b1 = b\<lparr>Outside := br_Close lib c (Outside b), Instance := None\<rparr>
           in (b1, Instance b1 \<noteq> None)))"

definition GetInstance :: "('s, 'c) broker \<Rightarrow> 'c option" where
  "GetInstance b = Instance b"

definition SubscribeToMessages :: "('s, 'c) broker_lib \<Rightarrow> string \<Rightarrow> ('s, 'c) broker
    \<Rightarrow> (('s, 'c) broker \<times> go_error option) option" where
  "SubscribeToMessages lib subject b =
     (case Instance b of
        None \<Rightarrow> None
      | Some c \<Rightarrow> (case br_Subscribe lib c subject (Outside b) of
          (s, err) \<Rightarrow> Some (b\<lparr>Outside := s\<rparr>, err)))"

definition PublishMessage :: "('s, 'c) broker_lib \<Rightarrow> string \<Rightarrow> string \<Rightarrow> ('s, 'c) broker
    \<Rightarrow> (('s, 'c) broker \<times> go_error option) option" where
  "PublishMessage lib subject message b =
     (case Instance b of
        None \<Rightarrow> None
      | Some c \<Rightarrow> (case br_Publish lib c subject message (Outside b) of
          (s, err) \<Rightarrow> Some (b\<lparr>Outside := s\<rparr>, err)))"

definition broker_Flush :: "('s, 'c) broker_lib \<Rightarrow> ('s, 'c) broker \<Rightarrow> (('s, 'c) broker \<times> go_error option) option" where
  "broker_Flush lib b =
     (case Instance b of
        None \<Rightarrow> None
      | Some c \<Rightarrow> (case br_Flush lib c (Outside b) of (s, err) \<Rightarrow> Some (b\<lparr>Outside := s\<rparr>, err)))"

section \<open>The periodic tasks\<close>

text \<open>A failed publish is logged and the broker is flushed anyway.\<close>

definition trigger :: "('s, 'c) broker_lib \<Rightarrow> string \<Rightarrow> ('s, 'c) broker \<Rightarrow> ('s, 'c) broker option" where
  "trigger lib subject b =
     (case PublishMessage lib subject [] b of
        None \<Rightarrow> None
      | Some (b1, err) \<Rightarrow> map_option fst (broker_Flush lib b1))"

definition legacy_RefreshAdjustedPrices :: "('s, 'c) broker_lib \<Rightarrow> ('s, 'c) broker \<Rightarrow> ('s, 'c) broker option" where
  "legacy_RefreshAdjustedPrices lib b = trigger lib SubjectAdjustedPrices b"

definition legacy_RefreshSystemIndexes :: "('s, 'c) broker_lib \<Rightarrow> ('s, 'c) broker \<Rightarrow> ('s, 'c) broker option" where
  "legacy_RefreshSystemIndexes lib b = trigger lib SubjectSystemIndexes b"

text \<open>The loop of a task over the oldest entries: \<open>clock i\<close> is the reading of the clock at result \<open>i\<close>,
  \<open>sent\<close> lists the messages that were published.\<close>

fun publish_stale :: "('s, 'c) broker_lib \<Rightarrow> string \<Rightarrow> (nat \<Rightarrow> time) \<Rightarrow> nat \<Rightarrow> SortedSetResult list \<Rightarrow> string list
    \<Rightarrow> ('s, 'c) broker \<Rightarrow> (('s, 'c) broker \<times> string list) option" where
  "publish_stale lib subject clock i [] sent b = Some (b, sent)"
| "publish_stale lib subject clock i (result # results) sent b =
     (if \<not> ResultUpdated result < time_add (clock i) (- 4 * 60 * minute) then
        publish_stale lib subject clock (Suc i) results sent b
      else case PublishMessage lib subject (ResultTypeID result) b of
             None \<Rightarrow> None
           | Some (b1, Some err) \<Rightarrow> publish_stale lib subject clock (Suc i) results sent b1
           | Some (b1, None) \<Rightarrow>
               (let sent1 = sent @ [ResultTypeID result]
                in if length sent1 > 100 then Some (b1, sent1)
                   else publish_stale lib subject clock (Suc i) results sent1 b1))"

definition refresh_oldest :: "'r legacy_redis \<Rightarrow> ('s, 'c) broker_lib \<Rightarrow> string \<Rightarrow> string \<Rightarrow> (nat \<Rightarrow> time) \<Rightarrow> 'r
    \<Rightarrow> ('s, 'c) broker \<Rightarrow> 'r \<times> (('s, 'c) broker \<times> string list) option" where
  "refresh_oldest rlib lib redisKey subject clock r b =
     (case RetrieveOldestValuesFromSortedSet rlib redisKey 150 r of
        (r1, Inl err) \<Rightarrow> (r1, Some (b, []))
      | (r1, Inr results) \<Rightarrow>
          (r1, case publish_stale lib subject clock 0 results [] b of
                 None \<Rightarrow> None
               | Some (b1, sent) \<Rightarrow>
                   (case broker_Flush lib b1 of None \<Rightarrow> None | Some (b2, err) \<Rightarrow> Some (b2, sent))))"

definition RefreshMarketPrices :: "'r legacy_redis \<Rightarrow> ('s, 'c) broker_lib \<Rightarrow> (nat \<Rightarrow> time) \<Rightarrow> 'r
    \<Rightarrow> ('s, 'c) broker \<Rightarrow> 'r \<times> (('s, 'c) broker \<times> string list) option" where
  "RefreshMarketPrices rlib lib = refresh_oldest rlib lib ''marketPrices_lastRefresh'' SubjectMarketPrices"

definition RefreshMarketHistory :: "'r legacy_redis \<Rightarrow> ('s, 'c) broker_lib \<Rightarrow> (nat \<Rightarrow> time) \<Rightarrow> 'r
    \<Rightarrow> ('s, 'c) broker \<Rightarrow> 'r \<times> (('s, 'c) broker \<times> string list) option" where
  "RefreshMarketHistory rlib lib = refresh_oldest rlib lib ''marketHistory_lastRefresh'' SubjectMarketHistory"

datatype legacy_task = TaskAdjustedPrices | TaskMarketPrices | TaskMarketHistory | TaskSystemIndexes

text \<open>\<open>add\<close> is \<open>AddFunc\<close> of the cron library.\<close>

definition addCronTasks :: "(string \<Rightarrow> legacy_task \<Rightarrow> 'q \<Rightarrow> 'q) \<Rightarrow> 'q \<Rightarrow> 'q" where
  "addCronTasks add q =
     add ''@hourly'' TaskSystemIndexes (add ''@every 2h'' TaskMarketHistory
       (add ''@every 10m'' TaskMarketPrices (add ''0 13 * * *'' TaskAdjustedPrices q)))"

definition scheduler_Start :: "(string \<Rightarrow> legacy_task \<Rightarrow> 'q \<Rightarrow> 'q) \<Rightarrow> ('q \<Rightarrow> 'q) \<Rightarrow> 'q \<Rightarrow> 'q option" where
  "scheduler_Start add start newq = Some (start (addCronTasks add newq))"

definition scheduler_Stop :: "('q \<Rightarrow> 'q) \<Rightarrow> 'q option \<Rightarrow> 'q option" where
  "scheduler_Stop stop instance0 = (case instance0 of None \<Rightarrow> None | Some q \<Rightarrow> Some (stop q))"

section \<open>What a task publishes\<close>

lemma Disconnect_panics: "\<not> snd (Disconnect lib b)"
  by (simp add: Disconnect_def Let_def split: option.splits)

lemma publish_stale_sent:
  assumes "publish_stale lib subject clock i results sent b = Some (b1, sent1)" and "length sent \<le> 100"
  shows "\<exists>js. sorted_wrt (<) js \<and> (\<forall>j\<in>set js. j < length results
        \<and> ResultUpdated (results ! j) < clock (i + j) - 4 * 60 * minute)
      \<and> sent1 = sent @ map (\<lambda>j. ResultTypeID (results ! j)) js \<and> length sent1 \<le> 101"
  using assms
proof (induction lib subject clock i results sent b rule: publish_stale.induct)
  case (1 lib subject clock i sent b)
  then show ?case by (intro exI [of _ "[]"]) simp
next
  case (2 lib subject clock i result results sent b)
  have shift: "\<exists>js. sorted_wrt (<) js \<and> (\<forall>j\<in>set js. j < length (result # results)
        \<and> ResultUpdated ((result # results) ! j) < clock (i + j) - 4 * 60 * minute)
      \<and> sent1 = sent @ map (\<lambda>j. ResultTypeID ((result # results) ! j)) js \<and> length sent1 \<le> 101"
    if "\<exists>js. sorted_wrt (<) js \<and> (\<forall>j\<in>set js. j < length results
        \<and> ResultUpdated (results ! j) < clock (Suc i + j) - 4 * 60 * minute)
      \<and> sent1 = sent2 @ map (\<lambda>j. ResultTypeID (results ! j)) js \<and> length sent1 \<le> 101"
      and "sent2 = sent \<or> sent2 = sent @ [ResultTypeID result] \<and> ResultUpdated result < clock i - 4 * 60 * minute"
    for sent2
  proof -
    note tail = that
    obtain js where js: "sorted_wrt (<) js" "\<forall>j\<in>set js. j < length results
        \<and> ResultUpdated (results ! j) < clock (Suc i + j) - 4 * 60 * minute"
      "sent1 = sent2 @ map (\<lambda>j. ResultTypeID (results ! j)) js" "length sent1 \<le> 101" using tail(1) by blast
    have "sorted_wrt (<) (map Suc js)" "sorted_wrt (<) (0 # map Suc js)" using js(1) by (simp_all add: sorted_wrt_map)
    with js tail(2) show ?thesis
      by (elim disjE) (rule exI [of _ "map Suc js"], simp add: comp_def, rule exI [of _ "0 # map Suc js"], simp add: comp_def)
  qed
  show ?case
  proof (cases "ResultUpdated result < time_add (clock i) (- 4 * 60 * minute)")
    case False
    then show ?thesis using 2 by (intro shift [of sent]) auto
  next
    case True
    then obtain b2 e where p: "PublishMessage lib subject (ResultTypeID result) b = Some (b2, e)"
      using 2(4) by (auto split: option.splits)
    have old: "ResultUpdated result < clock i - 4 * 60 * minute" using True by (simp add: time_add_def)
    show ?thesis
    proof (cases e)
      case (Some err)
      then show ?thesis using 2(3) True p 2(4,5) by (intro shift [of sent]) auto
    next
      case None
      show ?thesis
      proof (cases "length (sent @ [ResultTypeID result]) > 100")
        case True
        then show ?thesis using 2(4,5) p None old \<open>ResultUpdated result < time_add (clock i) (- 4 * 60 * minute)\<close>
          by (intro exI [of _ "[0]"]) auto
      next
        case False
        then show ?thesis using 2(2) True p None 2(4,5) old
          by (intro shift [of "sent @ [ResultTypeID result]"]) auto
      qed
    qed
  qed
qed


lemma sorted_results_mem:
  "sorted_results l = Inr results \<Longrightarrow> x \<in> set results \<Longrightarrow>
    \<exists>v. (Some (ResultTypeID x), v) \<in> set l \<and> ResultUpdated x = time_UnixMilli (i64_of_f64 v)"
  by (induction l arbitrary: results rule: sorted_results.induct) (auto split: sum.splits, blast+)

lemma oldest_members:
  assumes ok: "legacy_ok rlib arg_text hashes scores"
    and got: "RetrieveOldestValuesFromSortedSet rlib key n r = (r1, Inr results)" and x: "x \<in> set results"
  shows "\<exists>v. scores r key (ResultTypeID x) = Some v \<and> ResultUpdated x = time_UnixMilli (i64_of_f64 v)"
proof -
  obtain l where l: "lr_ZRangeWithScores rlib key 0 (n - 1) r = (r1, Inr l)" "sorted_results l = Inr results"
    using got by (auto simp: RetrieveOldestValuesFromSortedSet_def split: if_splits prod.splits sum.splits)
  then show ?thesis using sorted_results_mem [OF l(2) x] ZRange_val [OF ok l(1)] by fastforce
qed

text \<open>C35: a periodic task asks only for what is stale, and for at most 101 items at a time. When the sorted set
  holds the millisecond timestamps of the last refreshes (as floats, which keep them exactly), a run of
  \<open>RefreshMarketPrices\<close> that returns has published at most 101 messages, each for a member whose last refresh
  lies more than four hours before the clock.\<close>

theorem stale_items_published:
  assumes ok: "legacy_ok rlib arg_text hashes scores"
    and stamps: "\<forall>t v. scores r ''marketPrices_lastRefresh'' t = Some v \<longrightarrow> (\<exists>ms. 0 \<le> ms \<and> ms \<le> 2 ^ 53 \<and> v = f64_of_int ms)"
    and run: "RefreshMarketPrices rlib lib clock r b = (r1, Some (b1, sent))"
  shows "length sent \<le> 101 \<and> (\<forall>t\<in>set sent. \<exists>ms i.
    scores r ''marketPrices_lastRefresh'' t = Some (f64_of_int ms) \<and> ms * millisecond < clock i - 4 * 60 * minute)"
proof (cases "RetrieveOldestValuesFromSortedSet rlib ''marketPrices_lastRefresh'' 150 r")
  case (Pair r2 res)
  show ?thesis
  proof (cases res)
    case (Inl err)
    then show ?thesis using run Pair by (simp add: RefreshMarketPrices_def refresh_oldest_def)
  next
    case (Inr results)
    then obtain b2 where "publish_stale lib SubjectMarketPrices clock 0 results [] b = Some (b2, sent)"
      using run Pair by (auto simp: RefreshMarketPrices_def refresh_oldest_def split: option.splits prod.splits)
    from publish_stale_sent [OF this] obtain js where js: "\<forall>j\<in>set js. j < length results
        \<and> ResultUpdated (results ! j) < clock j - 4 * 60 * minute"
      "sent = map (\<lambda>j. ResultTypeID (results ! j)) js" "length sent \<le> 101" by auto
    have "\<exists>ms i. scores r ''marketPrices_lastRefresh'' t = Some (f64_of_int ms) \<and> ms * millisecond < clock i - 4 * 60 * minute"
      if t: "t \<in> set sent" for t
    proof -
      obtain j where j: "j < length results" "t = ResultTypeID (results ! j)"
          "ResultUpdated (results ! j) < clock j - 4 * 60 * minute" using t js by auto
      obtain v where v: "scores r ''marketPrices_lastRefresh'' t = Some v"
          "ResultUpdated (results ! j) = time_UnixMilli (i64_of_f64 v)"
        using oldest_members [OF ok Pair [unfolded Inr] nth_mem [OF j(1)]] j(2) by auto
      obtain ms where ms: "0 \<le> ms" "ms \<le> 2 ^ 53" "v = f64_of_int ms" using stamps v(1) by blast
      show ?thesis using v j(3) i64_of_f64_of_int [OF ms(1,2)] by (auto simp: ms(3) time_UnixMilli_def)
    qed
    then show ?thesis using js(3) by blast
  qed
qed

definition sample_broker_lib :: "(string list, unit) broker_lib" where
  "sample_broker_lib =
     \<lparr>br_Connect = \<lambda>u s. (s, Inr ()), br_Close = \<lambda>c s. s, br_Publish = \<lambda>c sub m s. (s @ [m], None),
      br_Subscribe = \<lambda>c sub s. (s, None), br_Flush = \<lambda>c s. (s, None)\<rparr>"

theorem stale_items_published_witness:
  "\<exists>b1. RefreshMarketPrices (memory_legacy [''34'', ''35''] sample_text) sample_broker_lib (\<lambda>_. 20000 * second)
     \<lparr>Hashes = \<lambda>_. Map.empty, Scores = (\<lambda>_. Map.empty)(''marketPrices_lastRefresh'' := [''34'' \<mapsto> f64_of_int 1000])\<rparr>
     \<lparr>Outside = [], Instance = Some (), Started = True\<rparr>
   = (\<lparr>Hashes = \<lambda>_. Map.empty, Scores = (\<lambda>_. Map.empty)(''marketPrices_lastRefresh'' := [''34'' \<mapsto> f64_of_int 1000])\<rparr>,
      Some (b1, [''34''])) \<and> length [''34''] \<le> 101"
proof -
  let ?lib = "memory_legacy [''34'', ''35''] sample_text"
  let ?r = "\<lparr>Hashes = \<lambda>_. Map.empty, Scores = (\<lambda>_. Map.empty)(''marketPrices_lastRefresh'' := [''34'' \<mapsto> f64_of_int 1000])\<rparr>"
  let ?b = "\<lparr>Outside = [], Instance = Some (), Started = True\<rparr>"
  have l: "listed [''34'', ''35''] [''34'' \<mapsto> f64_of_int 1000] = [(''34'', f64_of_int 1000)]"
    by (simp add: listed_def map_filter_def)
  have f: "i64_of_f64 (f64_of_int 1000) = 1000" by (rule i64_of_f64_of_int) simp_all
  have got: "RetrieveOldestValuesFromSortedSet ?lib ''marketPrices_lastRefresh'' 150 ?r
      = (?r, Inr [\<lparr>ResultTypeID = ''34'', ResultUpdated = 1000 * millisecond\<rparr>])"
    by (simp add: RetrieveOldestValuesFromSortedSet_def memory_legacy_def l f time_UnixMilli_def)
  have old: "1000 * millisecond < time_add (20000 * second) (- 4 * 60 * minute)"
    by (simp add: time_add_def time_units)
  have run: "RefreshMarketPrices ?lib sample_broker_lib (\<lambda>_. 20000 * second) ?r ?b
      = (?r, Some (?b\<lparr>Outside := [''34'']\<rparr>, [''34'']))"
    using old by (simp add: RefreshMarketPrices_def refresh_oldest_def got PublishMessage_def sample_broker_lib_def broker_Flush_def)
  have stamps: "\<forall>t v. Scores ?r ''marketPrices_lastRefresh'' t = Some v \<longrightarrow> (\<exists>ms. 0 \<le> ms \<and> ms \<le> 2 ^ 53 \<and> v = f64_of_int ms)"
  proof (intro allI impI)
    fix t v assume "Scores ?r ''marketPrices_lastRefresh'' t = Some v"
    then have "v = f64_of_int 1000" by (simp split: if_splits)
    then show "\<exists>ms. 0 \<le> ms \<and> ms \<le> 2 ^ 53 \<and> v = f64_of_int ms" by (intro exI [of _ 1000]) simp
  qed
  from stale_items_published [OF memory_legacy_ok stamps run] run show ?thesis by blast
qed

end
