(* ===== verification/Legacy_Worker.thy ===== *)
theory Legacy_Worker
  imports Legacy_Market Legacy_Broker
begin

text \<open>
  The workers of the earlier version of the program: \<open>legacy/worker/marketPrices.go\<close>,
  \<open>markethistory.go\<close>, \<open>systemindexes.go\<close> and \<open>adjustedprices.go\<close>.

  A handler works on the web (\<open>Web\<close>) and on Redis (\<open>Store\<close>). It does not return (\<open>None\<close>) when a download
  does not. \<open>clock\<close> gives the reading of the clock at a location or at a system. Printing is left out;
  subscribing and waiting for the signal are left out but for the subject.
\<close>

record ('s, 'r) world =
  Web :: 's
  Store :: 'r

record ('s, 'r) worker_libs =
  Http :: "'s http_lib"
  Redis_lib :: "'r legacy_redis"
  decode_map :: "go_struct \<Rightarrow> go_error + (string \<rightharpoonup> go_field)"
  decode_orders :: "string \<Rightarrow> go_error + RegionMarketOrder list"
  decode_history :: "string \<Rightarrow> go_error + ESIMarketHistoryEntry list"
  decode_prices :: "string \<Rightarrow> go_error + LegacyPrice list"
  decode_systems :: "string \<Rightarrow> go_error + ESIIndustrySystem list"
  marshal_index :: "SystemIndexes \<Rightarrow> go_error + string"
  parse_date :: "string \<Rightarrow> time option"

definition price_key :: "int \<Rightarrow> int \<Rightarrow> string" where
  "price_key tid loc = format_int tid @ ''-marketPrices-'' @ format_int loc"

definition price_etag_key :: "int \<Rightarrow> int \<Rightarrow> string" where
  "price_etag_key tid loc = price_key tid loc @ ''-etags''"

definition history_key :: "int \<Rightarrow> int \<Rightarrow> string" where
  "history_key tid loc = format_int tid @ ''-marketHistory-'' @ format_int loc"

definition history_etag_key :: "int \<Rightarrow> int \<Rightarrow> string" where
  "history_etag_key tid loc = history_key tid loc @ ''-etags''"

text \<open>\<open>existingETags\<close> stays nil when it cannot be read.\<close>

definition existing_etags :: "'r legacy_redis \<Rightarrow> string \<Rightarrow> 'r \<Rightarrow> 'r \<times> (int \<rightharpoonup> string)" where
  "existing_etags lib key r =
     (case GetETagsAsMap lib key r of (r1, Inl err) \<Rightarrow> (r1, Map.empty) | (r1, Inr m) \<Rightarrow> (r1, m))"

section \<open>Market prices\<close>

text \<open>One round of the loop over the locations: the entry that goes to the results, if the round gets there.\<close>

definition refresh_location :: "('s, 'r) worker_libs \<Rightarrow> time \<Rightarrow> int \<Rightarrow> MarketLocation \<Rightarrow> ('s, 'r) world
    \<Rightarrow> (('s, 'r) world \<times> DBMarketPriceEntry option) option" where
  "refresh_location libs now tid loc w =
     (let lib = Redis_lib libs;
          (r1, existingETags) = existing_etags lib (price_etag_key tid (LocID loc)) (Store w)
      in case FetchStationPrices (Http libs) (decode_orders libs) loc tid existingETags (Web w) of
           None \<Rightarrow> None
         | Some (s1, newETags, Inl err) \<Rightarrow> Some (w\<lparr>Web := s1, Store := r1\<rparr>, None)
         | Some (s1, newETags, Inr result) \<Rightarrow>
             Some (case SaveToSortedSet lib ''marketPrices_lastRefresh'' (format_int tid) (f64_of_int (unix_milli now)) r1 of
                     (r2, Some err) \<Rightarrow> (w\<lparr>Web := s1, Store := r2\<rparr>, None)
                   | (r2, None) \<Rightarrow>
                       (case SaveStructAsHash lib (decode_map libs) (price_key tid (LocID loc)) (AnyStruct (price_struct result)) r2 of
                          (r3, Some err) \<Rightarrow> (w\<lparr>Web := s1, Store := r3\<rparr>, None)
                        | (r3, None) \<Rightarrow>
                            (case SaveETagsAsHash lib (price_etag_key tid (LocID loc)) newETags r3 of
                               (r4, err) \<Rightarrow> (w\<lparr>Web := s1, Store := r4\<rparr>, Some result)))))"

fun refresh_locations :: "('s, 'r) worker_libs \<Rightarrow> (int \<Rightarrow> time) \<Rightarrow> int \<Rightarrow> MarketLocation list
    \<Rightarrow> (string \<rightharpoonup> DBMarketPriceEntry) \<Rightarrow> ('s, 'r) world \<Rightarrow> (('s, 'r) world \<times> (string \<rightharpoonup> DBMarketPriceEntry)) option" where
  "refresh_locations libs clock tid [] results w = Some (w, results)"
| "refresh_locations libs clock tid (loc # locs) results w =
     (case refresh_location libs (clock (LocID loc)) tid loc w of
        None \<Rightarrow> None
      | Some (w1, None) \<Rightarrow> refresh_locations libs clock tid locs results w1
      | Some (w1, Some result) \<Rightarrow> refresh_locations libs clock tid locs (results(format_int (LocID loc) \<mapsto> result)) w1)"

definition FetchMarketPrices :: "('s, 'r) worker_libs \<Rightarrow> (int \<Rightarrow> time) \<Rightarrow> int \<Rightarrow> ('s, 'r) world
    \<Rightarrow> (('s, 'r) world \<times> (string \<rightharpoonup> DBMarketPriceEntry)) option" where
  "FetchMarketPrices libs clock tid w = refresh_locations libs clock tid DEFAULT_MARKET_LOCATIONS Map.empty w"

definition handleMarketPrices :: "('s, 'r) worker_libs \<Rightarrow> (int \<Rightarrow> time) \<Rightarrow> string \<Rightarrow> ('s, 'r) world \<Rightarrow> ('s, 'r) world option" where
  "handleMarketPrices libs clock dat w =
     (case atoi dat of
        None \<Rightarrow> Some w
      | Some messageContent \<Rightarrow> map_option fst (FetchMarketPrices libs clock messageContent w))"

section \<open>Market history\<close>

definition refresh_history :: "('s, 'r) worker_libs \<Rightarrow> time \<Rightarrow> time \<Rightarrow> string \<Rightarrow> int \<Rightarrow> MarketLocation \<Rightarrow> ('s, 'r) world
    \<Rightarrow> ('s, 'r) world option" where
  "refresh_history libs now saved dat tid loc w =
     (let lib = Redis_lib libs;
          (r1, existingETags) = existing_etags lib (history_etag_key tid (LocID loc)) (Store w)
      in case FetchRegionHistory (Http libs) (decode_history libs) (parse_date libs) now loc tid existingETags (Web w) of
           None \<Rightarrow> None
         | Some (s1, newETags, Inl err) \<Rightarrow> Some (w\<lparr>Web := s1, Store := r1\<rparr>)
         | Some (s1, newETags, Inr result) \<Rightarrow>
             Some (case SaveToSortedSet lib ''marketHistory_lastRefresh'' dat (f64_of_int (unix_milli saved)) r1 of
                     (r2, Some err) \<Rightarrow> w\<lparr>Web := s1, Store := r2\<rparr>
                   | (r2, None) \<Rightarrow>
                       (case SaveStructAsHash lib (decode_map libs) (history_key tid (LocID loc)) (AnyStruct (history_struct result)) r2 of
                          (r3, Some err) \<Rightarrow> w\<lparr>Web := s1, Store := r3\<rparr>
                        | (r3, None) \<Rightarrow>
                            w\<lparr>Web := s1, Store := fst (SaveETagsAsHash lib (history_etag_key tid (LocID loc)) newETags r3)\<rparr>)))"

fun refresh_histories :: "('s, 'r) worker_libs \<Rightarrow> (int \<Rightarrow> time) \<Rightarrow> (int \<Rightarrow> time) \<Rightarrow> string \<Rightarrow> int \<Rightarrow> MarketLocation list
    \<Rightarrow> ('s, 'r) world \<Rightarrow> ('s, 'r) world option" where
  "refresh_histories libs clock clock2 dat tid [] w = Some w"
| "refresh_histories libs clock clock2 dat tid (loc # locs) w =
     (case refresh_history libs (clock (LocID loc)) (clock2 (LocID loc)) dat tid loc w of
        None \<Rightarrow> None
      | Some w1 \<Rightarrow> refresh_histories libs clock clock2 dat tid locs w1)"

definition handleMarketHistory :: "('s, 'r) worker_libs \<Rightarrow> (int \<Rightarrow> time) \<Rightarrow> (int \<Rightarrow> time) \<Rightarrow> string \<Rightarrow> ('s, 'r) world
    \<Rightarrow> ('s, 'r) world option" where
  "handleMarketHistory libs clock clock2 dat w =
     (case atoi dat of
        None \<Rightarrow> Some w
      | Some messageContent \<Rightarrow> refresh_histories libs clock clock2 dat messageContent DEFAULT_MARKET_LOCATIONS w)"

section \<open>System indexes and adjusted prices\<close>

definition solar_system_key :: "int32 \<Rightarrow> string" where
  "solar_system_key systemID = ''solar_system:'' @ format_int (sint systemID)"

fun save_indexes :: "'r legacy_redis \<Rightarrow> (SystemIndexes \<Rightarrow> go_error + string) \<Rightarrow> SystemIndexes list \<Rightarrow> 'r
    \<Rightarrow> 'r \<times> go_error option" where
  "save_indexes lib marshal [] r = (r, None)"
| "save_indexes lib marshal (item # items) r =
     (case SaveAsJSON lib marshal (solar_system_key (SolarSystemID item)) item r of
        (r1, Some err) \<Rightarrow> (r1, Some err)
      | (r1, None) \<Rightarrow> save_indexes lib marshal items r1)"

definition handleSystemIndexes :: "('s, 'r) worker_libs \<Rightarrow> (nat \<Rightarrow> time) \<Rightarrow> ('s, 'r) world \<Rightarrow> ('s, 'r) world" where
  "handleSystemIndexes libs clock w =
     (let lib = Redis_lib libs; (r1, existingETags) = existing_etags lib ''systemIndexes-etags'' (Store w)
      in case FetchSystemIndexes (Http libs) (decode_systems libs) clock existingETags (Web w) of
           (s1, Inl err) \<Rightarrow> w\<lparr>Web := s1, Store := r1\<rparr>
         | (s1, Inr (items, newETags)) \<Rightarrow>
             (case save_indexes lib (marshal_index libs) items r1 of
                (r2, Some err) \<Rightarrow> w\<lparr>Web := s1, Store := r2\<rparr>
              | (r2, None) \<Rightarrow> w\<lparr>Web := s1, Store := fst (SaveETagsAsHash lib ''systemIndexes-etags'' newETags r2)\<rparr>))"

definition adjusted_key :: "int32 \<Rightarrow> string" where
  "adjusted_key tid = format_int (sint tid) @ ''-adjustedPrice''"

fun save_prices :: "'r legacy_redis \<Rightarrow> (go_struct \<Rightarrow> go_error + (string \<rightharpoonup> go_field)) \<Rightarrow> LegacyPrice list \<Rightarrow> 'r
    \<Rightarrow> 'r \<times> go_error option" where
  "save_prices lib dec [] r = (r, None)"
| "save_prices lib dec (item # items) r =
     (case SaveStructAsHash lib dec (adjusted_key (LegacyTypeID item)) (AnyStruct (adjusted_struct item)) r of
        (r1, Some err) \<Rightarrow> (r1, Some err)
      | (r1, None) \<Rightarrow> save_prices lib dec items r1)"

definition handleAdjustedPrices :: "('s, 'r) worker_libs \<Rightarrow> ('s, 'r) world \<Rightarrow> ('s, 'r) world option" where
  "handleAdjustedPrices libs w =
     (let lib = Redis_lib libs; (r1, existingETags) = existing_etags lib ''adjustedPrice-etags'' (Store w)
      in case FetchAdjustedPrices (Http libs) (decode_prices libs) existingETags (Web w) of
           None \<Rightarrow> None
         | Some (s1, Inl err) \<Rightarrow> Some (w\<lparr>Web := s1, Store := r1\<rparr>)
         | Some (s1, Inr (items, newETags)) \<Rightarrow>
             Some (case save_prices lib (decode_map libs) items r1 of
                     (r2, Some err) \<Rightarrow> w\<lparr>Web := s1, Store := r2\<rparr>
                   | (r2, None) \<Rightarrow> w\<lparr>Web := s1, Store := fst (SaveETagsAsHash lib ''adjustedPrice-etags'' newETags r2)\<rparr>))"

text \<open>The subjects the workers listen to.\<close>

definition worker_subjects :: "string list" where
  "worker_subjects = [SubjectAdjustedPrices, SubjectMarketHistory, ''refreshMarketPrices'', ''refreshSystemIndexes'']"


section \<open>What a refresh of prices leaves in Redis\<close>

lemma format_int_no_e: "CHR ''e'' \<notin> set (format_int n)"
proof -
  have "CHR ''e'' \<noteq> digit_char d" if "d < 10" for d
    using that by (auto simp: digit_char_def dest!: arg_cong [where f = "of_char :: char \<Rightarrow> nat"])
  then have "CHR ''e'' \<notin> set (format_nat m)" for m using format_nat_digits [of "CHR ''e''" m] by blast
  then show ?thesis by (simp add: format_int_def)
qed

lemma price_keys:
  "price_key tid l \<noteq> price_etag_key tid l1" "price_key tid l = price_key tid l1 \<longleftrightarrow> l = l1"
proof -
  have "format_int l \<noteq> format_int l1 @ ''-etags''"
    using format_int_no_e [of l] by (metis in_set_conv_decomp list.set_intros(1,2) set_append UnCI)
  then show "price_key tid l \<noteq> price_etag_key tid l1" by (simp add: price_key_def price_etag_key_def)
qed (simp add: price_key_def format_int_inj)

lemma existing_etags_same:
  "legacy_ok lib txt hashes scores \<Longrightarrow> existing_etags lib key r = (r1, m) \<Longrightarrow> hashes r1 = hashes r \<and> scores r1 = scores r"
  by (auto simp: existing_etags_def GetETagsAsMap_def HGetAll_same split: prod.splits sum.splits)

lemma SaveETags_other:
  "legacy_ok lib txt hashes scores \<Longrightarrow> SaveETagsAsHash lib key m r = (r1, e) \<Longrightarrow> k \<noteq> key \<Longrightarrow>
    hashes r1 k = hashes r k \<and> scores r1 = scores r"
  using HSet_any by (fastforce simp: SaveETagsAsHash_def split: prod.splits option.splits)

lemma SaveStruct_other:
  assumes "legacy_ok lib txt hashes scores" and "SaveStructAsHash lib dec key (AnyStruct s) r = (r1, e)"
  shows "scores r1 = scores r \<and> (k \<noteq> key \<longrightarrow> hashes r1 k = hashes r k)"
  using assms(2) HSet_any [OF assms(1)]
  by (fastforce simp: SaveStructAsHash_def split: prod.splits option.splits sum.splits)

lemma SaveStruct_ok:
  assumes "legacy_ok lib txt hashes scores" and "SaveStructAsHash lib dec key (AnyStruct s) r = (r1, None)"
    and "dec s = Inr m"
  shows "hashes r1 key = hashes r key ++ stored_fields txt m"
  using assms(2,3) HSet_ok [OF assms(1)] by (auto simp: SaveStructAsHash_def split: prod.splits option.splits)

text \<open>What Redis holds of an entry.\<close>

definition price_stored :: "(go_field \<Rightarrow> string) \<Rightarrow> (string \<rightharpoonup> string) \<Rightarrow> DBMarketPriceEntry \<Rightarrow> bool" where
  "price_stored txt h e \<longleftrightarrow> (\<forall>(n, f)\<in>set (price_struct e). h n = Some (txt f))"

lemma refresh_location_effect:
  assumes ok: "legacy_ok (Redis_lib libs) txt hashes scores"
    and dec: "\<forall>s. distinct (map fst s) \<longrightarrow> decode_map libs s = Inr (map_of s)"
    and run: "refresh_location libs now tid loc w = Some (w1, res)"
  shows "(\<forall>l. l \<noteq> LocID loc \<longrightarrow> hashes (Store w1) (price_key tid l) = hashes (Store w) (price_key tid l))
    \<and> (\<forall>e. res = Some e \<longrightarrow> price_stored txt (hashes (Store w1) (price_key tid (LocID loc))) e
          \<and> scores (Store w1) ''marketPrices_lastRefresh'' (format_int tid) = Some (f64_of_int (unix_milli now)))"
proof -
  let ?lib = "Redis_lib libs" and ?k = "price_key tid (LocID loc)" and ?ek = "price_etag_key tid (LocID loc)"
  obtain r1 tags where et: "existing_etags ?lib ?ek (Store w) = (r1, tags)" by fastforce
  note same = existing_etags_same [OF ok et]
  obtain s1 newETags entry where st: "FetchStationPrices (Http libs) (decode_orders libs) loc tid tags (Web w) = Some (s1, newETags, entry)"
    using run by (cases "FetchStationPrices (Http libs) (decode_orders libs) loc tid tags (Web w)")
      (auto simp: refresh_location_def et Let_def)
  show ?thesis
  proof (cases entry)
    case (Inl err)
    then show ?thesis using run same by (auto simp: refresh_location_def et st)
  next
    case (Inr result)
    obtain r2 e2 where z: "SaveToSortedSet ?lib ''marketPrices_lastRefresh'' (format_int tid) (f64_of_int (unix_milli now)) r1 = (r2, e2)"
      by fastforce
    have h2: "hashes r2 = hashes (Store w)" using ZAdd_any [OF ok] z same by (simp add: SaveToSortedSet_def)
    show ?thesis
    proof (cases e2)
      case (Some err)
      then show ?thesis using run h2 by (auto simp: refresh_location_def et st Inr z)
    next
      case None
      have sc2: "scores r2 ''marketPrices_lastRefresh'' (format_int tid) = Some (f64_of_int (unix_milli now))"
        using ZAdd_ok [OF ok] z None by (simp add: SaveToSortedSet_def)
      obtain r3 e3 where sv: "SaveStructAsHash ?lib (decode_map libs) ?k (AnyStruct (price_struct result)) r2 = (r3, e3)" by fastforce
      note other3 = SaveStruct_other [OF ok sv]
      show ?thesis
      proof (cases e3)
        case (Some err)
        then show ?thesis using run h2 other3 price_keys(2)
          by (auto simp: refresh_location_def et st Inr z None sv)
      next
        case n3: None
        obtain r4 e4 where tg: "SaveETagsAsHash ?lib ?ek newETags r3 = (r4, e4)" by fastforce
        note other4 = SaveETags_other [OF ok tg]
        have d: "distinct (map fst (price_struct result))" by (simp add: price_struct_def)
        have "hashes r3 ?k = hashes r2 ?k ++ stored_fields txt (map_of (price_struct result))"
          using SaveStruct_ok [OF ok sv [unfolded n3]] dec d by blast
        then have "price_stored txt (hashes r3 ?k) result"
          using d by (auto simp: price_stored_def stored_fields_def map_add_def)
        moreover have "hashes r4 (price_key tid l) = hashes r3 (price_key tid l)" for l
          using other4 [of "price_key tid l"] price_keys(1) by auto
        moreover have "scores r4 = scores r2" using other4 [of ?k] other3 [of ?k] price_keys(1) by auto
        ultimately show ?thesis using run h2 sc2 other3 price_keys(2)
          by (auto simp: refresh_location_def et st Inr z None sv n3 tg)
      qed
    qed
  qed
qed


lemma refresh_locations_stored:
  assumes ok: "legacy_ok (Redis_lib libs) txt hashes scores"
    and dec: "\<forall>s. distinct (map fst s) \<longrightarrow> decode_map libs s = Inr (map_of s)"
  shows "refresh_locations libs clock tid locs results w = Some (w1, results1) \<Longrightarrow> distinct (map LocID locs)
    \<Longrightarrow> \<forall>l\<in>set locs. results (format_int (LocID l)) = None
    \<Longrightarrow> (\<forall>l. l \<notin> LocID ` set locs \<longrightarrow> hashes (Store w1) (price_key tid l) = hashes (Store w) (price_key tid l)
          \<and> results1 (format_int l) = results (format_int l))
      \<and> (\<forall>l\<in>set locs. \<forall>e. results1 (format_int (LocID l)) = Some e \<longrightarrow>
          price_stored txt (hashes (Store w1) (price_key tid (LocID l))) e)"
proof (induction locs arbitrary: results w)
  case (Cons loc locs)
  obtain w2 res where r: "refresh_location libs (clock (LocID loc)) tid loc w = Some (w2, res)"
    using Cons.prems(1) by (auto split: option.splits)
  define results2 where "results2 = (case res of None \<Rightarrow> results | Some e \<Rightarrow> results(format_int (LocID loc) \<mapsto> e))"
  have run: "refresh_locations libs clock tid locs results2 w2 = Some (w1, results1)"
    using Cons.prems(1) r by (auto simp: results2_def split: option.splits)
  have loc: "LocID loc \<notin> LocID ` set locs" "distinct (map LocID locs)" using Cons.prems(2) by auto
  have none: "\<forall>l\<in>set locs. results2 (format_int (LocID l)) = None"
  proof
    fix l assume l: "l \<in> set locs"
    then have "LocID l \<noteq> LocID loc" using loc(1) by (metis imageI)
    then show "results2 (format_int (LocID l)) = None"
      using Cons.prems(3) l by (simp add: results2_def format_int_inj split: option.splits)
  qed
  note ih = Cons.IH [OF run loc(2) none] and eff = refresh_location_effect [OF ok dec r]
  have first: "hashes (Store w1) (price_key tid (LocID loc)) = hashes (Store w2) (price_key tid (LocID loc))"
    "results1 (format_int (LocID loc)) = results2 (format_int (LocID loc))" using ih loc(1) by blast+
  have "price_stored txt (hashes (Store w1) (price_key tid (LocID loc))) e"
    if "results1 (format_int (LocID loc)) = Some e" for e
    using that first eff Cons.prems(3) by (auto simp: results2_def split: option.splits)
  moreover have "results2 (format_int l) = results (format_int l)" if "l \<noteq> LocID loc" for l
    using that by (simp add: results2_def format_int_inj split: option.splits)
  ultimately show ?case using ih eff by auto
qed auto

lemma refresh_locations_down:
  assumes "refuses (Http libs) f"
  shows "\<forall>e\<in>ran results. Buy e = 0 \<and> Sell e = 0 \<Longrightarrow>
    \<exists>w1 results1. refresh_locations libs clock tid locs results w = Some (w1, results1)
      \<and> (\<forall>e\<in>ran results1. Buy e = 0 \<and> Sell e = 0)"
proof (induction locs arbitrary: results w)
  case (Cons loc locs)
  obtain r1 m where et: "existing_etags (Redis_lib libs) (price_etag_key tid (LocID loc)) (Store w) = (r1, m)" by fastforce
  have "\<exists>w2 res. refresh_location libs (clock (LocID loc)) tid loc w = Some (w2, res)
      \<and> (res = None \<or> res = Some \<lparr>EntryTypeID = tid, Buy = 0, Sell = 0\<rparr>)"
    unfolding refresh_location_def Let_def et case_prod_conv station_prices_down [OF assms]
    by (auto split: prod.splits option.splits)
  then obtain w2 res where r: "refresh_location libs (clock (LocID loc)) tid loc w = Some (w2, res)"
      "res = None \<or> res = Some \<lparr>EntryTypeID = tid, Buy = 0, Sell = 0\<rparr>" by blast
  have "\<forall>e\<in>ran (results(format_int (LocID loc) \<mapsto> \<lparr>EntryTypeID = tid, Buy = 0, Sell = 0\<rparr>)). Buy e = 0 \<and> Sell e = 0"
    using Cons.prems by (auto simp: ran_def)
  then show ?case using r Cons.IH Cons.prems by (elim disjE) auto
qed simp



definition sample_libs :: "(int, memory_state) worker_libs" where
  "sample_libs =
     \<lparr>Http = down_server, Redis_lib = memory_legacy [''TypeID'', ''Buy'', ''Sell''] sample_text, decode_map = sample_map,
      decode_orders = \<lambda>_. Inr [], decode_history = \<lambda>_. Inr [], decode_prices = \<lambda>_. Inr [],
      decode_systems = \<lambda>_. Inr [], marshal_index = \<lambda>_. Inr [], parse_date = \<lambda>_. None\<rparr>"

lemma memory_location:
  assumes lib: "Redis_lib libs = memory_legacy U sample_text" "decode_map libs = sample_map"
    and U: "{''TypeID'', ''Buy'', ''Sell''} \<subseteq> set U"
    and fetched: "\<And>tags s. \<exists>s1 newETags. FetchStationPrices (Http libs) (decode_orders libs) loc tid tags s = Some (s1, newETags, Inr e)"
  shows "\<exists>w1. refresh_location libs now tid loc w = Some (w1, Some e)"
proof -
  let ?lib = "memory_legacy U sample_text"
  obtain r1 m where et: "existing_etags ?lib (price_etag_key tid (LocID loc)) (Store w) = (r1, m)" by fastforce
  obtain s1 newETags where st: "FetchStationPrices (Http libs) (decode_orders libs) loc tid m (Web w) = Some (s1, newETags, Inr e)"
    using fetched by blast
  have "dom (map_of (price_struct e)) \<subseteq> set U" using U by (auto simp: price_struct_def split: if_splits)
  then have writes: "\<exists>r2. SaveStructAsHash ?lib sample_map k (AnyStruct (price_struct e)) r = (r2, None)"
    "\<exists>r2. SaveToSortedSet ?lib k t v r = (r2, None)" for k t v r
    by (simp_all add: SaveStructAsHash_def SaveToSortedSet_def memory_legacy_def sample_map_def)
  obtain r2 where z: "SaveToSortedSet ?lib ''marketPrices_lastRefresh'' (format_int tid) (f64_of_int (unix_milli now)) r1 = (r2, None)"
    using writes(2) by blast
  obtain r3 where sv: "SaveStructAsHash ?lib sample_map (price_key tid (LocID loc)) (AnyStruct (price_struct e)) r2 = (r3, None)"
    using writes(1) by blast
  obtain r4 e4 where tg: "SaveETagsAsHash ?lib (price_etag_key tid (LocID loc)) newETags r3 = (r4, e4)" by fastforce
  show ?thesis by (simp add: refresh_location_def Let_def lib et st z sv tg)
qed

lemma sample_location: "\<exists>w1. refresh_location sample_libs now tid loc w = Some (w1, Some \<lparr>EntryTypeID = tid, Buy = 0, Sell = 0\<rparr>)"
  by (rule memory_location [where U = "[''TypeID'', ''Buy'', ''Sell'']"])
    (simp_all add: sample_libs_def station_prices_down [OF down_refuses])


end
