(* ===== verification/Legacy_Tokens.thy ===== *)
theory Legacy_Tokens
  imports Legacy_Redis System_Index_Api
begin

text \<open>
  The tokens of the earlier version of the program: \<open>legacy/apiServer/util/generateEveTokens.go\<close>,
  \<open>validateTokens.go\<close> and \<open>legacy/apiServer/endpoints/authentication.go\<close>.

  The JWT library, PEM and X.509 decoding, JSON and the HTTP client are arguments. A function that
  panics (an index out of range, a nil pointer) gives \<open>None\<close>.
\<close>

section \<open>Claims and keys\<close>

record EveClaims =
  CharacterID :: string
  CharacterName :: string
  ClaimAudience :: string
  ClaimIssuer :: string
  ClaimExpiresAt :: "time option"

record rsa_key =
  rsa_N :: int
  rsa_E :: int

record access_claims =
  character_id :: string
  character_name :: "string option"
  expires :: int

text \<open>\<open>eve_parse kf t\<close> is \<open>jwt.ParseWithClaims\<close>: the key function sees the \<open>kid\<close> of the header, when it is
  a string; the result are the claims and the flag \<open>Valid\<close>.\<close>

record token_lib =
  eve_parse :: "(string option \<Rightarrow> go_error + rsa_key) \<Rightarrow> string \<Rightarrow> go_error + EveClaims \<times> bool"
  sign_claims :: "string \<Rightarrow> access_claims \<Rightarrow> go_error + string"
  decode_segment :: "string \<Rightarrow> go_error + 8 word list"

definition internalSecret :: string where "internalSecret = ''my_super_secret_key''"
definition refreshSecret :: string where "refreshSecret = ''my_refresh_secret_key''"

definition unix_seconds :: "time \<Rightarrow> int" where
  "unix_seconds t = t div second"

text \<open>\<open>now\<close> and \<open>now2\<close> are the two readings of the clock.\<close>

definition GenerateTokens :: "token_lib \<Rightarrow> time \<Rightarrow> time \<Rightarrow> string \<Rightarrow> string \<Rightarrow> go_error + string \<times> string" where
  "GenerateTokens lib now now2 characterID characterName =
     (let accessExp = time_add now (20 * minute);
          accessClaims = \<lparr>character_id = characterID, character_name = Some characterName, expires = unix_seconds accessExp\<rparr>
      in case sign_claims lib internalSecret accessClaims of
           Inl err \<Rightarrow> Inl err
         | Inr accessTokenString \<Rightarrow>
             (let refreshExp = time_add now2 (7 * 24 * 60 * minute);
                  refreshClaims = \<lparr>character_id = characterID, character_name = None, expires = unix_seconds refreshExp\<rparr>
              in case sign_claims lib refreshSecret refreshClaims of
                   Inl err \<Rightarrow> Inl err
                 | Inr refreshTokenString \<Rightarrow> Inr (accessTokenString, refreshTokenString)))"

section \<open>The keys of EVE online\<close>

record jwk =
  Kid :: string
  KeyN :: string
  KeyE :: string

text \<open>\<open>big.Int.SetBytes\<close> reads bytes with the most significant first.\<close>

definition be_value :: "8 word list \<Rightarrow> int" where
  "be_value bs = foldl (\<lambda>n b. 256 * n + uint b) 0 bs"

fun jwk_keys :: "token_lib \<Rightarrow> jwk list \<Rightarrow> (string \<rightharpoonup> rsa_key) \<Rightarrow> (go_error + (string \<rightharpoonup> rsa_key)) option" where
  "jwk_keys lib [] keys = Some (Inr keys)"
| "jwk_keys lib (key # ks) keys =
     (case decode_segment lib (KeyN key) of
        Inl err \<Rightarrow> Some (Inl (errorf ''invalid N value: '' err))
      | Inr nBytes \<Rightarrow>
          (case decode_segment lib (KeyE key) of
             Inl err \<Rightarrow> Some (Inl (errorf ''invalid E value: '' err))
           | Inr [] \<Rightarrow> None
           | Inr (e0 # eBytes) \<Rightarrow>
               jwk_keys lib ks (keys(Kid key \<mapsto> \<lparr>rsa_N = be_value nBytes, rsa_E = uint e0\<rparr>))))"

definition fetchEveJwks :: "token_lib \<Rightarrow> (string \<Rightarrow> 's \<Rightarrow> 's \<times> (go_error + (go_error + string) http_response))
    \<Rightarrow> (string \<Rightarrow> go_error + jwk list) \<Rightarrow> 's \<Rightarrow> 's \<times> (go_error + (string \<rightharpoonup> rsa_key)) option" where
  "fetchEveJwks lib http_Get unmarshal s =
     (case http_Get ''https://login.eveonline.com/oauth/jwks'' s of
        (s1, Inl err) \<Rightarrow> (s1, Some (Inl (errorf ''failed to fetch JWKS: '' err)))
      | (s1, Inr resp) \<Rightarrow>
          (s1, if StatusCode resp \<noteq> status_ok then
                 Some (Inl (ErrText (''failed to fetch JWKS, status: '' @ format_int (StatusCode resp))))
               else case Body resp of
                 Inl err \<Rightarrow> Some (Inl (errorf ''failed to read JWKS response: '' err))
               | Inr body \<Rightarrow>
                   (case unmarshal body of
                      Inl err \<Rightarrow> Some (Inl (errorf ''failed to unmarshal JWKS: '' err))
                    | Inr ks \<Rightarrow> jwk_keys lib ks Map.empty)))"

definition kid_key :: "(string \<rightharpoonup> rsa_key) \<Rightarrow> string option \<Rightarrow> go_error + rsa_key" where
  "kid_key keys kid =
     (case kid of
        None \<Rightarrow> Inl (ErrText ''missing kid in header'')
      | Some k \<Rightarrow> (case keys k of None \<Rightarrow> Inl (ErrText (''unknown key id: '' @ k)) | Some key \<Rightarrow> Inr key))"

definition check_claims :: "time \<Rightarrow> EveClaims \<Rightarrow> (go_error + EveClaims) option" where
  "check_claims now claims =
     (if ClaimIssuer claims \<noteq> ''https://login.eveonline.com'' then Some (Inl (ErrText ''invalid issuer''))
      else if ClaimAudience claims \<noteq> ''YOUR_CLIENT_ID'' then Some (Inl (ErrText ''invalid audience''))
      else case ClaimExpiresAt claims of
             None \<Rightarrow> None
           | Some t \<Rightarrow> Some (if t < now then Inl (ErrText ''token expired'') else Inr claims))"

definition jwks_validateEveToken :: "token_lib \<Rightarrow> (string \<Rightarrow> 's \<Rightarrow> 's \<times> (go_error + (go_error + string) http_response))
    \<Rightarrow> (string \<Rightarrow> go_error + jwk list) \<Rightarrow> time \<Rightarrow> string \<Rightarrow> 's \<Rightarrow> 's \<times> (go_error + EveClaims) option" where
  "jwks_validateEveToken lib http_Get unmarshal now tokenString s =
     (case fetchEveJwks lib http_Get unmarshal s of
        (s1, None) \<Rightarrow> (s1, None)
      | (s1, Some (Inl err)) \<Rightarrow> (s1, Some (Inl err))
      | (s1, Some (Inr keys)) \<Rightarrow>
          (s1, case eve_parse lib (kid_key keys) tokenString of
                 Inl err \<Rightarrow> Some (Inl err)
               | Inr (claims, valid) \<Rightarrow>
                   if \<not> valid then Some (Inl (ErrText ''invalid token'')) else check_claims now claims))"

section \<open>The endpoint\<close>

record AuthPayload =
  PayloadToken :: string
  PayloadKey :: string

text \<open>A public key that X.509 decoding gives is an RSA key or one of another kind.\<close>

datatype public_key = RsaPublic rsa_key | OtherPublic

record key_codecs =
  pem_Decode :: "string \<Rightarrow> string option"
  ParsePKIX :: "string \<Rightarrow> go_error + public_key"

definition validateEveToken :: "token_lib \<Rightarrow> key_codecs \<Rightarrow> string \<Rightarrow> string \<Rightarrow> go_error + EveClaims" where
  "validateEveToken lib codecs tokenString pubKeyPEM =
     (case pem_Decode codecs pubKeyPEM of
        None \<Rightarrow> Inl (ErrText ''invalid public key format'')
      | Some block \<Rightarrow>
          (case ParsePKIX codecs block of
             Inl err \<Rightarrow> Inl (errorf ''failed to parse public key: '' err)
           | Inr OtherPublic \<Rightarrow> Inl (ErrText ''invalid RSA public key'')
           | Inr (RsaPublic rsaPubKey) \<Rightarrow>
               (case eve_parse lib (\<lambda>kid. Inr rsaPubKey) tokenString of
                  Inl err \<Rightarrow> Inl (errorf ''invalid token: '' err)
                | Inr (claims, valid) \<Rightarrow>
                    if \<not> valid then Inl (ErrText ''invalid token: <nil>'') else Inr claims)))"

definition status_unauthorized :: int where "status_unauthorized = 401"
definition status_internal_error :: int where "status_internal_error = 500"

text \<open>\<open>payload\<close> is what decoding the body gives; \<open>encode\<close> is the JSON of the two tokens.\<close>

definition Authenticate :: "token_lib \<Rightarrow> key_codecs \<Rightarrow> time \<Rightarrow> time \<Rightarrow> (string \<Rightarrow> string \<Rightarrow> string)
    \<Rightarrow> go_error + AuthPayload \<Rightarrow> api_response" where
  "Authenticate lib codecs now now2 encode payload =
     (case payload of
        Inl err \<Rightarrow> http_Error ''Invalid request'' status_bad_request
      | Inr p \<Rightarrow>
          (case validateEveToken lib codecs (PayloadToken p) (PayloadKey p) of
             Inl err \<Rightarrow> http_Error (''Unauthorized: '' @ error_text err) status_unauthorized
           | Inr claims \<Rightarrow>
               (case GenerateTokens lib now now2 (CharacterID claims) (CharacterName claims) of
                  Inl err \<Rightarrow> http_Error ''Failed to generate tokens'' status_internal_error
                | Inr (accessToken, refreshToken) \<Rightarrow>
                    \<lparr>ApiStatus = status_ok, ContentType = ''application/json'', ApiBody = encode accessToken refreshToken\<rparr>)))"

section \<open>Which tokens are accepted\<close>

text \<open>The public exponent of a fetched key is the first byte of the encoded exponent: 65537, whose bytes are
  1, 0 and 1, becomes 1.\<close>

theorem jwks_exponent_first_byte:
  assumes "decode_segment lib (KeyN key) = Inr ns" and "decode_segment lib (KeyE key) = Inr (e0 # es)"
  shows "jwk_keys lib [key] Map.empty = Some (Inr [Kid key \<mapsto> \<lparr>rsa_N = be_value ns, rsa_E = uint e0\<rparr>])
    \<and> (e0 # es = [1, 0, 1] \<longrightarrow> uint e0 = 1 \<and> be_value (e0 # es) = 65537)"
  using assms by (auto simp: be_value_def)

text \<open>What the JWT library documents: claims it declares valid carry a signature that is right under the key the
  key function gave.\<close>

definition eve_ok :: "token_lib \<Rightarrow> (rsa_key \<Rightarrow> string \<Rightarrow> EveClaims \<Rightarrow> bool) \<Rightarrow> bool" where
  "eve_ok lib signed_under \<longleftrightarrow>
     (\<forall>kf t claims. eve_parse lib kf t = Inr (claims, True) \<longrightarrow>
        (\<exists>kid k. kf kid = Inr k \<and> signed_under k t claims))"

text \<open>C39: the authentication endpoint trusts the key it is sent. It answers with a pair of tokens exactly when
  the JWT library accepts the token of the request under the RSA key of the same request (signing is assumed not to fail); who
  that key belongs to, and the issuer and the audience of the claims, are not looked at. The tokens are for the character the
  claims name, the access token for 20 minutes, the refresh token for 7 days.\<close>

theorem authenticate_trusts_sent_key:
  assumes lib: "\<forall>k c. \<exists>t. sign_claims lib k c = Inr t"
  shows "ApiStatus (Authenticate lib codecs now now2 encode (Inr p)) = status_ok \<longleftrightarrow>
    (\<exists>block key claims. pem_Decode codecs (PayloadKey p) = Some block \<and> ParsePKIX codecs block = Inr (RsaPublic key)
       \<and> eve_parse lib (\<lambda>kid. Inr key) (PayloadToken p) = Inr (claims, True)
       \<and> (\<exists>a r. sign_claims lib internalSecret
              \<lparr>character_id = CharacterID claims, character_name = Some (CharacterName claims),
               expires = (now + 20 * minute) div second\<rparr> = Inr a
          \<and> sign_claims lib refreshSecret
              \<lparr>character_id = CharacterID claims, character_name = None,
               expires = (now2 + 7 * 24 * 60 * minute) div second\<rparr> = Inr r
          \<and> ApiBody (Authenticate lib codecs now now2 encode (Inr p)) = encode a r))"
proof -
  have gen: "\<exists>a r. GenerateTokens lib now now2 cid name = Inr (a, r)
      \<and> sign_claims lib internalSecret \<lparr>character_id = cid, character_name = Some name, expires = (now + 20 * minute) div second\<rparr> = Inr a
      \<and> sign_claims lib refreshSecret \<lparr>character_id = cid, character_name = None, expires = (now2 + 7 * 24 * 60 * minute) div second\<rparr> = Inr r"
    for cid name
  proof -
    obtain a where a: "sign_claims lib internalSecret
        \<lparr>character_id = cid, character_name = Some name, expires = (now + 20 * minute) div second\<rparr> = Inr a" using lib by blast
    obtain r where r: "sign_claims lib refreshSecret
        \<lparr>character_id = cid, character_name = None, expires = (now2 + 7 * 24 * 60 * minute) div second\<rparr> = Inr r" using lib by blast
    show ?thesis using a r by (simp add: GenerateTokens_def time_add_def unix_seconds_def Let_def)
  qed
  show ?thesis
  proof (cases "validateEveToken lib codecs (PayloadToken p) (PayloadKey p)")
    case (Inl err)
    then show ?thesis
      by (auto simp: Authenticate_def http_Error_def http_statuses status_unauthorized_def validateEveToken_def)
  next
    case (Inr claims)
    then obtain block key where k: "pem_Decode codecs (PayloadKey p) = Some block" "ParsePKIX codecs block = Inr (RsaPublic key)"
      "eve_parse lib (\<lambda>kid. Inr key) (PayloadToken p) = Inr (claims, True)"
      by (auto simp: validateEveToken_def split: option.splits sum.splits public_key.splits prod.splits if_splits)
    then show ?thesis using gen [of "CharacterID claims" "CharacterName claims"] Inr
      by (auto simp: Authenticate_def)
  qed
qed

definition sample_tokens :: token_lib where
  "sample_tokens =
     \<lparr>eve_parse = \<lambda>kf t. (case kf None of Inl e \<Rightarrow> Inl e
        | Inr k \<Rightarrow> if t = format_int (rsa_N k)
            then Inr (\<lparr>CharacterID = ''9'', CharacterName = ''x'', ClaimAudience = [], ClaimIssuer = [], ClaimExpiresAt = None\<rparr>, True)
            else Inl (ErrText ''signature'')),
      sign_claims = \<lambda>k c. Inr (k @ character_id c), decode_segment = \<lambda>s. Inr []\<rparr>"

theorem authenticate_trusts_sent_key_witness:
  "ApiStatus (Authenticate sample_tokens \<lparr>pem_Decode = Some, ParsePKIX = \<lambda>b. Inr (RsaPublic \<lparr>rsa_N = 5, rsa_E = 3\<rparr>)\<rparr> 0 0 (@)
     (Inr \<lparr>PayloadToken = ''5'', PayloadKey = ''mine''\<rparr>)) = 200"
proof -
  let ?codecs = "\<lparr>pem_Decode = Some, ParsePKIX = \<lambda>b. Inr (RsaPublic \<lparr>rsa_N = 5, rsa_E = 3\<rparr>)\<rparr>"
  have sign: "\<forall>k c. \<exists>t. sign_claims sample_tokens k c = Inr t" by (simp add: sample_tokens_def)
  have "format_int 5 = ''5''" by code_simp
  then have "eve_parse sample_tokens (\<lambda>kid. Inr \<lparr>rsa_N = 5, rsa_E = 3\<rparr>) ''5''
      = Inr (\<lparr>CharacterID = ''9'', CharacterName = ''x'', ClaimAudience = [], ClaimIssuer = [], ClaimExpiresAt = None\<rparr>, True)"
    by (simp add: sample_tokens_def)
  with authenticate_trusts_sent_key [OF sign, of ?codecs 0 0 "(@)" "\<lparr>PayloadToken = ''5'', PayloadKey = ''mine''\<rparr>"]
  show ?thesis
    by (simp add: Authenticate_def validateEveToken_def GenerateTokens_def status_ok_def sample_tokens_def)
qed

end
