(* ===== verification/Legacy_Api.thy ===== *)
theory Legacy_Api
  imports Legacy_Worker Legacy_Tokens "HOL-Library.Multiset"
begin

text \<open>
  The API server of the earlier version of the program: the requests of
  \<open>legacy/apiServer/util/util.go\<close>, the endpoints \<open>endpoints/marketPrices.go\<close> and
  \<open>endpoints/systemIndexes.go\<close>, the middleware \<open>middleware/logging.go\<close> and \<open>ratelimiter.go\<close>, and the routes of
  \<open>api.go\<close>.

  The goroutines of the market-price endpoint are a step relation on its channels
  (\<open>price_step\<close>). JSON encoding and \<open>strconv.ParseFloat\<close> are arguments.
\<close>

section \<open>The identifiers of a request\<close>

definition maxIDs :: nat where "maxIDs = 500"

fun dedupe_loop :: "string list \<Rightarrow> string set \<Rightarrow> string list \<Rightarrow> string list" where
  "dedupe_loop [] seen result = result"
| "dedupe_loop (str # strs) seen result =
     (if str \<notin> seen then dedupe_loop strs (insert str seen) (result @ [str]) else dedupe_loop strs seen result)"

definition removeDuplicateIDS :: "string list \<Rightarrow> string list" where
  "removeDuplicateIDS strs = dedupe_loop strs {} []"

definition extractIDsFromGet :: "api_request \<Rightarrow> string + string list" where
  "extractIDsFromGet req =
     (let ids = QueryIds req
      in if length ids = 0 then Inl ''missing ID parameter''
         else if length ids > 500 then Inl ''too many IDs (max 500)''
         else if \<not> list_all validIDPattern ids then Inl ''invalid ID format''
         else Inr (removeDuplicateIDS ids))"

definition extractIDsFromPost :: "api_request \<Rightarrow> string + string list" where
  "extractIDsFromPost req =
     (case BodyIds req of
        Inl err \<Rightarrow> Inl ''invalid request body''
      | Inr ids \<Rightarrow>
          if length ids = 0 then Inl ''missing ID parameter''
          else if length ids > maxIDs then Inl ''too many IDs (max 500)''
          else if \<not> list_all validIDPattern ids then Inl ''invalid ID format''
          else Inr ids)"

definition ExtractIDs :: "api_request \<Rightarrow> string + string list" where
  "ExtractIDs req =
     (if ApiMethod req = ''GET'' then extractIDsFromGet req
      else if ApiMethod req = ''POST'' then extractIDsFromPost req
      else Inl ''method not allowed'')"

text \<open>The status and the headers are sent before the body is encoded; \<open>gzip_json\<close> is the compressed JSON. When
  encoding fails, the text of the error is the body, uncompressed, and the deferred \<open>gz.Close\<close> adds the
  compressed stream of nothing (\<open>gzip_empty\<close>: the header, one empty last block, checksum and length 0).\<close>

definition gzip_empty :: string where
  "gzip_empty = [CHR 0x1F, CHR 0x8B, CHR 0x08] @ replicate 6 (CHR 0x00) @ [CHR 0xFF]
     @ [CHR 0x01, CHR 0x00, CHR 0x00, CHR 0xFF, CHR 0xFF] @ replicate 8 (CHR 0x00)"

definition JsonResponse :: "('d \<Rightarrow> go_error + string) \<Rightarrow> 'd \<Rightarrow> api_response" where
  "JsonResponse gzip_json dat =
     \<lparr>ApiStatus = status_ok, ContentType = ''application/json'',
      ApiBody = (case gzip_json dat of
                   Inr body \<Rightarrow> body
                 | Inl err \<Rightarrow> ''Error encoding response: '' @ error_text err @ [CHR 0x0A] @ gzip_empty)\<rparr>"

section \<open>Market prices\<close>

record LocationData =
  Locations :: "string \<rightharpoonup> DBMarketPriceEntry"
  DataUpdated :: float64
  DataTypeID :: int
  DataAdjusted :: float64
  DataAverage :: float64

text \<open>\<open>strconv.ParseInt(id, 10, 64)\<close> with its error dropped: out of range it gives the nearest value.\<close>

definition parse_int_lax :: "string \<Rightarrow> int" where
  "parse_int_lax s =
     (case parse_int 64 s of
        Some v \<Rightarrow> v
      | None \<Rightarrow>
          (let neg = (take 1 s = ''-''); body = (if take 1 s \<in> {''-'', ''+''} then drop 1 s else s)
           in if parse_nat body = None then 0 else if neg then - (2 ^ 63) else 2 ^ 63 - 1))"

text \<open>\<open>PopulateStruct\<close> into a zero value of \<open>DBMarketPriceEntry\<close> and of \<open>AdjustedPrice\<close>.\<close>

definition read_entry :: "(string \<Rightarrow> float64 option) \<Rightarrow> (string \<rightharpoonup> string) \<Rightarrow> DBMarketPriceEntry" where
  "read_entry parse_float dat =
     (case PopulateStruct parse_float dat (price_struct \<lparr>EntryTypeID = 0, Buy = 0, Sell = 0\<rparr>) of
        [(_, FInt t), (_, FFloat b), (_, FFloat s)] \<Rightarrow> \<lparr>EntryTypeID = t, Buy = b, Sell = s\<rparr>
      | _ \<Rightarrow> \<lparr>EntryTypeID = 0, Buy = 0, Sell = 0\<rparr>)"

definition read_adjusted :: "(string \<Rightarrow> float64 option) \<Rightarrow> (string \<rightharpoonup> string) \<Rightarrow> float64 \<times> float64" where
  "read_adjusted parse_float dat =
     (case PopulateStruct parse_float dat (adjusted_struct \<lparr>LegacyAdjusted = 0, LegacyAverage = 0, LegacyTypeID = 0\<rparr>) of
        [(_, FFloat adj), (_, FFloat avg), _] \<Rightarrow> (avg, adj)
      | _ \<Rightarrow> (0, 0))"

definition fetchAdjustedPrices :: "'r legacy_redis \<Rightarrow> (string \<Rightarrow> float64 option) \<Rightarrow> string \<Rightarrow> 'r \<Rightarrow> 'r \<times> float64 \<times> float64" where
  "fetchAdjustedPrices lib parse_float iD r =
     (case GetRedisMap lib (iD @ ''-adjustedPrice'') r of
        (r1, Inl err) \<Rightarrow> (r1, 0, 0)
      | (r1, Inr dat) \<Rightarrow> (r1, read_adjusted parse_float dat))"

fun read_locations :: "'r legacy_redis \<Rightarrow> (string \<Rightarrow> float64 option) \<Rightarrow> string \<Rightarrow> MarketLocation list
    \<Rightarrow> (string \<rightharpoonup> DBMarketPriceEntry) \<Rightarrow> 'r \<Rightarrow> 'r \<times> (string \<rightharpoonup> DBMarketPriceEntry)" where
  "read_locations lib parse_float iD [] m r = (r, m)"
| "read_locations lib parse_float iD (loc # locs) m r =
     (case GetRedisMap lib (iD @ ''-marketPrices-'' @ format_int (LocID loc)) r of
        (r1, Inl err) \<Rightarrow> read_locations lib parse_float iD locs m r1
      | (r1, Inr dat) \<Rightarrow>
          read_locations lib parse_float iD locs (m(format_int (LocID loc) \<mapsto> read_entry parse_float dat)) r1)"

definition fetchFromRedis :: "'r legacy_redis \<Rightarrow> (string \<Rightarrow> float64 option) \<Rightarrow> string \<Rightarrow> 'r
    \<Rightarrow> 'r \<times> (go_error + LocationData)" where
  "fetchFromRedis lib parse_float iD r =
     (case GetScoreFromSortedSet lib ''marketPrices_lastRefresh'' iD r of
        (r1, Inl err) \<Rightarrow> (r1, Inl (errorf (''no data found for ID: '' @ iD @ ''. '') err))
      | (r1, Inr lastUpdated) \<Rightarrow>
          (case fetchAdjustedPrices lib parse_float iD r1 of
             (r2, averagePrice, adjustedPrice) \<Rightarrow>
               (case read_locations lib parse_float iD DEFAULT_MARKET_LOCATIONS Map.empty r2 of
                  (r3, locs) \<Rightarrow>
                    (r3, Inr \<lparr>Locations = locs, DataUpdated = lastUpdated, DataTypeID = parse_int_lax iD,
                              DataAdjusted = adjustedPrice, DataAverage = averagePrice\<rparr>))))"

definition fetchMissingData :: "('s, 'r) worker_libs \<Rightarrow> (string \<Rightarrow> float64 option) \<Rightarrow> time \<Rightarrow> (int \<Rightarrow> time) \<Rightarrow> string
    \<Rightarrow> ('s, 'r) world \<Rightarrow> (('s, 'r) world \<times> LocationData) option" where
  "fetchMissingData libs parse_float now clock iD w =
     (case fetchAdjustedPrices (Redis_lib libs) parse_float iD (Store w) of
        (r1, averagePrice, adjustedPrice) \<Rightarrow>
          (case FetchMarketPrices libs clock (parse_int_lax iD) (w\<lparr>Store := r1\<rparr>) of
             None \<Rightarrow> None
           | Some (w1, dat) \<Rightarrow>
               Some (w1, \<lparr>Locations = dat, DataUpdated = f64_of_int (unix_milli now), DataTypeID = parse_int_lax iD,
                          DataAdjusted = adjustedPrice, DataAverage = averagePrice\<rparr>)))"

datatype json_value = JFloat float64 | JInt int | JEntry DBMarketPriceEntry

definition location_fields :: "LocationData \<Rightarrow> string \<rightharpoonup> json_value" where
  "location_fields ld =
     [''last_refreshed'' \<mapsto> JFloat (DataUpdated ld), ''typeID'' \<mapsto> JInt (DataTypeID ld),
      ''adjustedPrices'' \<mapsto> JFloat (DataAdjusted ld), ''averagePrices'' \<mapsto> JFloat (DataAverage ld)]
     ++ (\<lambda>locID. map_option JEntry (Locations ld locID))"

definition MarshalJSON :: "((string \<rightharpoonup> json_value) \<Rightarrow> go_error + string) \<Rightarrow> LocationData \<Rightarrow> go_error + string" where
  "MarshalJSON encode ld = encode (location_fields ld)"


section \<open>The goroutines of the market-price endpoint\<close>

text \<open>\<open>Waiting\<close> are the identifiers for which no goroutine has been started, \<open>Running\<close> those whose goroutine holds
  the semaphore; \<open>Fetching\<close> is the one \<open>missingDataHandler\<close> works on. The three channels have room for all
  identifiers. \<open>Rounds\<close> are the rounds \<open>collectResults\<close> has left. A receive from the closed final channel takes a
  round as well; the channel of results from Redis is never closed.\<close>

definition maxWorkers :: nat where "maxWorkers = 5"

record ('s, 'r) price_run =
  Waiting :: "string list"
  Running :: "string list"
  DbChan :: "LocationData list"
  MissingChan :: "string list"
  MissingClosed :: bool
  Fetching :: "string option"
  FinalChan :: "LocationData list"
  FinalClosed :: bool
  Rounds :: nat
  Results :: "LocationData list"
  RunWorld :: "('s, 'r) world"

definition price_start :: "string list \<Rightarrow> ('s, 'r) world \<Rightarrow> ('s, 'r) price_run" where
  "price_start ids w =
     \<lparr>Waiting = ids, Running = [], DbChan = [], MissingChan = [], MissingClosed = False, Fetching = None,
      FinalChan = [], FinalClosed = False, Rounds = length ids, Results = [], RunWorld = w\<rparr>"

text \<open>\<open>redisDataHandler_MarketPrices\<close>: its loop and the goroutines it starts.\<close>

inductive lookup_step :: "('s, 'r) worker_libs \<Rightarrow> (string \<Rightarrow> float64 option) \<Rightarrow> ('s, 'r) price_run \<Rightarrow> ('s, 'r) price_run \<Rightarrow> bool"
  for libs parse_float where
  start_lookup: "Waiting st = iD # ids \<Longrightarrow> length (Running st) < maxWorkers \<Longrightarrow>
    lookup_step libs parse_float st (st\<lparr>Waiting := ids, Running := Running st @ [iD]\<rparr>)"
| found: "iD \<in> set (Running st) \<Longrightarrow>
    fetchFromRedis (Redis_lib libs) parse_float iD (Store (RunWorld st)) = (r, Inr dat) \<Longrightarrow>
    lookup_step libs parse_float st
      (st\<lparr>Running := remove1 iD (Running st), DbChan := DbChan st @ [dat], RunWorld := (RunWorld st)\<lparr>Store := r\<rparr>\<rparr>)"
| missing: "iD \<in> set (Running st) \<Longrightarrow>
    fetchFromRedis (Redis_lib libs) parse_float iD (Store (RunWorld st)) = (r, Inl err) \<Longrightarrow>
    lookup_step libs parse_float st
      (st\<lparr>Running := remove1 iD (Running st), MissingChan := MissingChan st @ [iD], RunWorld := (RunWorld st)\<lparr>Store := r\<rparr>\<rparr>)"
| close_missing: "Waiting st = [] \<Longrightarrow> Running st = [] \<Longrightarrow> \<not> MissingClosed st \<Longrightarrow>
    lookup_step libs parse_float st (st\<lparr>MissingClosed := True\<rparr>)"

text \<open>\<open>missingDataHandler\<close>.\<close>

inductive missing_step :: "('s, 'r) worker_libs \<Rightarrow> (string \<Rightarrow> float64 option) \<Rightarrow> ('s, 'r) price_run \<Rightarrow> ('s, 'r) price_run \<Rightarrow> bool"
  for libs parse_float where
  take_missing: "Fetching st = None \<Longrightarrow> MissingChan st = iD # ids \<Longrightarrow>
    missing_step libs parse_float st (st\<lparr>Fetching := Some iD, MissingChan := ids\<rparr>)"
| fetched: "Fetching st = Some iD \<Longrightarrow> fetchMissingData libs parse_float now clock iD (RunWorld st) = Some (w, dat) \<Longrightarrow>
    missing_step libs parse_float st (st\<lparr>Fetching := None, FinalChan := FinalChan st @ [dat], RunWorld := w\<rparr>)"
| close_final: "Fetching st = None \<Longrightarrow> MissingChan st = [] \<Longrightarrow> MissingClosed st \<Longrightarrow> \<not> FinalClosed st \<Longrightarrow>
    missing_step libs parse_float st (st\<lparr>FinalClosed := True\<rparr>)"

text \<open>One round of \<open>collectResults\<close>; its \<open>select\<close> may take any channel that is ready.\<close>

inductive collect_step :: "('s, 'r) price_run \<Rightarrow> ('s, 'r) price_run \<Rightarrow> bool" where
  collect_db: "Rounds st = Suc n \<Longrightarrow> DbChan st = dat # dats \<Longrightarrow>
    collect_step st (st\<lparr>Rounds := n, DbChan := dats, Results := Results st @ [dat]\<rparr>)"
| collect_final: "Rounds st = Suc n \<Longrightarrow> FinalChan st = dat # dats \<Longrightarrow>
    collect_step st (st\<lparr>Rounds := n, FinalChan := dats, Results := Results st @ [dat]\<rparr>)"
| collect_closed: "Rounds st = Suc n \<Longrightarrow> FinalChan st = [] \<Longrightarrow> FinalClosed st \<Longrightarrow>
    collect_step st (st\<lparr>Rounds := n\<rparr>)"

inductive price_step :: "('s, 'r) worker_libs \<Rightarrow> (string \<Rightarrow> float64 option) \<Rightarrow> ('s, 'r) price_run \<Rightarrow> ('s, 'r) price_run \<Rightarrow> bool"
  for libs parse_float where
  by_lookup: "lookup_step libs parse_float st st1 \<Longrightarrow> price_step libs parse_float st st1"
| by_missing: "missing_step libs parse_float st st1 \<Longrightarrow> price_step libs parse_float st st1"
| by_collect: "collect_step st st1 \<Longrightarrow> price_step libs parse_float st st1"

lemmas price_start_lookup = lookup_step.start_lookup [THEN price_step.by_lookup]
lemmas price_found = lookup_step.found [THEN price_step.by_lookup]
lemmas price_missing = lookup_step.missing [THEN price_step.by_lookup]
lemmas price_close_missing = lookup_step.close_missing [THEN price_step.by_lookup]
lemmas price_take_missing = missing_step.take_missing [THEN price_step.by_missing]
lemmas price_fetched = missing_step.fetched [THEN price_step.by_missing]
lemmas price_close_final = missing_step.close_final [THEN price_step.by_missing]
lemmas price_collect_db = collect_step.collect_db [THEN price_step.by_collect]
lemmas price_collect_final = collect_step.collect_final [THEN price_step.by_collect]
lemmas price_collect_closed = collect_step.collect_closed [THEN price_step.by_collect]

text \<open>The handler: the response to a request, and what it may be when the goroutines are done.\<close>

inductive MarketPricesHandler :: "('s, 'r) worker_libs \<Rightarrow> (string \<Rightarrow> float64 option) \<Rightarrow> (LocationData list \<Rightarrow> go_error + string)
    \<Rightarrow> api_request \<Rightarrow> ('s, 'r) world \<Rightarrow> api_response \<Rightarrow> bool"
  for libs parse_float gzip_json where
  refused: "ExtractIDs req = Inl err \<Longrightarrow>
    MarketPricesHandler libs parse_float gzip_json req w (http_Error err status_bad_request)"
| answered: "ExtractIDs req = Inr ids \<Longrightarrow> (price_step libs parse_float)\<^sup>*\<^sup>* (price_start ids w) st \<Longrightarrow> Rounds st = 0 \<Longrightarrow>
    MarketPricesHandler libs parse_float gzip_json req w (JsonResponse gzip_json (Results st))"

section \<open>What a run of the goroutines collects\<close>

text \<open>The type IDs that are on their way, and those of the data.\<close>

definition pending_ids :: "('s, 'r) price_run \<Rightarrow> string list" where
  "pending_ids st = Waiting st @ Running st @ MissingChan st @ (case Fetching st of None \<Rightarrow> [] | Some i \<Rightarrow> [i])"

definition run_ids :: "('s, 'r) price_run \<Rightarrow> int multiset" where
  "run_ids st = mset (map parse_int_lax (pending_ids st)) + mset (map DataTypeID (DbChan st @ FinalChan st @ Results st))"

definition run_inv :: "string list \<Rightarrow> ('s, 'r) price_run \<Rightarrow> bool" where
  "run_inv ids st \<longleftrightarrow> run_ids st = mset (map parse_int_lax ids) \<and> length (Results st) + Rounds st \<le> length ids
     \<and> length (Running st) \<le> maxWorkers \<and> (FinalClosed st \<longrightarrow> MissingClosed st \<and> MissingChan st = [] \<and> Fetching st = None)
     \<and> (MissingClosed st \<longrightarrow> Waiting st = [] \<and> Running st = [])"

lemma fetchFromRedis_id: "fetchFromRedis lib pf iD r = (r1, Inr dat) \<Longrightarrow> DataTypeID dat = parse_int_lax iD"
  by (auto simp: fetchFromRedis_def split: prod.splits sum.splits)

lemma fetchMissingData_id: "fetchMissingData libs pf now clock iD w = Some (w1, dat) \<Longrightarrow> DataTypeID dat = parse_int_lax iD"
  by (auto simp: fetchMissingData_def split: prod.splits option.splits)

lemma mset_remove1_map: "x \<in> set xs \<Longrightarrow> mset (map f xs) = add_mset (f x) (mset (map f (remove1 x xs)))"
  by (induction xs) auto

lemmas run_defs = run_inv_def run_ids_def pending_ids_def

lemma lookup_step_inv: "lookup_step libs pf st st1 \<Longrightarrow> run_inv ids st \<Longrightarrow> run_inv ids st1"
proof (induction rule: lookup_step.induct)
  case (start_lookup st iD rest)
  then show ?case by (auto simp: run_defs)
next
  case (found iD st r dat)
  then show ?case using fetchFromRedis_id [OF found(2)] mset_remove1_map [OF found(1), of parse_int_lax]
    by (auto simp: run_defs length_remove1)
next
  case (missing iD st r err)
  then show ?case using mset_remove1_map [OF missing(1), of parse_int_lax]
    by (auto simp: run_defs length_remove1)
next
  case (close_missing st)
  then show ?case by (simp add: run_defs)
qed

lemma missing_step_inv: "missing_step libs pf st st1 \<Longrightarrow> run_inv ids st \<Longrightarrow> run_inv ids st1"
proof (induction rule: missing_step.induct)
  case (take_missing st iD rest)
  then show ?case by (auto simp: run_defs)
next
  case (fetched st iD now clock w dat)
  then show ?case using fetchMissingData_id [OF fetched(2)] by (auto simp: run_defs)
next
  case (close_final st)
  then show ?case by (auto simp: run_defs)
qed

lemma collect_step_inv: "collect_step st st1 \<Longrightarrow> run_inv ids st \<Longrightarrow> run_inv ids st1"
proof (induction rule: collect_step.induct)
  case (collect_db st n dat dats)
  then show ?case by (simp add: run_defs)
next
  case (collect_final st n dat dats)
  then show ?case by (simp add: run_defs)
next
  case (collect_closed st n)
  then show ?case by (auto simp: run_defs)
qed

lemma price_step_inv: "price_step libs pf st st1 \<Longrightarrow> run_inv ids st \<Longrightarrow> run_inv ids st1"
  by (cases rule: price_step.cases) (auto intro: lookup_step_inv missing_step_inv collect_step_inv)

lemma price_run_inv: "(price_step libs pf)\<^sup>*\<^sup>* (price_start ids w) st \<Longrightarrow> run_inv ids st"
proof (induction rule: rtranclp_induct)
  case base
  then show ?case by (simp add: run_inv_def run_ids_def pending_ids_def price_start_def)
next
  case (step st st1)
  show ?case by (rule price_step_inv [OF step(2,3)])
qed


text \<open>Every step lowers this measure.\<close>

definition run_measure :: "('s, 'r) price_run \<Rightarrow> nat" where
  "run_measure st = 5 * length (Waiting st) + 4 * length (Running st) + 3 * length (MissingChan st)
     + (if Fetching st = None then 0 else 1) + (if MissingClosed st then 0 else 1) + (if FinalClosed st then 0 else 1)
     + Rounds st"

lemma lookup_step_measure: "lookup_step libs pf st st1 \<Longrightarrow> run_measure st1 < run_measure st"
proof (induction rule: lookup_step.induct)
  case (found iD st r dat)
  then have "length (Running st) = Suc (length (remove1 iD (Running st)))"
    by (metis One_nat_def Suc_pred length_pos_if_in_set length_remove1)
  then show ?case by (simp add: run_measure_def)
next
  case (missing iD st r err)
  then have "length (Running st) = Suc (length (remove1 iD (Running st)))"
    by (metis One_nat_def Suc_pred length_pos_if_in_set length_remove1)
  then show ?case by (simp add: run_measure_def)
qed (simp_all add: run_measure_def)

lemma missing_step_measure: "missing_step libs pf st st1 \<Longrightarrow> run_measure st1 < run_measure st"
  by (induction rule: missing_step.induct) (simp_all add: run_measure_def)

lemma collect_step_measure: "collect_step st st1 \<Longrightarrow> run_measure st1 < run_measure st"
  by (induction rule: collect_step.induct) (simp_all add: run_measure_def)

lemma price_step_measure: "price_step libs pf st st1 \<Longrightarrow> run_measure st1 < run_measure st"
  by (cases rule: price_step.cases) (auto intro: lookup_step_measure missing_step_measure collect_step_measure)

lemma price_progress:
  assumes inv: "run_inv ids st" and rounds: "Rounds st \<noteq> 0"
    and ret: "\<forall>iD w. \<exists>now clock w1 dat. fetchMissingData libs pf now clock iD w = Some (w1, dat)"
  shows "\<exists>st1. price_step libs pf st st1"
proof -
  obtain n where n: "Rounds st = Suc n" using rounds by (cases "Rounds st") auto
  consider i where "i \<in> set (Running st)" | i iDs where "Running st = []" "Waiting st = i # iDs"
    | "Running st = []" "Waiting st = []" by (cases "Running st"; cases "Waiting st") auto
  then show ?thesis
  proof cases
    case (1 i)
    obtain r res where f: "fetchFromRedis (Redis_lib libs) pf i (Store (RunWorld st)) = (r, res)" by fastforce
    show ?thesis
    proof (cases res)
      case (Inl err)
      then show ?thesis using price_missing [OF 1 f [unfolded Inl]] by blast
    next
      case (Inr dat)
      then show ?thesis using price_found [OF 1 f [unfolded Inr]] by blast
    qed
  next
    case (2 i iDs)
    then show ?thesis using price_start_lookup [OF 2(2)] by (auto simp: maxWorkers_def)
  next
    case 3
    show ?thesis
    proof (cases "MissingClosed st")
      case False
      then show ?thesis using price_close_missing [OF 3(2,1)] by blast
    next
      case closed: True
      show ?thesis
      proof (cases "Fetching st")
        case (Some i)
        then show ?thesis using ret price_fetched [OF Some] by blast
      next
        case none: None
        show ?thesis
        proof (cases "MissingChan st")
          case (Cons i iDs)
          then show ?thesis using price_take_missing [OF none] by blast
        next
          case Nil
          then show ?thesis
            using price_close_final [OF none Nil closed] price_collect_closed [OF n]
              price_collect_final [OF n] by (cases "FinalClosed st"; cases "FinalChan st") blast+
        qed
      qed
    qed
  qed
qed


section \<open>Data that is lost\<close>

lemma lookups_all_found:
  assumes found: "\<forall>i\<in>set ids. \<forall>r. \<exists>r1 dat. fetchFromRedis (Redis_lib libs) pf i r = (r1, Inr dat)"
  shows "Waiting st = ids \<Longrightarrow> Running st = [] \<Longrightarrow>
    \<exists>dats w. (price_step libs pf)\<^sup>*\<^sup>* st (st\<lparr>Waiting := [], DbChan := DbChan st @ dats, RunWorld := w\<rparr>)"
  using found
proof (induction ids arbitrary: st)
  case Nil
  then have "st\<lparr>Waiting := [], DbChan := DbChan st @ [], RunWorld := RunWorld st\<rparr> = st" by simp
  then show ?case by (metis rtranclp.rtrancl_refl)
next
  case (Cons i ids)
  let ?s1 = "st\<lparr>Waiting := ids, Running := Running st @ [i]\<rparr>"
  have s1: "price_step libs pf st ?s1"
    using price_start_lookup [OF Cons.prems(1)] Cons.prems(2) by (simp add: maxWorkers_def)
  obtain r dat where f: "fetchFromRedis (Redis_lib libs) pf i (Store (RunWorld st)) = (r, Inr dat)"
    using Cons.prems(3) by (meson list.set_intros(1))
  let ?s2 = "st\<lparr>Waiting := ids, Running := [], DbChan := DbChan st @ [dat], RunWorld := (RunWorld st)\<lparr>Store := r\<rparr>\<rparr>"
  have "price_step libs pf ?s1 (?s1\<lparr>Running := remove1 i (Running ?s1), DbChan := DbChan ?s1 @ [dat],
      RunWorld := (RunWorld ?s1)\<lparr>Store := r\<rparr>\<rparr>)"
    by (rule price_found) (use f in simp_all)
  then have s2: "price_step libs pf ?s1 ?s2" using Cons.prems(2) by simp
  obtain dats w where rest: "(price_step libs pf)\<^sup>*\<^sup>* ?s2 (?s2\<lparr>Waiting := [], DbChan := DbChan ?s2 @ dats, RunWorld := w\<rparr>)"
    using Cons.IH [of ?s2] Cons.prems(2,3) by auto
  have "(price_step libs pf)\<^sup>*\<^sup>* st (st\<lparr>Waiting := [], DbChan := DbChan st @ (dat # dats), RunWorld := w\<rparr>)"
  proof -
    have same: "?s2\<lparr>Waiting := [], DbChan := DbChan ?s2 @ dats, RunWorld := w\<rparr>
        = st\<lparr>Waiting := [], DbChan := DbChan st @ (dat # dats), RunWorld := w\<rparr>"
      using Cons.prems(2) by (cases st) simp
    show ?thesis using rest s1 s2 unfolding same by (meson converse_rtranclp_into_rtranclp)
  qed
  then show ?case by blast
qed

lemma closed_rounds:
  "FinalClosed st \<Longrightarrow> FinalChan st = [] \<Longrightarrow> (price_step libs pf)\<^sup>*\<^sup>* st (st\<lparr>Rounds := 0\<rparr>)"
proof (induction "Rounds st" arbitrary: st)
  case 0
  then have "st\<lparr>Rounds := 0\<rparr> = st" by simp
  then show ?case by simp
next
  case (Suc n)
  then have "price_step libs pf st (st\<lparr>Rounds := n\<rparr>)" by (intro price_collect_closed) auto
  moreover have "(price_step libs pf)\<^sup>*\<^sup>* (st\<lparr>Rounds := n\<rparr>) (st\<lparr>Rounds := n\<rparr>\<lparr>Rounds := 0\<rparr>)"
    using Suc.prems by (intro Suc.hyps(1)) auto
  ultimately show ?case by (simp add: converse_rtranclp_into_rtranclp)
qed

text \<open>C37: the endpoint may drop what Redis has. When the data of all requested types are in Redis, the channel of missing
  data is closed while they wait in theirs; the collector may take the closed channel in every round, and then the
  response to the request is the JSON of no data at all.\<close>

theorem found_prices_may_be_lost:
  assumes ids: "ExtractIDs req = Inr ids"
    and found: "\<forall>i\<in>set ids. \<forall>r. \<exists>r1 dat. fetchFromRedis (Redis_lib libs) pf i r = (r1, Inr dat)"
  shows "MarketPricesHandler libs pf gzip_json req w (JsonResponse gzip_json [])"
proof -
  let ?st = "price_start ids w"
  obtain dats w1 where l: "(price_step libs pf)\<^sup>*\<^sup>* ?st (?st\<lparr>Waiting := [], DbChan := DbChan ?st @ dats, RunWorld := w1\<rparr>)"
    using lookups_all_found [OF found, where st = ?st] by (auto simp: price_start_def)
  let ?s1 = "?st\<lparr>Waiting := [], DbChan := DbChan ?st @ dats, RunWorld := w1\<rparr>"
  let ?s2 = "?s1\<lparr>MissingClosed := True\<rparr>"
  let ?s3 = "?s2\<lparr>FinalClosed := True\<rparr>"
  have "price_step libs pf ?s1 ?s2" by (rule price_close_missing) (simp_all add: price_start_def)
  moreover have "price_step libs pf ?s2 ?s3" by (rule price_close_final) (simp_all add: price_start_def)
  moreover have "(price_step libs pf)\<^sup>*\<^sup>* ?s3 (?s3\<lparr>Rounds := 0\<rparr>)"
    by (rule closed_rounds) (simp_all add: price_start_def)
  ultimately have "(price_step libs pf)\<^sup>*\<^sup>* ?st (?s3\<lparr>Rounds := 0\<rparr>)"
    using l by (meson converse_rtranclp_into_rtranclp rtranclp_trans)
  from MarketPricesHandler.answered [OF ids this, of gzip_json] show ?thesis by (simp add: price_start_def)
qed


definition scored_libs :: "(int, memory_state) worker_libs" where
  "scored_libs = sample_libs\<lparr>Redis_lib := (Redis_lib sample_libs)\<lparr>lr_ZScore := \<lambda>k m r. (r, Inr 0)\<rparr>\<rparr>"


theorem found_prices_may_be_lost_witness:
  "MarketPricesHandler scored_libs sample_float (\<lambda>l. Inr (replicate (length l) (CHR ''x'')))
     \<lparr>ApiMethod = ''GET'', QueryIds = [''34''], BodyIds = Inr []\<rparr> \<lparr>Web = 0, Store = empty_memory\<rparr>
     \<lparr>ApiStatus = 200, ContentType = ''application/json'', ApiBody = []\<rparr>"
proof -
  let ?req = "\<lparr>ApiMethod = ''GET'', QueryIds = [''34''], BodyIds = Inr []\<rparr>"
  have ids: "ExtractIDs ?req = Inr [''34'']"
    by (simp add: ExtractIDs_def extractIDsFromGet_def validIDPattern_def is_digit_def removeDuplicateIDS_def)
  have found: "\<forall>i\<in>set [''34'']. \<forall>r. \<exists>r1 dat. fetchFromRedis (Redis_lib scored_libs) sample_float i r = (r1, Inr dat)"
    by (simp add: fetchFromRedis_def GetScoreFromSortedSet_def scored_libs_def split: prod.splits)
  show ?thesis
    using found_prices_may_be_lost [OF ids found, of "\<lambda>l. Inr (replicate (length l) (CHR ''x''))"]
    by (simp add: JsonResponse_def status_ok_def)
qed

section \<open>System indexes\<close>

definition system_key :: "string \<Rightarrow> string" where
  "system_key iD = ''solar_system:'' @ iD"

text \<open>The error of the lookup is printed and dropped: a system that is not in Redis gives no bytes.\<close>

definition fetchSystemIndexFromRedis :: "'r legacy_redis \<Rightarrow> string \<Rightarrow> 'r \<Rightarrow> 'r \<times> string" where
  "fetchSystemIndexFromRedis lib iD r =
     (case GetValue lib (system_key iD) r of (r1, Inl err) \<Rightarrow> (r1, []) | (r1, Inr v) \<Rightarrow> (r1, v))"

fun lookup_indexes :: "'r legacy_redis \<Rightarrow> string list \<Rightarrow> 'r \<Rightarrow> 'r \<times> string list" where
  "lookup_indexes lib [] r = (r, [])"
| "lookup_indexes lib (iD # ids) r =
     (case fetchSystemIndexFromRedis lib iD r of (r1, raw) \<Rightarrow>
       (case lookup_indexes lib ids r1 of (r2, raws) \<Rightarrow> (r2, raw # raws)))"

text \<open>\<open>channel\<close> is what is sent until it is closed; a round on a closed and empty channel adds nothing.\<close>

fun collectRawJSONResults :: "string list \<Rightarrow> nat \<Rightarrow> string list" where
  "collectRawJSONResults channel 0 = []"
| "collectRawJSONResults [] (Suc rounds) = collectRawJSONResults [] rounds"
| "collectRawJSONResults (rawJSON # channel) (Suc rounds) = rawJSON # collectRawJSONResults channel rounds"

lemma collect_all: "length channel \<le> rounds \<Longrightarrow> collectRawJSONResults channel rounds = channel"
proof (induction channel arbitrary: rounds)
  case Nil
  show ?case by (induction rounds) simp_all
next
  case (Cons x xs)
  then show ?case by (cases rounds) simp_all
qed

lemma lookup_indexes_length: "length (snd (lookup_indexes lib ids r)) = length ids"
  by (induction ids arbitrary: r) (simp_all add: split: prod.split, metis snd_conv)

text \<open>The goroutines end in some order, a permutation of the identifiers.\<close>

definition legacy_SystemIndexesHandler :: "'r legacy_redis \<Rightarrow> (string list \<Rightarrow> go_error + string) \<Rightarrow> (string list \<Rightarrow> string list)
    \<Rightarrow> api_request \<Rightarrow> 'r \<Rightarrow> 'r \<times> api_response" where
  "legacy_SystemIndexesHandler lib gzip_json order req r =
     (case ExtractIDs req of
        Inl err \<Rightarrow> (r, http_Error err status_bad_request)
      | Inr ids \<Rightarrow>
          (case lookup_indexes lib (order ids) r of (r1, resultsChan) \<Rightarrow>
            (r1, JsonResponse gzip_json (collectRawJSONResults resultsChan (length ids)))))"

section \<open>Middleware and routes\<close>

text \<open>The body of a request is absent, has bytes, or breaks off while it is read.\<close>

datatype request_body = NoBody | Bytes string | Broken

record legacy_request =
  LrMethod :: string
  LrIds :: "string list"
  LrBody :: request_body
  LrTrace :: string

record request_context =
  TraceID :: string
  CtxMethod :: string
  RequestIds :: "string list"
  StartTime :: time

text \<open>A body that cannot be read is left consumed.\<close>

definition captureRequestBody :: "(string \<Rightarrow> go_error + string list) \<Rightarrow> legacy_request \<Rightarrow> legacy_request \<times> string list" where
  "captureRequestBody unmarshal r =
     (case LrBody r of
        NoBody \<Rightarrow> (r, [])
      | Broken \<Rightarrow> (r, [])
      | Bytes body \<Rightarrow> (r\<lparr>LrBody := Bytes body\<rparr>, case unmarshal body of Inl err \<Rightarrow> [] | Inr ids \<Rightarrow> ids))"

definition captureGetQueryParams :: "legacy_request \<Rightarrow> string list" where
  "captureGetQueryParams r = (let ids = LrIds r in if length ids = 0 then [] else ids)"

definition LoggingMiddleware :: "(string \<Rightarrow> go_error + string list) \<Rightarrow> string \<Rightarrow> time
    \<Rightarrow> (request_context option \<Rightarrow> legacy_request \<Rightarrow> 's \<Rightarrow> 's) \<Rightarrow> request_context option \<Rightarrow> legacy_request \<Rightarrow> 's \<Rightarrow> 's" where
  "LoggingMiddleware unmarshal new_id start next ctx r s =
     (let traceID = (if LrTrace r = [] then new_id else LrTrace r);
          (r1, ids) = (if LrMethod r = ''POST'' \<or> LrMethod r = ''PUT'' then captureRequestBody unmarshal r
                       else if LrMethod r = ''GET'' then (r, captureGetQueryParams r) else (r, []))
      in next (Some \<lparr>TraceID = traceID, CtxMethod = LrMethod r, RequestIds = ids, StartTime = start\<rparr>) r1 s)"

definition rate_key :: "string \<Rightarrow> string" where
  "rate_key ip = ''ratelimit:'' @ ip"

text \<open>\<open>ip\<close> is the remote address of the request. What the next handler does to Redis is \<open>next\<close>.\<close>

definition RateLimitMiddleware :: "'r legacy_redis \<Rightarrow> ('r \<Rightarrow> 'r \<times> api_response) \<Rightarrow> string \<Rightarrow> 'r \<Rightarrow> 'r \<times> api_response" where
  "RateLimitMiddleware lib next ip r =
     (let key = rate_key ip
      in case GetKeyAsInt lib key r of
           (r1, res) \<Rightarrow>
             (case res of
                Inl err \<Rightarrow>
                  if err \<noteq> ErrRedisNil then (r1, http_Error ''Error checking rate limit'' status_internal_error)
                  else next (SetKeyExpirey lib key (1 * second) (IncrementRedisValue lib key r1))
              | Inr current \<Rightarrow>
                  if current \<ge> 5 then (r1, http_Error ''Too many requests'' status_internal_error)
                  else next (SetKeyExpirey lib key (1 * second) (IncrementRedisValue lib key r1))))"

text \<open>The loop applies the middlewares in turn, so that the last one is the outermost.\<close>

definition applyGlobalMiddleware :: "('h \<Rightarrow> 'h) list \<Rightarrow> 'h \<Rightarrow> 'h" where
  "applyGlobalMiddleware middlewares router = foldl (\<lambda>handler mw. mw handler) router middlewares"

datatype legacy_route = RouteAuth | RouteMarketPrices | RouteSystemIndex

definition legacy_routes :: "string \<rightharpoonup> legacy_route" where
  "legacy_routes = [''/auth'' \<mapsto> RouteAuth, ''/marketprices'' \<mapsto> RouteMarketPrices, ''/systemindex'' \<mapsto> RouteSystemIndex]"

definition authHandler :: "(string \<times> string \<Rightarrow> go_error + string) \<Rightarrow> string \<Rightarrow> api_response" where
  "authHandler gzip_json reqMethod =
     (if reqMethod \<noteq> ''POST'' then http_Error ''Method Not Allowed'' status_method_not_allowed
      else JsonResponse gzip_json (''Authentication successful'', ''fake-jwt-token-12345''))"

section \<open>Limits and lost answers\<close>

lemma dedupe_loop_spec:
  "distinct result \<Longrightarrow> seen = set result \<Longrightarrow>
    distinct (dedupe_loop strs seen result) \<and> set (dedupe_loop strs seen result) = set result \<union> set strs
    \<and> length (dedupe_loop strs seen result) \<le> length result + length strs"
proof (induction strs seen result rule: dedupe_loop.induct)
  case (2 str strs seen result)
  then show ?case by (cases "str \<in> seen") fastforce+
qed simp

text \<open>A request of the earlier API is served as a whole or refused as a whole: the identifiers it works on are at least one
  and at most 500, each of them a number, and those of the request; a GET request asks for each once.\<close>

theorem legacy_request_ids:
  assumes "ExtractIDs req = Inr ids"
  shows "1 \<le> length ids \<and> length ids \<le> 500 \<and> (\<forall>i\<in>set ids. i \<noteq> [] \<and> (\<forall>c\<in>set i. is_digit c))
    \<and> (ApiMethod req = ''GET'' \<and> distinct ids \<and> set ids = set (QueryIds req)
       \<or> ApiMethod req = ''POST'' \<and> BodyIds req = Inr ids)"
proof -
  note d = dedupe_loop_spec [of "[]" "{}" "QueryIds req"]
  have ne: "removeDuplicateIDS (QueryIds req) \<noteq> []" if "QueryIds req \<noteq> []"
    using d that by (auto simp: removeDuplicateIDS_def)
  from assms d ne show ?thesis
    by (auto simp: ExtractIDs_def extractIDsFromGet_def extractIDsFromPost_def removeDuplicateIDS_def maxIDs_def Let_def
        list_all_iff validIDPattern_def Suc_le_eq split: if_splits sum.splits)
qed

theorem legacy_request_ids_witness:
  "ExtractIDs \<lparr>ApiMethod = ''GET'', QueryIds = [''7'', ''7''], BodyIds = Inr []\<rparr> = Inr [''7''] \<and> distinct [''7'']"
proof -
  have e: "ExtractIDs \<lparr>ApiMethod = ''GET'', QueryIds = [''7'', ''7''], BodyIds = Inr []\<rparr> = Inr [''7'']"
    by (simp add: ExtractIDs_def extractIDsFromGet_def validIDPattern_def is_digit_def removeDuplicateIDS_def)
  from legacy_request_ids [OF e] e show ?thesis by auto
qed


text \<open>\<open>strings\<close> reads the string values of a state.\<close>

definition get_ok :: "'r legacy_redis \<Rightarrow> ('r \<Rightarrow> string \<rightharpoonup> string) \<Rightarrow> bool" where
  "get_ok lib strings \<longleftrightarrow> (\<forall>k r. let (r1, res) = lr_Get lib k r
     in strings r1 = strings r \<and> (\<forall>v. res = Inr v \<longrightarrow> strings r k = Some v))"

lemma lookup_indexes_missing:
  assumes "get_ok lib strings"
  shows "lookup_indexes lib ids r = (r1, raws) \<Longrightarrow> i \<in> set ids \<Longrightarrow> strings r (system_key i) = None \<Longrightarrow>
    [] \<in> set raws"
proof (induction ids arbitrary: r r1 raws)
  case (Cons iD ids)
  obtain r2 raw where f: "fetchSystemIndexFromRedis lib iD r = (r2, raw)" by fastforce
  obtain r3 raws1 where l: "lookup_indexes lib ids r2 = (r3, raws1)" by fastforce
  have raws: "raws = raw # raws1" using Cons.prems(1) f l by simp
  have g: "strings r2 = strings r \<and> (strings r (system_key iD) = None \<longrightarrow> raw = [])"
    using assms f unfolding get_ok_def fetchSystemIndexFromRedis_def GetValue_def
    by (fastforce split: prod.splits sum.splits)
  from Cons.prems(2) show ?case
  proof (cases "i = iD")
    case True
    then show ?thesis using g Cons.prems(3) raws by simp
  next
    case False
    then have "i \<in> set ids" using Cons.prems(2) by simp
    from Cons.IH [OF l this] g Cons.prems(3) show ?thesis by (simp add: raws)
  qed
qed simp

text \<open>One unknown system spoils the whole answer. If one of the requested systems is not in Redis, the earlier
  endpoint answers with status 200 and the text of an encoding error (under the headers of a compressed JSON
  body) instead of JSON, whatever the other systems have: the lookup hands on an empty value, which is not JSON.\<close>

theorem unknown_system_spoils_answer:
  assumes get: "get_ok lib strings" and order: "\<forall>l. mset (order l) = mset l"
    and enc: "\<forall>l. [] \<in> set l \<longrightarrow> gzip_json l = Inl err"
    and ids: "ExtractIDs req = Inr ids" and i: "i \<in> set ids" "strings r (system_key i) = None"
  shows "snd (legacy_SystemIndexesHandler lib gzip_json order req r)
    = \<lparr>ApiStatus = 200, ContentType = ''application/json'', ApiBody = ''Error encoding response: '' @ error_text err @ [CHR 0x0A] @ gzip_empty\<rparr>"
proof -
  obtain r1 raws where l: "lookup_indexes lib (order ids) r = (r1, raws)" by fastforce
  have "i \<in> set (order ids)" using order i(1) by (metis set_mset_mset)
  then have "[] \<in> set raws" using lookup_indexes_missing [OF get l _ i(2)] by simp
  moreover have "length raws \<le> length ids"
    using lookup_indexes_length [of lib "order ids" r] order by (simp add: l) (metis order_refl size_mset)
  ultimately show ?thesis
    using enc by (simp add: legacy_SystemIndexesHandler_def ids l JsonResponse_def status_ok_def collect_all)
qed

theorem unknown_system_spoils_answer_witness:
  "snd (legacy_SystemIndexesHandler (memory_legacy [] sample_text) (\<lambda>l. if [] \<in> set l then Inl (ErrText ''json'') else Inr ''[]'') rev
      \<lparr>ApiMethod = ''GET'', QueryIds = [''7''], BodyIds = Inr []\<rparr> empty_memory)
    = \<lparr>ApiStatus = 200, ContentType = ''application/json'', ApiBody = ''Error encoding response: json'' @ [CHR 0x0A] @ gzip_empty\<rparr>"
proof -
  let ?req = "\<lparr>ApiMethod = ''GET'', QueryIds = [''7''], BodyIds = Inr []\<rparr>"
  have ids: "ExtractIDs ?req = Inr [''7'']"
    by (simp add: ExtractIDs_def extractIDsFromGet_def validIDPattern_def is_digit_def removeDuplicateIDS_def)
  have get: "get_ok (memory_legacy [] sample_text) (\<lambda>_. Map.empty)" by (simp add: get_ok_def memory_legacy_def)
  show ?thesis
    using unknown_system_spoils_answer [OF get _ _ ids, of rev "\<lambda>l. if [] \<in> set l then Inl (ErrText ''json'') else Inr ''[]''"
        "ErrText ''json''" "''7''" empty_memory] by simp
qed

section \<open>The rate limit\<close>

text \<open>\<open>hits\<close> is the counter under a key, 0 when there is none; time does not pass.\<close>

definition counter_ok :: "'r legacy_redis \<Rightarrow> ('r \<Rightarrow> string \<Rightarrow> nat) \<Rightarrow> bool" where
  "counter_ok lib hits \<longleftrightarrow> (\<forall>k r. hits (lr_Incr lib k r) = (hits r)(k := hits r k + 1))
     \<and> (\<forall>k d r. hits (lr_Expire lib k d r) = hits r)
     \<and> (\<forall>k r. let (r1, res) = lr_Get lib k r
          in hits r1 = hits r \<and> res = (if hits r k = 0 then Inl ErrRedisNil else Inr (format_nat (hits r k))))"

fun serve_requests :: "'r legacy_redis \<Rightarrow> ('r \<Rightarrow> 'r \<times> api_response) \<Rightarrow> string \<Rightarrow> nat \<Rightarrow> 'r \<Rightarrow> api_response list" where
  "serve_requests lib next ip 0 r = []"
| "serve_requests lib next ip (Suc n) r =
     (case RateLimitMiddleware lib next ip r of (r1, resp) \<Rightarrow> resp # serve_requests lib next ip n r1)"

lemma rate_limit_step:
  assumes ok: "counter_ok lib hits" and c: "hits r (rate_key ip) = c" "int c < 2 ^ 63"
  shows "\<exists>r1. hits r1 = (if c < 5 then (hits r)(rate_key ip := c + 1) else hits r)
    \<and> RateLimitMiddleware lib next ip r = (if c < 5 then next r1 else (r1, http_Error ''Too many requests'' 500))"
proof -
  let ?k = "rate_key ip"
  have law: "case lr_Get lib ?k r of (r1, res) \<Rightarrow> hits r1 = hits r
      \<and> res = (if hits r ?k = 0 then Inl ErrRedisNil else Inr (format_nat (hits r ?k)))"
    using ok unfolding counter_ok_def Let_def case_prod_unfold by blast
  obtain r1 where g: "lr_Get lib ?k r = (r1, if c = 0 then Inl ErrRedisNil else Inr (format_nat c))" "hits r1 = hits r"
    using law c(1) by (cases "lr_Get lib ?k r") auto
  have "atoi (format_nat c) = Some (int c)"
    using atoi_format [of "int c"] c(2) by (simp add: format_int_def in_i64_def)
  then have k: "GetKeyAsInt lib ?k r = (r1, if c = 0 then Inl ErrRedisNil else Inr (int c))"
    using g(1) by (simp add: GetKeyAsInt_def)
  let ?r2 = "lr_Expire lib ?k (1 * second) (lr_Incr lib ?k r1)"
  have r2: "hits ?r2 = (hits r)(?k := c + 1)" using ok g(2) c(1) by (simp add: counter_ok_def)
  show ?thesis
  proof (cases "c < 5")
    case True
    then have "RateLimitMiddleware lib next ip r = next ?r2"
      by (simp add: RateLimitMiddleware_def Let_def k SetKeyExpirey_def IncrementRedisValue_def)
    then show ?thesis using True r2 by (intro exI [of _ ?r2]) simp
  next
    case False
    then have "RateLimitMiddleware lib next ip r = (r1, http_Error ''Too many requests'' 500)"
      by (simp add: RateLimitMiddleware_def Let_def k status_internal_error_def)
    then show ?thesis using False g(2) by (intro exI [of _ r1]) simp
  qed
qed

lemma serve_requests_statuses:
  assumes ok: "counter_ok lib hits" and nxt: "\<forall>r. hits (fst (next r)) = hits r \<and> ApiStatus (snd (next r)) = 200"
  shows "c \<le> 5 \<Longrightarrow> hits r (rate_key ip) = c \<Longrightarrow>
    map ApiStatus (serve_requests lib next ip n r) = replicate (min n (5 - c)) 200 @ replicate (n - (5 - c)) 500"
proof (induction n arbitrary: r c)
  case (Suc n)
  obtain r1 where r1: "hits r1 = (if c < 5 then (hits r)(rate_key ip := c + 1) else hits r)"
    "RateLimitMiddleware lib next ip r = (if c < 5 then next r1 else (r1, http_Error ''Too many requests'' 500))"
    using rate_limit_step [OF ok Suc.prems(2), of "next"] Suc.prems(1) by auto
  show ?case
  proof (cases "c < 5")
    case True
    obtain r2 resp where n: "next r1 = (r2, resp)" by fastforce
    then have "hits r2 (rate_key ip) = c + 1" "ApiStatus resp = 200" using nxt r1(1) True by (metis fst_conv fun_upd_same, metis snd_conv)
    moreover have "5 - c = Suc (5 - (c + 1))" using True by simp
    ultimately have "map ApiStatus (serve_requests lib next ip (Suc n) r)
        = 200 # replicate (min n (5 - (c + 1))) 200 @ replicate (n - (5 - (c + 1))) 500"
      and "min (Suc n) (5 - c) = Suc (min n (5 - (c + 1)))" "Suc n - (5 - c) = n - (5 - (c + 1))"
      using Suc.IH [of "c + 1" r2] True r1(2) n by simp_all
    then show ?thesis by simp
  next
    case False
    then have "c = 5" using Suc.prems(1) by simp
    then show ?thesis using Suc.IH [of 5 r1] Suc.prems(2) r1 by (simp add: http_Error_def)
  qed
qed simp


definition counting_redis :: "(string \<Rightarrow> nat) legacy_redis" where
  "counting_redis =
     \<lparr>lr_HSet = \<lambda>k m r. (r, None), lr_HGetAll = \<lambda>k r. (r, Inr []), lr_ZAdd = \<lambda>k m v r. (r, None),
      lr_ZScore = \<lambda>k m r. (r, Inl ErrRedisNil), lr_ZRangeWithScores = \<lambda>k i j r. (r, Inr []), lr_Set = \<lambda>k v ttl r. (r, None),
      lr_Get = \<lambda>k r. (r, if r k = 0 then Inl ErrRedisNil else Inr (format_nat (r k))),
      lr_Incr = \<lambda>k r. r(k := r k + 1), lr_Decr = \<lambda>k r. r, lr_Expire = \<lambda>k d r. r\<rparr>"


text \<open>The rate limit is the outermost middleware.\<close>

lemma rate_limit_outermost: "applyGlobalMiddleware [logging, limiter] router = limiter (logging router)"
  by (simp add: applyGlobalMiddleware_def)

text \<open>The logging middleware hands the request on as it was.\<close>

lemma captureRequestBody_same: "fst (captureRequestBody un r) = r"
  by (cases r, cases "LrBody r") (simp_all add: captureRequestBody_def)

lemma logging_transparent: "\<exists>ctx1. LoggingMiddleware un nid start nxt ctx r s = nxt (Some ctx1) r s"
  using captureRequestBody_same [of un r]
  by (auto simp: LoggingMiddleware_def Let_def split: prod.splits)

end
