(* ===== verification/Metrics_Logs.thy ===== *)
theory Metrics_Logs
  imports Connections
begin

text \<open>
  The metric collectors of \<open>internal/shared/metrics\<close>, the loggers of \<open>internal/shared/logs/logger.go\<close> and of
  \<open>legacy/logger/logger.go\<close>.

  A set of collectors is an address in \<open>MetricSets\<close>; each of the three package variables holds an address or
  nil. The Prometheus registry is an argument: registering a collector of the set at an address succeeds or
  fails, and \<open>MustRegister\<close> panics at the first failure. A panic is the result \<open>None\<close>.
  The texts of the log level are ASCII.
\<close>

section \<open>Collectors\<close>

datatype metric_kind = Histogram | HistogramBuckets "nat list" | Counter | CounterVec string | Gauge

record metric_opts =
  MetricKind :: metric_kind
  Namespace :: string
  Subsystem :: string
  MetricName :: string

text \<open>\<open>prometheus.BuildFQName\<close>.\<close>

definition fq_name :: "metric_opts \<Rightarrow> string" where
  "fq_name m = Namespace m @ ''_'' @ Subsystem m @ ''_'' @ MetricName m"

definition metric :: "string \<Rightarrow> metric_kind \<Rightarrow> string \<Rightarrow> metric_opts" where
  "metric sub k n = \<lparr>MetricKind = k, Namespace = ''eip'', Subsystem = sub, MetricName = n\<rparr>"

definition industry_metrics :: "metric_opts list" where
  "industry_metrics =
     [metric ''esi'' Histogram ''industry_systems_request_seconds'',
      metric ''esi'' Counter ''industry_systems_bytes_total'',
      metric ''esi'' Counter ''industry_systems_items_total'',
      metric ''esi'' Gauge ''industry_systems_last_updated'',
      metric ''esi'' Gauge ''industry_systems_next_refresh'',
      metric ''esi'' (CounterVec ''category'') ''industry_systems_errors_total'']"

definition prices_metrics :: "metric_opts list" where
  "prices_metrics =
     [metric ''esi'' Histogram ''market_prices_request_seconds'',
      metric ''esi'' Counter ''market_prices_bytes_total'',
      metric ''esi'' Counter ''market_prices_items_total'',
      metric ''esi'' Gauge ''market_prices_last_updated'',
      metric ''esi'' Gauge ''market_prices_next_refresh'',
      metric ''esi'' (CounterVec ''category'') ''market_prices_errors_total'']"

text \<open>The first histogram asks for \<open>prometheus.DefBuckets\<close>, which is also what it would get by default.\<close>

definition api_metrics :: "metric_opts list" where
  "api_metrics =
     [metric ''api'' Histogram ''system_indexes_request_seconds'',
      metric ''api'' Counter ''system_indexes_requests_total'',
      metric ''api'' (HistogramBuckets [1, 5, 10, 25, 50, 100, 250, 500]) ''system_indexes_systems_requested'',
      metric ''api'' Counter ''system_indexes_found_total'',
      metric ''api'' Counter ''system_indexes_not_found_total'',
      metric ''api'' (CounterVec ''system_id'') ''system_indexes_not_found_by_id_total'',
      metric ''api'' (CounterVec ''category'') ''system_indexes_errors_total'']"

datatype metric_group = IndustryGroup | PricesGroup | ApiGroup

fun group_metrics :: "metric_group \<Rightarrow> metric_opts list" where
  "group_metrics IndustryGroup = industry_metrics"
| "group_metrics PricesGroup = prices_metrics"
| "group_metrics ApiGroup = api_metrics"

type_synonym 'g registerer = "nat \<Rightarrow> metric_opts \<Rightarrow> 'g \<Rightarrow> 'g option"

record 'g metrics_state =
  Prom :: 'g
  MetricSets :: "metric_opts list list"
  MetricVar :: "metric_group \<Rightarrow> nat option"

fun MustRegister :: "'g registerer \<Rightarrow> nat \<Rightarrow> metric_opts list \<Rightarrow> 'g \<Rightarrow> 'g \<times> bool" where
  "MustRegister reg p [] g = (g, True)"
| "MustRegister reg p (m # ms) g =
     (case reg p m g of None \<Rightarrow> (g, False) | Some g1 \<Rightarrow> MustRegister reg p ms g1)"

text \<open>An \<open>Init\<close> function behind its test for nil: the variable is assigned before the set is registered.\<close>

definition create_set :: "'g registerer \<Rightarrow> metric_group \<Rightarrow> 'g metrics_state \<Rightarrow> 'g metrics_state \<times> nat option" where
  "create_set reg grp st =
     (let p = length (MetricSets st); metrics = group_metrics grp;
          st1 = st\<lparr>MetricSets := MetricSets st @ [metrics], MetricVar := (MetricVar st)(grp \<mapsto> p)\<rparr>
      in case MustRegister reg p metrics (Prom st1) of
           (g, ok) \<Rightarrow> (st1\<lparr>Prom := g\<rparr>, if ok then Some p else None))"

definition init_set :: "'g registerer \<Rightarrow> metric_group \<Rightarrow> 'g metrics_state \<Rightarrow> 'g metrics_state \<times> nat option" where
  "init_set reg grp st = (case MetricVar st grp of Some p \<Rightarrow> (st, Some p) | None \<Rightarrow> create_set reg grp st)"

definition get_set :: "'g registerer \<Rightarrow> metric_group \<Rightarrow> 'g metrics_state \<Rightarrow> 'g metrics_state \<times> nat option" where
  "get_set reg grp st = (case MetricVar st grp of None \<Rightarrow> init_set reg grp st | Some p \<Rightarrow> (st, Some p))"

definition InitESIIndustrySystems :: "'g registerer \<Rightarrow> 'g metrics_state \<Rightarrow> 'g metrics_state \<times> nat option" where
  "InitESIIndustrySystems reg = init_set reg IndustryGroup"

definition GetESIIndustrySystems :: "'g registerer \<Rightarrow> 'g metrics_state \<Rightarrow> 'g metrics_state \<times> nat option" where
  "GetESIIndustrySystems reg = get_set reg IndustryGroup"

definition InitESIMarketPrices :: "'g registerer \<Rightarrow> 'g metrics_state \<Rightarrow> 'g metrics_state \<times> nat option" where
  "InitESIMarketPrices reg = init_set reg PricesGroup"

definition GetESIMarketPrices :: "'g registerer \<Rightarrow> 'g metrics_state \<Rightarrow> 'g metrics_state \<times> nat option" where
  "GetESIMarketPrices reg = get_set reg PricesGroup"

definition InitAPISystemIndexes :: "'g registerer \<Rightarrow> 'g metrics_state \<Rightarrow> 'g metrics_state \<times> nat option" where
  "InitAPISystemIndexes reg = init_set reg ApiGroup"

definition GetAPISystemIndexes :: "'g registerer \<Rightarrow> 'g metrics_state \<Rightarrow> 'g metrics_state \<times> nat option" where
  "GetAPISystemIndexes reg = get_set reg ApiGroup"

text \<open>A goroutine that calls \<open>GetAPISystemIndexes\<close>: it has not begun, it has found the variable nil, or it is
  done, with a set or by a panic.\<close>

datatype caller = Idle | SawNil | Holds nat | Panicked

inductive caller_step :: "'g registerer \<Rightarrow> metric_group \<Rightarrow> 'g metrics_state \<times> (nat \<Rightarrow> caller) \<Rightarrow> 'g metrics_state \<times> (nat \<Rightarrow> caller) \<Rightarrow> bool"
  for reg grp where
  see_nil: "pc i = Idle \<Longrightarrow> MetricVar st grp = None \<Longrightarrow> caller_step reg grp (st, pc) (st, pc(i := SawNil))"
| see_set: "pc i = Idle \<Longrightarrow> MetricVar st grp = Some p \<Longrightarrow> caller_step reg grp (st, pc) (st, pc(i := Holds p))"
| create: "pc i = SawNil \<Longrightarrow> create_set reg grp st = (st1, r) \<Longrightarrow>
    caller_step reg grp (st, pc) (st1, pc(i := (case r of Some p \<Rightarrow> Holds p | None \<Rightarrow> Panicked)))"

section \<open>Loggers\<close>

datatype log_level = LevelDebug | LevelInfo | LevelWarn | LevelError

definition parseLogLevel :: "string \<Rightarrow> log_level" where
  "parseLogLevel v =
     (let s = map to_lower (trim_space v)
      in if s = ''debug'' then LevelDebug
         else if s = ''warn'' \<or> s = ''warning'' then LevelWarn
         else if s = ''error'' then LevelError
         else LevelInfo)"

record slogger =
  SlogLevel :: log_level
  SlogAttrs :: "(string \<times> string) list"

definition Logger :: "environment \<Rightarrow> slogger" where
  "Logger env = \<lparr>SlogLevel = parseLogLevel (env ''LOG_LEVEL''), SlogAttrs = []\<rparr>"

definition Component :: "environment \<Rightarrow> string \<Rightarrow> slogger" where
  "Component env name = (Logger env)\<lparr>SlogAttrs := SlogAttrs (Logger env) @ [(''component'', name)]\<rparr>"

text \<open>A value of a request's context.\<close>

datatype ctx_value = CtxText string | CtxInt int | CtxOther

type_synonym ctx = "string \<rightharpoonup> ctx_value"

datatype loggerModules = ApiProvider | SchedulerModule | WorkersModule | RedisModule | MessageBrokerModule

definition getCtxValue :: "ctx \<Rightarrow> string \<Rightarrow> string" where
  "getCtxValue ctx key =
     (case ctx key of Some (CtxText val) \<Rightarrow> val | Some (CtxInt val) \<Rightarrow> format_int val | _ \<Rightarrow> ''N/A'')"

definition InitLogger :: "slogger option \<Rightarrow> slogger option" where
  "InitLogger globalLogger =
     (case globalLogger of Some l \<Rightarrow> Some l | None \<Rightarrow> Some \<lparr>SlogLevel = LevelInfo, SlogAttrs = []\<rparr>)"

fun module_attrs :: "ctx \<Rightarrow> loggerModules \<Rightarrow> (string \<times> string) list" where
  "module_attrs ctx ApiProvider =
     [(''package'', ''api''), (''trace_id'', getCtxValue ctx ''trace_id''), (''method'', getCtxValue ctx ''method''),
      (''path'', getCtxValue ctx ''path''), (''remote_ip'', getCtxValue ctx ''remote_ip''),
      (''request_data'', getCtxValue ctx ''request_data'')]"
| "module_attrs ctx SchedulerModule = [(''package'', ''schedule'')]"
| "module_attrs ctx WorkersModule = [(''package'', ''workers'')]"
| "module_attrs ctx RedisModule = [(''package'', ''redis'')]"
| "module_attrs ctx MessageBrokerModule = [(''package'', ''messageService'')]"

text \<open>The logger and the global variable after the call.\<close>

definition GetLogger :: "ctx \<Rightarrow> loggerModules \<Rightarrow> slogger option \<Rightarrow> slogger option \<times> slogger" where
  "GetLogger ctx module globalLogger =
     (let g = InitLogger globalLogger
      in (g, (the g)\<lparr>SlogAttrs := SlogAttrs (the g) @ module_attrs ctx module\<rparr>))"

section \<open>Each set is registered once\<close>

text \<open>What the registry documents: a collector is refused when its full name is taken, and registered otherwise.
  \<open>owner\<close> is the set a registered name belongs to.\<close>

definition registry_ok :: "'g registerer \<Rightarrow> ('g \<Rightarrow> string \<rightharpoonup> nat) \<Rightarrow> bool" where
  "registry_ok reg owner \<longleftrightarrow>
     (\<forall>p m g. case reg p m g of
        None \<Rightarrow> owner g (fq_name m) \<noteq> None
      | Some g1 \<Rightarrow> owner g (fq_name m) = None \<and> owner g1 = (owner g)(fq_name m \<mapsto> p))"

fun run_gets :: "'g registerer \<Rightarrow> metric_group list \<Rightarrow> 'g metrics_state \<Rightarrow> 'g metrics_state \<times> nat option list" where
  "run_gets reg [] st = (st, [])"
| "run_gets reg (grp # grps) st =
     (case get_set reg grp st of (st1, r) \<Rightarrow> (case run_gets reg grps st1 of (st2, rs) \<Rightarrow> (st2, r # rs)))"

definition owned_by :: "('g \<Rightarrow> string \<rightharpoonup> nat) \<Rightarrow> 'g metrics_state \<Rightarrow> metric_group \<Rightarrow> bool" where
  "owned_by owner st grp \<longleftrightarrow> (\<forall>m\<in>set (group_metrics grp). owner (Prom st) (fq_name m) = MetricVar st grp)"

definition metrics_inv :: "('g \<Rightarrow> string \<rightharpoonup> nat) \<Rightarrow> 'g metrics_state \<Rightarrow> bool" where
  "metrics_inv owner st \<longleftrightarrow> (\<forall>grp. owned_by owner st grp) \<and> length (MetricSets st) = card (dom (MetricVar st))"

lemma finite_groups: "finite (A :: metric_group set)"
proof (rule finite_subset)
  show "A \<subseteq> {IndustryGroup, PricesGroup, ApiGroup}" by (auto intro: metric_group.exhaust)
qed simp

lemma names_distinct: "distinct (map fq_name (industry_metrics @ prices_metrics @ api_metrics))"
  by code_simp

lemma group_names:
  "distinct (map fq_name (group_metrics grp))"
  "grp \<noteq> grp1 \<Longrightarrow> fq_name ` set (group_metrics grp) \<inter> fq_name ` set (group_metrics grp1) = {}"
proof -
  have d: "distinct (map fq_name industry_metrics)" "distinct (map fq_name prices_metrics)" "distinct (map fq_name api_metrics)"
    and i: "fq_name ` set industry_metrics \<inter> fq_name ` set prices_metrics = {}"
      "fq_name ` set industry_metrics \<inter> fq_name ` set api_metrics = {}"
      "fq_name ` set prices_metrics \<inter> fq_name ` set api_metrics = {}"
    using names_distinct by (simp_all add: Int_Un_distrib)
  show "distinct (map fq_name (group_metrics grp))" using d by (cases grp) simp_all
  show "grp \<noteq> grp1 \<Longrightarrow> fq_name ` set (group_metrics grp) \<inter> fq_name ` set (group_metrics grp1) = {}"
    using i by (cases grp; cases grp1) (simp_all add: Int_commute)
qed

lemma MustRegister_fresh:
  assumes ok: "registry_ok reg owner"
  shows "distinct (map fq_name ms) \<Longrightarrow> \<forall>m\<in>set ms. owner g (fq_name m) = None \<Longrightarrow>
    \<exists>g1. MustRegister reg p ms g = (g1, True)
      \<and> owner g1 = (\<lambda>n. if n \<in> fq_name ` set ms then Some p else owner g n)"
proof (induction ms arbitrary: g)
  case (Cons m ms)
  have law: "case reg p m g of None \<Rightarrow> owner g (fq_name m) \<noteq> None
      | Some g1 \<Rightarrow> owner g (fq_name m) = None \<and> owner g1 = (owner g)(fq_name m \<mapsto> p)"
    using ok by (simp add: registry_ok_def)
  then obtain g1 where g1: "reg p m g = Some g1" "owner g1 = (owner g)(fq_name m \<mapsto> p)"
    using Cons.prems(2) by (cases "reg p m g") auto
  have d: "distinct (map fq_name ms)" "fq_name m \<notin> fq_name ` set ms" using Cons.prems(1) by simp_all
  have "\<forall>m1\<in>set ms. owner g1 (fq_name m1) = None"
  proof
    fix m1 assume "m1 \<in> set ms"
    then have "fq_name m1 \<noteq> fq_name m" using d(2) by (metis image_eqI)
    then show "owner g1 (fq_name m1) = None" using Cons.prems(2) \<open>m1 \<in> set ms\<close> g1(2) by simp
  qed
  from Cons.IH [OF d(1) this] obtain g2 where "MustRegister reg p ms g1 = (g2, True)"
    "owner g2 = (\<lambda>n. if n \<in> fq_name ` set ms then Some p else owner g1 n)" by blast
  then show ?case using g1 by (simp add: fun_eq_iff)
qed simp

lemma create_set_fresh:
  assumes ok: "registry_ok reg owner" and inv: "metrics_inv owner st" and nil: "MetricVar st grp = None"
  shows "\<exists>st1 p. create_set reg grp st = (st1, Some p) \<and> metrics_inv owner st1 \<and> MetricVar st1 = (MetricVar st)(grp \<mapsto> p)"
proof -
  let ?p = "length (MetricSets st)"
  have free: "\<forall>m\<in>set (group_metrics grp). owner (Prom st) (fq_name m) = None"
    using inv nil by (simp add: metrics_inv_def owned_by_def)
  obtain g where g: "MustRegister reg ?p (group_metrics grp) (Prom st) = (g, True)"
    "owner g = (\<lambda>n. if n \<in> fq_name ` set (group_metrics grp) then Some ?p else owner (Prom st) n)"
    using MustRegister_fresh [OF ok group_names(1) free] by blast
  let ?st1 = "st\<lparr>MetricSets := MetricSets st @ [group_metrics grp], MetricVar := (MetricVar st)(grp \<mapsto> ?p), Prom := g\<rparr>"
  have "owned_by owner ?st1 grp1" for grp1
  proof (cases "grp1 = grp")
    case False
    then have "fq_name m \<notin> fq_name ` set (group_metrics grp)" if "m \<in> set (group_metrics grp1)" for m
      using that group_names(2) by blast
    then show ?thesis using inv False by (simp add: metrics_inv_def owned_by_def g(2))
  qed (simp add: owned_by_def g(2))
  moreover have "card (dom ((MetricVar st)(grp \<mapsto> ?p))) = Suc (card (dom (MetricVar st)))"
    using nil by (simp add: domIff finite_groups)
  ultimately have "metrics_inv owner ?st1" using inv by (simp add: metrics_inv_def)
  moreover have "create_set reg grp st = (?st1, Some ?p)" by (simp add: create_set_def g(1) Let_def)
  ultimately show ?thesis by simp
qed

lemma get_set_ok:
  assumes "registry_ok reg owner" and "metrics_inv owner st"
  shows "\<exists>st1 p. get_set reg grp st = (st1, Some p) \<and> metrics_inv owner st1
    \<and> MetricVar st1 = (MetricVar st)(grp \<mapsto> p) \<and> (MetricVar st grp \<noteq> None \<longrightarrow> st1 = st)"
proof (cases "MetricVar st grp")
  case None
  then show ?thesis using create_set_fresh [OF assms] by (simp add: get_set_def init_set_def)
next
  case (Some p)
  then show ?thesis using assms(2) by (auto simp: get_set_def fun_upd_triv)
qed

lemma run_gets_ok:
  assumes ok: "registry_ok reg owner"
  shows "metrics_inv owner st \<Longrightarrow> \<exists>st1. run_gets reg grps st = (st1, map (MetricVar st1) grps) \<and> metrics_inv owner st1
    \<and> dom (MetricVar st1) = dom (MetricVar st) \<union> set grps \<and> MetricVar st \<subseteq>\<^sub>m MetricVar st1"
proof (induction grps arbitrary: st)
  case (Cons grp grps)
  obtain st1 p where g: "get_set reg grp st = (st1, Some p)" "metrics_inv owner st1"
    "MetricVar st1 = (MetricVar st)(grp \<mapsto> p)" "MetricVar st grp \<noteq> None \<longrightarrow> st1 = st"
    using get_set_ok [OF ok Cons.prems] by blast
  obtain st2 where r: "run_gets reg grps st1 = (st2, map (MetricVar st2) grps)" "metrics_inv owner st2"
    "dom (MetricVar st2) = dom (MetricVar st1) \<union> set grps" "MetricVar st1 \<subseteq>\<^sub>m MetricVar st2"
    using Cons.IH [OF g(2)] by blast
  have p: "MetricVar st2 grp = Some p" using r(4) g(3) by (auto simp: map_le_def dom_def)
  have "MetricVar st \<subseteq>\<^sub>m MetricVar st1"
    using g(3,4) by (cases "MetricVar st grp") (auto simp: map_le_def)
  then have "MetricVar st \<subseteq>\<^sub>m MetricVar st2" using r(4) by (rule map_le_trans)
  then show ?case using g(1,3) r p by auto
qed simp

text \<open>C40: collectors are created and registered once. Starting with nil variables, any sequence of calls of the three
  \<open>Get\<close> functions panics nowhere; every call gives the set its variable holds at the end, all collectors of that set are registered
  as its own, and no more sets were created than groups were asked for.\<close>

theorem metrics_registered_once:
  assumes ok: "registry_ok reg owner" and fresh: "owner (Prom st) = Map.empty" "MetricVar st = Map.empty" "MetricSets st = []"
  shows "\<exists>st1. run_gets reg grps st = (st1, map (MetricVar st1) grps)
    \<and> (\<forall>grp\<in>set grps. \<exists>p. MetricVar st1 grp = Some p \<and> (\<forall>m\<in>set (group_metrics grp). owner (Prom st1) (fq_name m) = Some p))
    \<and> length (MetricSets st1) = card (set grps)"
proof -
  have "metrics_inv owner st" using fresh by (simp add: metrics_inv_def owned_by_def)
  from run_gets_ok [OF ok this, of grps] obtain st1 where r: "run_gets reg grps st = (st1, map (MetricVar st1) grps)"
    "metrics_inv owner st1" and "dom (MetricVar st1) = dom (MetricVar st) \<union> set grps"
    by (elim exE conjE)
  then have d: "dom (MetricVar st1) = set grps" by (simp only: fresh(2) dom_empty Un_empty_left)
  have "\<exists>p. MetricVar st1 grp = Some p \<and> (\<forall>m\<in>set (group_metrics grp). owner (Prom st1) (fq_name m) = Some p)"
    if grp: "grp \<in> set grps" for grp
  proof -
    obtain p where "MetricVar st1 grp = Some p" using grp d by blast
    moreover have "owned_by owner st1 grp" using r(2) by (simp add: metrics_inv_def)
    ultimately show ?thesis by (simp add: owned_by_def)
  qed
  moreover have "length (MetricSets st1) = card (set grps)" using r(2) d by (simp add: metrics_inv_def)
  ultimately show ?thesis using r(1) by blast
qed

section \<open>Two first calls at once\<close>

lemma MustRegister_taken:
  assumes "registry_ok reg owner" and "owner g (fq_name m) \<noteq> None"
  shows "MustRegister reg p (m # ms) g = (g, False)"
proof -
  have "case reg p m g of None \<Rightarrow> owner g (fq_name m) \<noteq> None
      | Some g1 \<Rightarrow> owner g (fq_name m) = None \<and> owner g1 = (owner g)(fq_name m \<mapsto> p)"
    using assms(1) by (simp add: registry_ok_def)
  then have "reg p m g = None" using assms(2) by (cases "reg p m g") simp_all
  then show ?thesis by simp
qed

text \<open>The test for nil is not synchronised: when two first calls have both seen nil, the second panics and leaves the
  variable at its own set, of which nothing is registered; what is counted from then on is not exported.\<close>

theorem racing_metrics_lost:
  assumes ok: "registry_ok reg owner" and fresh: "owner (Prom st) = Map.empty" "MetricVar st = Map.empty" "MetricSets st = []"
  shows "\<exists>st1 pc p. (caller_step reg grp)\<^sup>*\<^sup>* (st, \<lambda>_. Idle) (st1, pc) \<and> pc 1 = Panicked \<and> MetricVar st1 grp = Some p
    \<and> (\<forall>n. owner (Prom st1) n \<noteq> Some p)"
proof -
  let ?pc0 = "\<lambda>_. Idle" let ?pc1 = "?pc0(0 := SawNil)" let ?pc2 = "?pc1(1 := SawNil)"
  have inv: "metrics_inv owner st" using fresh by (simp add: metrics_inv_def owned_by_def)
  obtain st1 p where c: "create_set reg grp st = (st1, Some p)" "metrics_inv owner st1" "MetricVar st1 = [grp \<mapsto> p]"
    using create_set_fresh [OF ok inv] fresh(2) by force
  obtain m ms where m: "group_metrics grp = m # ms"
    by (cases grp) (auto simp: industry_metrics_def prices_metrics_def api_metrics_def)
  have sets: "MetricSets st1 = [group_metrics grp]" "p = 0" "owner (Prom st1) n = Some q \<Longrightarrow> q = 0" for n q
  proof -
    obtain g where g: "MustRegister reg 0 (group_metrics grp) (Prom st) = (g, True)"
      "owner g = (\<lambda>n. if n \<in> fq_name ` set (group_metrics grp) then Some 0 else owner (Prom st) n)"
      using MustRegister_fresh [OF ok group_names(1), of grp "Prom st" 0] fresh(1) by auto
    then have "st1 = st\<lparr>MetricSets := [group_metrics grp], MetricVar := [grp \<mapsto> 0], Prom := g\<rparr>" "p = 0"
      using c(1) fresh(2,3) by (simp_all add: create_set_def Let_def)
    then show "MetricSets st1 = [group_metrics grp]" "p = 0" "owner (Prom st1) n = Some q \<Longrightarrow> q = 0"
      using g(2) fresh(1) by (simp_all split: if_splits)
  qed
  have "m \<in> set (group_metrics grp)" using m by simp
  then have "owner (Prom st1) (fq_name m) \<noteq> None" using c(2,3) unfolding metrics_inv_def owned_by_def by fastforce
  from MustRegister_taken [OF ok this, of 1 ms]
  have c2: "create_set reg grp st1
      = (st1\<lparr>MetricSets := MetricSets st1 @ [group_metrics grp], MetricVar := [grp \<mapsto> 1]\<rparr>, None)"
    using c(3) m sets(1) by (simp add: create_set_def Let_def)
  let ?st2 = "st1\<lparr>MetricSets := MetricSets st1 @ [group_metrics grp], MetricVar := [grp \<mapsto> 1]\<rparr>"
  have "caller_step reg grp (st, ?pc0) (st, ?pc1)" "caller_step reg grp (st, ?pc1) (st, ?pc2)"
    using fresh(2) by (auto intro!: caller_step.see_nil)
  moreover have "caller_step reg grp (st, ?pc2) (st1, ?pc2(0 := Holds p))"
    using caller_step.create [of ?pc2 0 reg grp st] c(1) by fastforce
  moreover have "caller_step reg grp (st1, ?pc2(0 := Holds p)) (?st2, ?pc2(0 := Holds p, 1 := Panicked))"
    using caller_step.create [OF _ c2, of "?pc2(0 := Holds p)" 1] by simp
  ultimately have "(caller_step reg grp)\<^sup>*\<^sup>* (st, ?pc0) (?st2, ?pc2(0 := Holds p, 1 := Panicked))"
    by (meson rtranclp.rtrancl_refl rtranclp.rtrancl_into_rtrancl)
  moreover have "owner (Prom ?st2) n \<noteq> Some 1" for n using sets(3) by fastforce
  ultimately show ?thesis by (intro exI [of _ ?st2] exI [of _ "?pc2(0 := Holds p, 1 := Panicked)"] exI [of _ 1]) simp
qed

section \<open>Levels and attributes\<close>

lemma parseLogLevel_default: "parseLogLevel [] = LevelInfo"
  by code_simp

lemma GetLogger_package:
  "fst (GetLogger ctx module g) = InitLogger g \<and> (\<exists>v. (''package'', v) \<in> set (SlogAttrs (snd (GetLogger ctx module g))))"
  by (cases module) (auto simp: GetLogger_def Let_def)

section \<open>Witness\<close>

definition map_register :: "(string \<rightharpoonup> nat) registerer" where
  "map_register p m g = (if g (fq_name m) = None then Some (g(fq_name m \<mapsto> p)) else None)"

lemma map_register_ok: "registry_ok map_register id"
  by (simp add: registry_ok_def map_register_def)

theorem metrics_registered_once_witness:
  "\<exists>st1. run_gets map_register [ApiGroup, IndustryGroup, ApiGroup] \<lparr>Prom = Map.empty, MetricSets = [], MetricVar = Map.empty\<rparr>
      = (st1, map (MetricVar st1) [ApiGroup, IndustryGroup, ApiGroup]) \<and> length (MetricSets st1) = 2"
proof -
  let ?st = "\<lparr>Prom = Map.empty, MetricSets = [], MetricVar = Map.empty\<rparr>"
  let ?grps = "[ApiGroup, IndustryGroup, ApiGroup]"
  have "card (set ?grps) = 2" by (simp add: card_insert_if)
  moreover obtain st1 where "run_gets map_register ?grps ?st = (st1, map (MetricVar st1) ?grps)"
    "length (MetricSets st1) = card (set ?grps)"
    using metrics_registered_once [OF map_register_ok, of ?st ?grps] by auto
  ultimately show ?thesis by (intro exI [of _ st1]) simp
qed

end
