(* ===== verification/Legacy_Main.thy ===== *)
theory Legacy_Main
  imports Legacy_Api Metrics_Logs
begin

text \<open>
  The process of the earlier version, \<open>legacy/main.go\<close>, with the subscriptions of the workers of
  \<open>legacy/worker\<close> and the request log of \<open>legacy/apiServer/util/util.go\<close>.

  \<open>running\<close> is what happens to the outside of the broker from the subscriptions until the workers have received
  their signal, the API server included. A goroutine that panics ends the process at once; a panic of \<open>main\<close>
  itself runs the deferred calls first.
\<close>

section \<open>The process\<close>

datatype process_end = CrashedSubscribing | PanickedDisconnecting | Exited

text \<open>A worker: its subject, and whether it panics because there is no connection.\<close>

fun subscribe_workers :: "('s, 'c) broker_lib \<Rightarrow> string list \<Rightarrow> ('s, 'c) broker \<Rightarrow> ('s, 'c) broker option" where
  "subscribe_workers lib [] b = Some b"
| "subscribe_workers lib (subject # subjects) b =
     (case SubscribeToMessages lib subject b of
        None \<Rightarrow> None
      | Some (b1, err) \<Rightarrow> subscribe_workers lib subjects b1)"

text \<open>The deferred calls are those of the broker and then of the scheduler. \<open>order\<close> is the order in which the
  goroutines of the workers get to subscribe.\<close>

definition legacy_main :: "('s, 'c) broker_lib \<Rightarrow> (string \<Rightarrow> 'r \<Rightarrow> 'r \<times> 'k \<times> go_error option) \<Rightarrow> (string \<Rightarrow> string)
    \<Rightarrow> (string \<Rightarrow> legacy_task \<Rightarrow> 'q \<Rightarrow> 'q) \<Rightarrow> ('q \<Rightarrow> 'q) \<Rightarrow> ('q \<Rightarrow> 'q) \<Rightarrow> 'q \<Rightarrow> string list \<Rightarrow> (('s, 'c) broker \<Rightarrow> ('s, 'c) broker)
    \<Rightarrow> 'r \<Rightarrow> ('s, 'c) broker \<Rightarrow> 'r \<times> ('s, 'c) broker \<times> 'q option \<times> process_end" where
  "legacy_main lib open_client env add start stop newq order running r b =
     (case legacy_Connect open_client env None r of
        (r1, client, sleeps, up) \<Rightarrow>
          (let b1 = broker_Connect lib env b;
               q = scheduler_Start add start newq
           in case subscribe_workers lib order b1 of
                None \<Rightarrow> (r1, b1, q, CrashedSubscribing)
              | Some b2 \<Rightarrow>
                  (case Disconnect lib (running b2) of
                     (b3, ok) \<Rightarrow>
                       (r1, b3, scheduler_Stop stop q, if ok then Exited else PanickedDisconnecting))))"

text \<open>The entry a handler writes when it is done; \<open>since\<close> is the text of the time since a start.\<close>

definition LogRequestCompletion :: "(time \<Rightarrow> string) \<Rightarrow> time option \<Rightarrow> (string \<times> string) list" where
  "LogRequestCompletion since start =
     [(''status_code'', format_int status_ok), (''duration'', case start of None \<Rightarrow> ''N/A'' | Some t \<Rightarrow> since t)]"

section \<open>How it ends\<close>

lemma subscribe_workers_connected:
  "Instance b = Some c \<Longrightarrow> \<exists>b1. subscribe_workers lib subjects b = Some b1 \<and> Instance b1 = Some c"
proof (induction subjects arbitrary: b)
  case (Cons subject subjects)
  obtain b1 err where "SubscribeToMessages lib subject b = Some (b1, err)" "Instance b1 = Some c"
    using Cons.prems by (cases "br_Subscribe lib c subject (Outside b)") (simp add: SubscribeToMessages_def)
  then show ?case using Cons.IH by simp
qed simp

text \<open>The process never exits in an orderly way. Without a connection to NATS the first worker that subscribes brings it down;
  with one, its last act is the panic of \<open>Disconnect\<close> (with the connection closed and the scheduler stopped).\<close>

theorem legacy_main_ends_in_panic:
  assumes run: "legacy_main lib open_client env add start stop newq order running r b = (r1, b1, q, how)"
    and order: "order \<noteq> []"
  shows "how = (if Instance (broker_Connect lib env b) = None then CrashedSubscribing else PanickedDisconnecting)"
proof -
  obtain r2 k w ok where c: "legacy_Connect open_client env None r = (r2, k, w, ok)" by (metis prod_cases4)
  obtain subject rest where o: "order = subject # rest" using order by (cases order) simp_all
  show ?thesis
  proof (cases "Instance (broker_Connect lib env b)")
    case None
    then have "subscribe_workers lib order (broker_Connect lib env b) = None"
      by (simp add: o SubscribeToMessages_def)
    then show ?thesis using run None by (simp add: legacy_main_def c Let_def)
  next
    case (Some conn)
    obtain b2 where "subscribe_workers lib order (broker_Connect lib env b) = Some b2"
      using subscribe_workers_connected [OF Some] by blast
    then show ?thesis using run Some Disconnect_panics [of lib "running b2"]
      by (cases "Disconnect lib (running b2)") (simp add: legacy_main_def c Let_def)
  qed
qed

text \<open>An outage of NATS at the start has this effect after five attempts.\<close>

lemma broker_loop_down:
  "\<forall>u s. isl (snd (br_Connect lib u s)) \<Longrightarrow> \<exists>s1. broker_loop lib u n sleeps s = (s1, sleeps @ replicate n broker_delay, None)"
proof (induction n arbitrary: sleeps s)
  case (Suc n)
  obtain s1 err where "br_Connect lib u s = (s1, Inl err)"
    using Suc.prems by (metis isl_def prod.collapse)
  then show ?case using Suc.IH [OF Suc.prems, of "sleeps @ [broker_delay]" s1] by (auto simp: replicate_append_same)
qed simp

theorem outage_crashes_workers:
  assumes down: "\<forall>u s. isl (snd (br_Connect lib u s))" and fresh: "Instance b = None"
    and run: "legacy_main lib open_client env add start stop newq worker_subjects running r b = (r1, b1, q, how)"
  shows "how = CrashedSubscribing"
proof -
  have "Instance (broker_Connect lib env b) = None"
  proof (cases "Started b")
    case False
    let ?u = "if env ''NATS_URL'' = [] then ''nats:4222'' else env ''NATS_URL''"
    obtain s1 where "broker_loop lib ?u maxRetries [] (Outside b) = (s1, [] @ replicate maxRetries broker_delay, None)"
      using broker_loop_down [OF down] by blast
    then show ?thesis using fresh False unfolding broker_Connect_def Let_def by simp
  qed (use fresh in \<open>simp add: broker_Connect_def\<close>)
  then show ?thesis using legacy_main_ends_in_panic [OF run] by (simp add: worker_subjects_def)
qed

end
