(* ===== verification/Legacy_Prices.thy ===== *)
theory Legacy_Prices
  imports Legacy_Api
begin

text \<open>
  The way of a market price through the earlier version: \<open>legacy/worker/marketPrices.go\<close> stores what
  \<open>legacy/esi/marketPrices.go\<close> computed, and \<open>legacy/apiServer/endpoints/marketPrices.go\<close> reads it.
  The two sides share the names of the keys and the names of the fields, and nothing else.
\<close>

section \<open>The time of the last refresh\<close>

abbreviation price_score :: "('r \<Rightarrow> string \<Rightarrow> string \<rightharpoonup> float64) \<Rightarrow> int \<Rightarrow> 'r \<Rightarrow> float64 option" where
  "price_score scores tid r \<equiv> scores r ''marketPrices_lastRefresh'' (format_int tid)"

lemma ZAdd_scores:
  assumes "legacy_ok lib txt hashes scores" and "lr_ZAdd lib k t v r = (r1, e)"
  shows "scores r1 = scores r \<or> scores r1 = (scores r)(k := (scores r k)(t \<mapsto> v))"
proof -
  note a = assms(1) [unfolded legacy_ok_def]
  show ?thesis using a [THEN conjunct2, THEN conjunct2, THEN conjunct1, rule_format, of k t v r] assms(2)
    by (auto simp: Let_def)
qed

lemma SaveETags_scores:
  "legacy_ok lib txt hashes scores \<Longrightarrow> SaveETagsAsHash lib key m r = (r1, e) \<Longrightarrow> scores r1 = scores r"
  using HSet_any by (fastforce simp: SaveETagsAsHash_def split: prod.splits option.splits)

lemma refresh_location_score:
  assumes ok: "legacy_ok (Redis_lib libs) txt hashes scores"
    and run: "refresh_location libs now tid loc w = Some (w1, res)"
  shows "price_score scores tid (Store w1) = price_score scores tid (Store w)
    \<or> price_score scores tid (Store w1) = Some (f64_of_int (unix_milli now))"
proof -
  let ?lib = "Redis_lib libs" and ?k = "price_key tid (LocID loc)" and ?ek = "price_etag_key tid (LocID loc)"
  let ?stamp = "f64_of_int (unix_milli now)"
  obtain r1 tags where et: "existing_etags ?lib ?ek (Store w) = (r1, tags)" by fastforce
  note same = existing_etags_same [OF ok et]
  obtain s1 newETags entry where st: "FetchStationPrices (Http libs) (decode_orders libs) loc tid tags (Web w) = Some (s1, newETags, entry)"
    using run by (cases "FetchStationPrices (Http libs) (decode_orders libs) loc tid tags (Web w)")
      (auto simp: refresh_location_def et Let_def)
  show ?thesis
  proof (cases entry)
    case (Inl err)
    then show ?thesis using run same by (auto simp: refresh_location_def et st)
  next
    case (Inr result)
    obtain r2 e2 where z: "SaveToSortedSet ?lib ''marketPrices_lastRefresh'' (format_int tid) ?stamp r1 = (r2, e2)" by fastforce
    obtain r3 e3 where sv: "SaveStructAsHash ?lib (decode_map libs) ?k (AnyStruct (price_struct result)) r2 = (r3, e3)" by fastforce
    obtain r4 e4 where tg: "SaveETagsAsHash ?lib ?ek newETags r3 = (r4, e4)" by fastforce
    have "price_score scores tid r2 = price_score scores tid (Store w) \<or> price_score scores tid r2 = Some ?stamp"
      using ZAdd_scores [OF ok z [unfolded SaveToSortedSet_def]] same by auto
    moreover have "scores r3 = scores r2" "scores r4 = scores r3"
      using SaveStruct_other [OF ok sv] SaveETags_scores [OF ok tg] by auto
    moreover have "Store w1 = r2 \<or> Store w1 = r3 \<or> Store w1 = r4"
      using run by (auto simp: refresh_location_def Let_def et st Inr z sv tg split: option.splits)
    ultimately show ?thesis by auto
  qed
qed

text \<open>The stamps that a refresh may leave.\<close>

definition price_stamps :: "(int \<Rightarrow> time) \<Rightarrow> MarketLocation list \<Rightarrow> float64 option set" where
  "price_stamps clock locs = (\<lambda>loc. Some (f64_of_int (unix_milli (clock (LocID loc))))) ` set locs"

lemma refresh_locations_score:
  assumes ok: "legacy_ok (Redis_lib libs) txt hashes scores"
    and dec: "\<forall>s. distinct (map fst s) \<longrightarrow> decode_map libs s = Inr (map_of s)"
  shows "refresh_locations libs clock tid locs results w = Some (w1, results1) \<Longrightarrow>
    price_score scores tid (Store w1) \<in> insert (price_score scores tid (Store w)) (price_stamps clock locs)
    \<and> (results1 \<noteq> results \<longrightarrow> price_score scores tid (Store w1) \<in> price_stamps clock locs)"
proof (induction locs arbitrary: results w)
  case (Cons loc locs)
  let ?stamp = "Some (f64_of_int (unix_milli (clock (LocID loc))))"
  obtain w2 res where r: "refresh_location libs (clock (LocID loc)) tid loc w = Some (w2, res)"
    using Cons.prems(1) by (auto split: option.splits)
  have st: "price_stamps clock (loc # locs) = insert ?stamp (price_stamps clock locs)" by (simp add: price_stamps_def)
  show ?case
  proof (cases res)
    case None
    then have "refresh_locations libs clock tid locs results w2 = Some (w1, results1)" using Cons.prems(1) r by simp
    from Cons.IH [OF this] show ?thesis using refresh_location_score [OF ok r] unfolding st by auto
  next
    case (Some e)
    then have "refresh_locations libs clock tid locs (results(format_int (LocID loc) \<mapsto> e)) w2 = Some (w1, results1)"
      using Cons.prems(1) r by simp
    from Cons.IH [OF this] show ?thesis using refresh_location_effect [OF ok dec r] Some unfolding st by auto
  qed
qed simp

lemma refresh_location_type: "refresh_location libs now tid loc w = Some (w1, Some e) \<Longrightarrow> EntryTypeID e = tid"
  by (auto simp: refresh_location_def Let_def FetchStationPrices_def
      split: prod.splits option.splits sum.splits)

lemma refresh_locations_type:
  "refresh_locations libs clock tid locs results w = Some (w1, results1) \<Longrightarrow> \<forall>e\<in>ran results. EntryTypeID e = tid \<Longrightarrow>
    \<forall>e\<in>ran results1. EntryTypeID e = tid"
proof (induction locs arbitrary: results w)
  case (Cons loc locs)
  obtain w2 res where r: "refresh_location libs (clock (LocID loc)) tid loc w = Some (w2, res)"
    using Cons.prems(1) by (auto split: option.splits)
  show ?case
  proof (cases res)
    case None
    then show ?thesis using Cons.IH Cons.prems r by simp
  next
    case (Some e)
    have "EntryTypeID e = tid" by (rule refresh_location_type [OF r [unfolded Some]])
    then have "\<forall>e\<in>ran (results(format_int (LocID loc) \<mapsto> e)). EntryTypeID e = tid"
      using Cons.prems(2) by (auto simp: ran_def)
    then show ?thesis using Cons.IH Cons.prems(1) r Some by simp
  qed
qed simp

section \<open>Reading the prices\<close>

lemma GetRedisMap_reads:
  assumes ok: "legacy_ok lib txt hashes scores" and up: "\<forall>k r. \<exists>r1 h. lr_HGetAll lib k r = (r1, Inr h)"
  shows "\<exists>r1. hashes r1 = hashes r \<and> scores r1 = scores r
    \<and> GetRedisMap lib k r = (r1, if hashes r k = Map.empty then Inl (ErrText (''no data found for key: '' @ k)) else Inr (hashes r k))"
proof -
  obtain r1 h where g: "lr_HGetAll lib k r = (r1, Inr h)" using up by blast
  then have "map_of h = hashes r k" "hashes r1 = hashes r \<and> scores r1 = scores r"
    using HGetAll_val [OF ok g] HGetAll_same [OF ok g] by auto
  moreover have "h = [] \<longleftrightarrow> map_of h = Map.empty" by (cases h) auto
  ultimately show ?thesis using g by (intro exI [of _ r1]) (auto simp: GetRedisMap_def)
qed

lemma location_key: "format_int tid @ ''-marketPrices-'' @ format_int l = price_key tid l"
  by (simp add: price_key_def)

lemma read_locations_reads:
  assumes ok: "legacy_ok lib txt hashes scores" and up: "\<forall>k r. \<exists>r1 h. lr_HGetAll lib k r = (r1, Inr h)"
  shows "\<exists>r1 m1. read_locations lib pf (format_int tid) locs m r = (r1, m1)
    \<and> (\<forall>l. l \<notin> LocID ` set locs \<longrightarrow> m1 (format_int l) = m (format_int l))
    \<and> (distinct (map LocID locs) \<longrightarrow> (\<forall>l\<in>LocID ` set locs. hashes r (price_key tid l) \<noteq> Map.empty \<longrightarrow>
         m1 (format_int l) = Some (read_entry pf (hashes r (price_key tid l)))))"
proof (induction locs arbitrary: m r)
  case (Cons loc locs)
  let ?k = "price_key tid (LocID loc)"
  obtain r1 where g: "hashes r1 = hashes r" "GetRedisMap lib ?k r
      = (r1, if hashes r ?k = Map.empty then Inl (ErrText (''no data found for key: '' @ ?k)) else Inr (hashes r ?k))"
    using GetRedisMap_reads [OF ok up] by blast
  define m0 where "m0 = (if hashes r ?k = Map.empty then m
      else m(format_int (LocID loc) \<mapsto> read_entry pf (hashes r ?k)))"
  have step: "read_locations lib pf (format_int tid) (loc # locs) m r = read_locations lib pf (format_int tid) locs m0 r1"
    unfolding read_locations.simps location_key g(2) by (simp add: m0_def)
  obtain r2 m2 where ih: "read_locations lib pf (format_int tid) locs m0 r1 = (r2, m2)"
      "\<forall>l. l \<notin> LocID ` set locs \<longrightarrow> m2 (format_int l) = m0 (format_int l)"
      "distinct (map LocID locs) \<longrightarrow> (\<forall>l\<in>LocID ` set locs. hashes r1 (price_key tid l) \<noteq> Map.empty \<longrightarrow>
         m2 (format_int l) = Some (read_entry pf (hashes r1 (price_key tid l))))"
    using Cons.IH [of m0 r1] by blast
  have other: "m0 (format_int l) = m (format_int l)" if "l \<noteq> LocID loc" for l
    using that by (simp add: m0_def format_int_inj)
  have "m2 (format_int l) = Some (read_entry pf (hashes r (price_key tid l)))"
    if d: "distinct (map LocID (loc # locs))" and l: "l \<in> LocID ` set (loc # locs)" and h: "hashes r (price_key tid l) \<noteq> Map.empty" for l
  proof (cases "l = LocID loc")
    case True
    then have "m2 (format_int l) = m0 (format_int l)" using ih(2) d by simp
    then show ?thesis using True h by (simp add: m0_def)
  next
    case False
    then have "l \<in> LocID ` set locs" "distinct (map LocID locs)" using d l by auto
    then show ?thesis using ih(3) h unfolding g(1) by blast
  qed
  then show ?case using step ih(1,2) other by (intro exI [of _ r2] exI [of _ m2]) simp
qed simp

lemma read_entry_back:
  assumes tok: "text_ok txt pf" and st: "price_stored txt h e"
    and e: "in_i64 (EntryTypeID e)" "f64_finite (Buy e)" "f64_finite (Sell e)"
  shows "read_entry pf h = e"
proof -
  have "PopulateStruct pf h (price_struct \<lparr>EntryTypeID = 0, Buy = 0, Sell = 0\<rparr>) = price_struct e"
    by (rule populate_back [OF tok])
      (use st e in \<open>auto simp: price_stored_def price_struct_def readable_def struct_type_def\<close>)
  then show ?thesis by (simp add: read_entry_def price_struct_def)
qed

lemma parse_int_lax_format: "in_i64 n \<Longrightarrow> parse_int_lax (format_int n) = n"
  using parse_format_int [of 64] by (auto simp: parse_int_lax_def in_i64_def)

section \<open>From the refresh to the API\<close>

text \<open>C33: what a refresh computed is what the endpoint reads. After a refresh of a type, whatever the server sent, the lookup of that type
  succeeds as long as Redis answers; for every location that the refresh has in its result it gives that entry, with its prices,
  and the time it shows is that at which one of the locations was refreshed.\<close>

theorem refreshed_prices_served:
  assumes ok: "legacy_ok (Redis_lib libs) txt hashes scores" and tok: "text_ok txt pf"
    and dec: "\<forall>s. distinct (map fst s) \<longrightarrow> decode_map libs s = Inr (map_of s)"
    and run: "FetchMarketPrices libs clock tid w = Some (w1, results)" and got: "results \<noteq> Map.empty"
    and vals: "in_i64 tid" "\<forall>e\<in>ran results. f64_finite (Buy e) \<and> f64_finite (Sell e)"
    and up: "\<forall>k r. \<exists>r1 h. lr_HGetAll (Redis_lib libs) k r = (r1, Inr h)"
      "\<forall>k t r v. scores r k t = Some v \<longrightarrow> (\<exists>r1. lr_ZScore (Redis_lib libs) k t r = (r1, Inr v))"
  shows "\<exists>r2 dat. fetchFromRedis (Redis_lib libs) pf (format_int tid) (Store w1) = (r2, Inr dat) \<and> DataTypeID dat = tid
    \<and> (\<forall>loc\<in>set DEFAULT_MARKET_LOCATIONS. \<forall>e. results (format_int (LocID loc)) = Some e \<longrightarrow>
         Locations dat (format_int (LocID loc)) = Some e)
    \<and> (\<exists>loc\<in>set DEFAULT_MARKET_LOCATIONS. DataUpdated dat = f64_of_int (unix_milli (clock (LocID loc))))"
proof -
  let ?lib = "Redis_lib libs" and ?locs = DEFAULT_MARKET_LOCATIONS
  note fetched = run [unfolded FetchMarketPrices_def]
  have d: "distinct (map LocID ?locs)" by (simp add: DEFAULT_MARKET_LOCATIONS_def)
  have "price_score scores tid (Store w1) \<in> price_stamps clock ?locs"
    using refresh_locations_score [OF ok dec fetched] got by blast
  then obtain stamp where stamp: "price_score scores tid (Store w1) = Some stamp"
    "\<exists>loc\<in>set ?locs. stamp = f64_of_int (unix_milli (clock (LocID loc)))" by (auto simp: price_stamps_def)
  obtain r1 where z: "lr_ZScore ?lib ''marketPrices_lastRefresh'' (format_int tid) (Store w1) = (r1, Inr stamp)"
    using up(2) stamp(1) by blast
  then have h1: "hashes r1 = hashes (Store w1)" using ZScore_same [OF ok] by blast
  obtain r2 avg adj where a: "fetchAdjustedPrices ?lib pf (format_int tid) r1 = (r2, avg, adj)" by (metis prod_cases3)
  have h2: "hashes r2 = hashes r1"
    using a GetRedisMap_reads [OF ok up(1), of r1 "format_int tid @ ''-adjustedPrice''"]
    by (auto simp: fetchAdjustedPrices_def split: if_splits)
  obtain r3 m where l: "read_locations ?lib pf (format_int tid) ?locs Map.empty r2 = (r3, m)"
    "\<forall>l\<in>LocID ` set ?locs. hashes r2 (price_key tid l) \<noteq> Map.empty \<longrightarrow>
       m (format_int l) = Some (read_entry pf (hashes r2 (price_key tid l)))"
    using read_locations_reads [OF ok up(1), of pf tid ?locs Map.empty r2] d by blast
  have "m (format_int (LocID loc)) = Some e"
    if loc: "loc \<in> set ?locs" and e: "results (format_int (LocID loc)) = Some e" for loc e
  proof -
    let ?h = "hashes (Store w1) (price_key tid (LocID loc))"
    have st: "price_stored txt ?h e"
      using refresh_locations_stored [OF ok dec fetched d] loc e by simp
    then have "?h \<noteq> Map.empty" by (auto simp: price_stored_def price_struct_def)
    moreover have "read_entry pf ?h = e"
      using read_entry_back [OF tok st] vals e refresh_locations_type [OF fetched] by (auto simp: ran_def)
    ultimately show ?thesis using l(2) loc h1 h2 by simp
  qed
  then show ?thesis using z a l(1) stamp(2) parse_int_lax_format [OF vals(1)]
    by (simp add: fetchFromRedis_def GetScoreFromSortedSet_def)
qed

section \<open>Witness\<close>

text \<open>A server with one page of two orders in Jita.\<close>

definition live_libs :: "(unit, memory_state) worker_libs" where
  "live_libs =
     \<lparr>Http = sample_server 1, Redis_lib = memory_legacy [''TypeID'', ''Buy'', ''Sell''] sample_text, decode_map = sample_map,
      decode_orders = page_decode (\<lambda>p. [sample_order True 5, sample_order False 9]), decode_history = \<lambda>_. Inr [],
      decode_prices = \<lambda>_. Inr [], decode_systems = \<lambda>_. Inr [], marshal_index = \<lambda>_. Inr [], parse_date = \<lambda>_. None\<rparr>"

definition live_entry :: "int \<Rightarrow> MarketLocation \<Rightarrow> DBMarketPriceEntry" where
  "live_entry tid loc =
     (if StationID loc = 60003760 then \<lparr>EntryTypeID = tid, Buy = 5, Sell = 9\<rparr> else \<lparr>EntryTypeID = tid, Buy = 0, Sell = 0\<rparr>)"

lemma live_location: "\<exists>w1. refresh_location live_libs now tid loc w = Some (w1, Some (live_entry tid loc))"
proof (rule memory_location [where U = "[''TypeID'', ''Buy'', ''Sell'']"])
  fix tags s
  let ?items = "\<lambda>p. [sample_order True 5, sample_order False 9]"
  have "fetch_order 1 = [1]" by (simp add: fetch_order_def)
  then obtain s1 where "fetchRegionPrices (sample_server 1) (page_decode ?items) loc tid tags s = Some (s1, tags_to (\<lambda>_. []) 1, Inr (?items 1))"
    using region_fetched [OF sample_serves, of 1 ?items loc tid tags s] by auto
  moreover have "getBestBuyAndSellPrices [sample_order True 5] [sample_order False 9] = (5, 9)" by code_simp
  moreover have "getBestBuyAndSellPrices [] [] = (0, 0)" by (simp add: getBestBuyAndSellPrices_def f64_eq_def f64_nan_def f64_abs_def f64_consts)
  ultimately show "\<exists>s1 newETags. FetchStationPrices (Http live_libs) (decode_orders live_libs) loc tid tags s
      = Some (s1, newETags, Inr (live_entry tid loc))"
    by (simp add: live_libs_def FetchStationPrices_def live_entry_def sample_order_def Let_def)
qed (simp_all add: live_libs_def)

lemma live_results: "\<exists>w1 m. FetchMarketPrices live_libs (\<lambda>_. 0) tid w = Some (w1, m)
  \<and> m = [''1'' \<mapsto> live_entry tid (DEFAULT_MARKET_LOCATIONS ! 0), ''2'' \<mapsto> live_entry tid (DEFAULT_MARKET_LOCATIONS ! 1),
         ''3'' \<mapsto> live_entry tid (DEFAULT_MARKET_LOCATIONS ! 2)]"
proof -
  have f: "format_int 1 = ''1''" "format_int 2 = ''2''" "format_int 3 = ''3''" by code_simp+
  obtain w2 w3 w4 where l: "refresh_location live_libs 0 tid (DEFAULT_MARKET_LOCATIONS ! 0) w = Some (w2, Some (live_entry tid (DEFAULT_MARKET_LOCATIONS ! 0)))"
    "refresh_location live_libs 0 tid (DEFAULT_MARKET_LOCATIONS ! 1) w2 = Some (w3, Some (live_entry tid (DEFAULT_MARKET_LOCATIONS ! 1)))"
    "refresh_location live_libs 0 tid (DEFAULT_MARKET_LOCATIONS ! 2) w3 = Some (w4, Some (live_entry tid (DEFAULT_MARKET_LOCATIONS ! 2)))"
    using live_location by meson
  have locs: "DEFAULT_MARKET_LOCATIONS = map (\<lambda>i. DEFAULT_MARKET_LOCATIONS ! i) [0, 1, 2]" by (simp add: DEFAULT_MARKET_LOCATIONS_def)
  have ids: "LocID (DEFAULT_MARKET_LOCATIONS ! 0) = 1" "LocID (DEFAULT_MARKET_LOCATIONS ! 1) = 2" "LocID (DEFAULT_MARKET_LOCATIONS ! 2) = 3"
    by (simp_all add: DEFAULT_MARKET_LOCATIONS_def)
  show ?thesis unfolding FetchMarketPrices_def by (subst locs) (simp only: list.map refresh_locations.simps l option.case prod.case ids f, simp)
qed

theorem refreshed_prices_served_witness:
  "\<exists>w1 results r2 dat. FetchMarketPrices live_libs (\<lambda>_. 0) 34 \<lparr>Web = (), Store = empty_memory\<rparr> = Some (w1, results)
     \<and> fetchFromRedis (Redis_lib live_libs) sample_float (format_int 34) (Store w1) = (r2, Inr dat)
     \<and> Locations dat ''1'' = Some \<lparr>EntryTypeID = 34, Buy = 5, Sell = 9\<rparr>"
proof -
  let ?w = "\<lparr>Web = (), Store = empty_memory\<rparr>" and ?loc = "\<lambda>i. DEFAULT_MARKET_LOCATIONS ! i"
  obtain w1 results where r: "FetchMarketPrices live_libs (\<lambda>_. 0) 34 ?w = Some (w1, results)"
    "results = [''1'' \<mapsto> live_entry 34 (?loc 0), ''2'' \<mapsto> live_entry 34 (?loc 1), ''3'' \<mapsto> live_entry 34 (?loc 2)]"
    using live_results by blast
  have dec: "\<forall>s. distinct (map fst s) \<longrightarrow> decode_map live_libs s = Inr (map_of s)" by (simp add: live_libs_def sample_map_def)
  have ok: "legacy_ok (Redis_lib live_libs) sample_text (memory_hashes [''TypeID'', ''Buy'', ''Sell'']) Scores"
    using memory_legacy_ok by (simp add: live_libs_def)
  have got: "results \<noteq> Map.empty" by (simp add: r(2) fun_eq_iff) (metis option.distinct(1))
  have "f64_finite 0" "f64_finite 5" "f64_finite 9" by (simp_all add: f64_finite_def f64_abs_def inf_bits_def)
  then have fin: "\<forall>e\<in>ran results. f64_finite (Buy e) \<and> f64_finite (Sell e)"
    by (auto simp: r(2) ran_def live_entry_def split: if_splits)
  have up: "\<forall>k r. \<exists>r1 h. lr_HGetAll (Redis_lib live_libs) k r = (r1, Inr h)"
    "\<forall>k t r v. Scores r k t = Some v \<longrightarrow> (\<exists>r1. lr_ZScore (Redis_lib live_libs) k t r = (r1, Inr v))"
    by (simp_all add: live_libs_def memory_legacy_def)
  have tid: "in_i64 34" by (simp add: in_i64_def)
  obtain r2 dat where d: "fetchFromRedis (Redis_lib live_libs) sample_float (format_int 34) (Store w1) = (r2, Inr dat)"
    "\<forall>loc\<in>set DEFAULT_MARKET_LOCATIONS. \<forall>e. results (format_int (LocID loc)) = Some e \<longrightarrow>
         Locations dat (format_int (LocID loc)) = Some e"
    using refreshed_prices_served [OF ok sample_text_ok dec r(1) got tid fin up] by blast
  have "?loc 0 \<in> set DEFAULT_MARKET_LOCATIONS" "format_int (LocID (?loc 0)) = ''1''"
    by (simp add: DEFAULT_MARKET_LOCATIONS_def, code_simp)
  moreover have "results ''1'' = Some \<lparr>EntryTypeID = 34, Buy = 5, Sell = 9\<rparr>"
    by (simp add: r(2) live_entry_def DEFAULT_MARKET_LOCATIONS_def)
  ultimately have "Locations dat ''1'' = Some \<lparr>EntryTypeID = 34, Buy = 5, Sell = 9\<rparr>" using d(2) by metis
  then show ?thesis using r(1) d(1) by blast
qed

end
