(* ===== verification/Spec2Isabelle.thy ===== *)
theory Spec2Isabelle
  imports Discovery_Lock Ws_Server Auth Legacy_Main Legacy_Prices
begin

text \<open>
  Eve Industry Planner (standalone): verification development.

  The program keeps game data of the EVE Online API (ESI) in Redis and serves them over HTTP. The scheduler
  service (\<open>cmd/scheduler\<close>) publishes a message on a NATS JetStream subject when a refresh is due; a
  subscriber of the worker service (\<open>cmd/worker\<close>) fetches the message and runs the refresh task of this data
  (\<open>internal/tasks/esi\<close>), which downloads through the rate-limited ESI client (\<open>internal/core/esi\<close>), stores every item,
  the ETag and a stamp in Redis (\<open>internal/core/redis\<close>) and settles the message; the API service (\<open>cmd/api\<close>)
  reads Redis. \<open>legacy\<close> is the earlier version of the same program in one process, with its own download,
  storage, broker, workers and API.

  \<^bold>\<open>Conventions.\<close> A definition has the name of the function or struct it translates; loops and parts of a long
  function have names of their own. A struct is a record, an error is a value of \<open>go_error\<close> (a chain of wrapped
  errors) in a sum or option, a panic is \<open>None\<close>. What the code mutates is passed in and returned. Each
  reading of the clock is an argument, in the order of the code. Third-party code is an argument: go-redis
  (\<open>redis_client\<close>, \<open>legacy_redis\<close>), JetStream (\<open>jetstream\<close> and the answers a message gives), gocron, the cron and
  WebSocket libraries, \<open>rate.Limiter\<close>, the HTTP transport, JWT, PEM and X.509, Prometheus registration, and the JSON
  codecs. What a theorem needs of one is a hypothesis with a name (\<open>redis_ok\<close>, \<open>legacy_ok\<close>, \<open>gocron_ok\<close>, \<open>text_ok\<close>),
  which states documented behaviour; the witnesses instantiate it with a concrete store.

  \<^bold>\<open>Shared.\<close>
  \<^item> \<open>Go_Base\<close>: integers with wrap-around, time, strings and the library functions on them; \<open>Go_Float\<close>: \<open>float64\<close>
    comparison, conversion and rounding on bit patterns; \<open>Esi_Errors\<close>: error chains and \<open>RateLimitError\<close>.

  \<^bold>\<open>ESI client\<close> (\<open>internal/core/esi/rate_limited_client.go\<close>).
  \<^item> \<open>Token_Window\<close>: the specification of a floating-window bucket, and the locale \<open>window_bucket\<close> in which
    spending is bounded for any sequence of requests.
  \<^item> \<open>Group_Limiter\<close>: the bucket of one group. It implements the window test and interprets the locale; a
    full bucket recovers; usage reported by the server is forgotten (a flaw).
  \<^item> \<open>Esi_Client\<close>: the client over a store of limiters, how a path finds its limiter and how a response
    discovers a group. \<open>Esi_Requests\<close>: \<open>Do\<close>, \<open>DoRequest\<close>, headers and test mode; groups stay separate in every
    reachable client, a 429 blocks its path, \<open>Do\<close> refines \<open>DoRequest\<close>.
  \<^item> \<open>Discovery_Lock\<close>: concurrent calls as interleaved steps and the mutex of an unknown path.

  \<^bold>\<open>Messages, storage, refresh.\<close>
  \<^item> \<open>Nats_Core\<close> (\<open>internal/core/nats\<close>, \<open>cmd/worker/jetstream_wrapper.go\<close>): calls on a message, the backoff
    of a rejection, streams and consumers. The contract of a message is the locale \<open>message_acker\<close>.
  \<^item> \<open>Redis_Core\<close> (\<open>internal/core/redis\<close>): saved items, ETags, stamps and the refresh lock; the locale \<open>cache_keys\<close>
    holds what the two families of keys share, and is interpreted for both.
  \<^item> \<open>Esi_Stream\<close>: the streaming download with its retries, and the locale \<open>esi_interface\<close> (\<open>client_interface.go\<close>),
    interpreted on the client's \<open>Do\<close>. \<open>Esi_Refresh\<close>: the refresh tasks in the locale \<open>refresh_family\<close>, interpreted for
    system indexes and for adjusted prices: a message is settled once, a new ETag means a complete save, the lock is
    given back; and two faults of the order of these writes.
  \<^item> \<open>Worker_Subscriber\<close> (\<open>cmd/worker/subscriber.go\<close>): the fetch loop and the pool as a step relation; no message is
    lost or settled twice in any interleaving (locale \<open>settling_task\<close>).

  \<^bold>\<open>Scheduler.\<close>
  \<^item> \<open>Task_Scheduler\<close> (\<open>cmd/scheduler/handler.go\<close>): cron jobs, one-time jobs, their records in Redis and the
    requests; a job runs once, survives a restart, and a reused identifier leaks a job (a flaw). \<open>Job_Registry\<close>:
    \<open>registry.go\<close> and the start.

  \<^bold>\<open>API and processes.\<close>
  \<^item> \<open>System_Index_Api\<close>: the system-index handler, which requests it accepts and what it answers. \<open>Api_Server\<close>: the
    middleware chain and the routes. \<open>Auth\<close>: the exchange of an external for an internal token.
  \<^item> \<open>Connections\<close>: configuration and the three connection loops (locale \<open>connector\<close>). \<open>Services\<close>: start and
    shutdown of the services. \<open>Ws_Server\<close>: the WebSocket loop, the signal context and the shutdowns that run beside
    one another. \<open>Metrics_Logs\<close>: collectors and loggers.

  \<^bold>\<open>Earlier version\<close> (\<open>legacy\<close>).
  \<^item> \<open>Legacy_Requests\<close>: the paged download, which pages are fetched, and when it never returns. \<open>Legacy_Market\<close>: prices
    and history. \<open>Legacy_Redis\<close>: storage and \<open>PopulateStruct\<close>. \<open>Legacy_Broker\<close>: broker, periodic tasks, cron table.
    \<open>Legacy_Worker\<close>: the message handlers. \<open>Legacy_Tokens\<close>: tokens and the authentication endpoint. \<open>Legacy_Api\<close>: the
    endpoints, with the goroutines of the market-price endpoint as a step relation. \<open>Legacy_Prices\<close>: what a worker stored
    is what the endpoint reads. \<open>Legacy_Main\<close>: the process.

  \<^bold>\<open>This theory\<close> holds what spans the services: the system indexes that ESI sent are what the API
  answers, and what the scheduler publishes reaches the subscriber of that task.

  \<^bold>\<open>Loops and bounds.\<close> No fuel is used. Retries are bounded by the code (\<open>maxAttempts\<close> 4 in the stream, three
  real attempts of a connection). Three loops may run for ever and are partial functions into \<open>option\<close>: \<open>scan_keys\<close>
  (a Redis \<open>SCAN\<close> that need not return to cursor 0), \<open>pages_loop\<close> (a send to a full channel) and \<open>ws_loop\<close>; a
  theorem that says one of them returns proves \<open>Some\<close>. A worker's task is one step of \<open>worker_step\<close>; a call of the
  ESI client is split at its locks and network calls in \<open>Discovery_Lock\<close>.

  \<^bold>\<open>Not modelled.\<close> What log calls print; the tuning of the HTTP transport (\<open>tunedTransport\<close>); contexts and
  deadlines as such, which show as failing calls; unsynchronised access to Go maps, of which the model has the
  order but not the crash; the message types of \<open>internal/core/nats/messages.go\<close> that nothing uses; listening on ports;
  \<open>cmd/web\<close>, which prints one line; the endless loops around one batch of scheduler requests.
\<close>

section \<open>From the refresh to the API\<close>

lemma get_request:
  assumes "valid_id idStr"
  shows "acceptable \<lparr>ApiMethod = ''GET'', QueryIds = [idStr], BodyIds = b\<rparr>"
    and "requested_ids \<lparr>ApiMethod = ''GET'', QueryIds = [idStr], BodyIds = b\<rparr> = Inr [idStr]"
  using assms by (simp_all add: acceptable_def requested_ids_def extractSystemIDsFromGet_def maxSystemIDs_def)

text \<open>C24: what ESI sent is what the API serves. After a run of the system-index refresh that changed the stored
  ETag, and as long as the cache holds what that run left, a GET request for any system of the response is
  answered with 200 and the JSON of a normalised item of that system (as much of it as its stored JSON
  keeps, \<open>canon\<close>).\<close>

theorem refreshed_index_served:
  fixes env :: "('b, ESIIndustrySystem) stream_env"
  assumes ok: "redis_ok rc db" and up: "redis_up rc"
    and run: "st' = RefreshSystemIndexes rc marshal env (Some (client_call envs)) clk st"
    and changed: "db (Redis st') industry_etag_key \<noteq> db (Redis st) industry_etag_key"
    and codec: "\<forall>x t. marshal x = Inr t \<longrightarrow> unmarshal t = Inr (canon x)"
    and cache: "db (ApiRedis s) = db (Redis st')"
  shows "\<exists>(resp :: 'b http_response) body items.
    StatusCode resp = 200 \<and> map fst (elements (json_of env body)) = map Inr items
    \<and> (\<forall>x\<in>set items. \<forall>idStr out b. valid_id idStr \<and> id_value idStr = SystemID x \<longrightarrow>
        (\<exists>y\<in>set items. SystemID y = SystemID x
          \<and> (encode [idStr \<mapsto> canon (normalize_system (unix_milli (stream_now env)) y)] = Inr out \<longrightarrow>
             snd (SystemIndexesHandler rc unmarshal encode elapsed
               \<lparr>ApiMethod = ''GET'', QueryIds = [idStr], BodyIds = b\<rparr> s)
             = \<lparr>ApiStatus = 200, ContentType = ''application/json'', ApiBody = out\<rparr>)))"
proof -
  let ?norm = "normalize_system (unix_milli (stream_now env))"
  obtain resp :: "'b http_response" and body items where r: "StatusCode resp = status_ok"
      "map fst (elements (json_of env body)) = map Inr items"
      "\<forall>x\<in>set items. \<exists>y\<in>set items. SystemID y = SystemID x \<and>
        (\<exists>t. marshal (?norm y) = Inr t \<and> db (Redis st') (industry_index_key (SystemID x)) = Some t)"
    using etag_change_complete [OF ok run changed] by blast
  have "\<exists>y\<in>set items. SystemID y = SystemID x \<and> (encode [idStr \<mapsto> canon (?norm y)] = Inr out \<longrightarrow>
      snd (SystemIndexesHandler rc unmarshal encode elapsed \<lparr>ApiMethod = ''GET'', QueryIds = [idStr], BodyIds = b\<rparr> s)
        = \<lparr>ApiStatus = 200, ContentType = ''application/json'', ApiBody = out\<rparr>)"
    if x: "x \<in> set items" and idStr: "valid_id idStr" "id_value idStr = SystemID x" for x idStr out b
  proof -
    obtain y t where y: "y \<in> set items" "SystemID y = SystemID x" "marshal (?norm y) = Inr t"
      "db (Redis st') (industry_index_key (SystemID x)) = Some t" using r(3) x by blast
    have served: "served_index unmarshal (db (ApiRedis s)) idStr = canon (?norm y)"
      using y(4) codec [rule_format, OF y(3)] idStr(2) cache by (simp add: served_index_def)
    have one: "(\<lambda>i. if i \<in> set [idStr] \<and> valid_id i then Some (served_index unmarshal (db (ApiRedis s)) i) else None)
        = [idStr \<mapsto> canon (?norm y)]"
      using served idStr(1) by (auto simp: fun_eq_iff)
    show ?thesis
    proof (intro bexI [OF _ y(1)] conjI y(2) impI)
      assume "encode [idStr \<mapsto> canon (?norm y)] = Inr out"
      then show "snd (SystemIndexesHandler rc unmarshal encode elapsed
            \<lparr>ApiMethod = ''GET'', QueryIds = [idStr], BodyIds = b\<rparr> s)
          = \<lparr>ApiStatus = 200, ContentType = ''application/json'', ApiBody = out\<rparr>"
        using acceptable_answer [where encode = encode and unmarshal = unmarshal and s = s and body = out
            and elapsed = elapsed, OF ok up get_request(1) [OF idStr(1)] get_request(2) [OF idStr(1)] _ prod.collapse [symmetric], of b]
        unfolding one by blast
    qed
  qed
  then show ?thesis using r(1,2) unfolding status_ok_def by blast
qed

theorem refreshed_index_served_witness:
  "snd (SystemIndexesHandler memory_redis
      (\<lambda>t. case parse_int 32 t of None \<Rightarrow> Inl ErrRedisNil | Some v \<Rightarrow> Inr (blank_index (word_of_int v)))
      (\<lambda>_. Inr ''{}'') 0 \<lparr>ApiMethod = ''GET'', QueryIds = [''30000142''], BodyIds = Inr []\<rparr>
      \<lparr>ApiRedis = Redis (sample_refresh memory_redis 200), ApiMetrics = []\<rparr>)
   = \<lparr>ApiStatus = 200, ContentType = ''application/json'', ApiBody = ''{}''\<rparr>"
proof -
  let ?un = "\<lambda>t. case parse_int 32 t of None \<Rightarrow> Inl ErrRedisNil | Some v \<Rightarrow> Inr (blank_index (word_of_int v))"
  let ?s = "\<lparr>ApiRedis = Redis (sample_refresh memory_redis 200), ApiMetrics = []\<rparr>"
  have sint: "- (2 ^ 31) \<le> sint (n :: int32) \<and> sint n < 2 ^ 31" for n
    using sint_range_size [of n] by (simp add: word_size)
  have codec: "\<forall>(x :: SystemIndexes) t. Inr (format_int (sint (SolarSystemID x))) = (Inr t :: go_error + string)
      \<longrightarrow> ?un t = Inr (blank_index (SolarSystemID x))"
    using parse_format_int [of 32] sint by auto
  have changed: "Redis (sample_refresh memory_redis 200) industry_etag_key \<noteq> Redis sample_task industry_etag_key"
    by (simp add: sample_new_etag sample_task_def)
  have p: "parse_int 32 ''30000142'' = Some 30000142" by (simp add: parse_int_def parse_nat_def digit_val_def Let_def)
  have idStr: "valid_id ''30000142''" "id_value ''30000142'' = SystemID sample_system"
    using p by (simp_all add: valid_id_def validIDPattern_def is_digit_def id_value_def sample_system_def)
  have js: "json_of (sample_stream [sample_system]) b = json_of (sample_stream [sample_system]) ()" for b
    by simp
  have cache: "ApiRedis ?s = Redis (sample_refresh memory_redis 200)" by simp
  from refreshed_index_served [where db = "\<lambda>r. r" and s = ?s and encode = "\<lambda>_. Inr ''{}''" and unmarshal = ?un
      and canon = "\<lambda>x. blank_index (SolarSystemID x)" and elapsed = 0,
      OF memory_redis_ok memory_redis_up sample_refresh_def changed codec cache]
  show ?thesis
  proof (elim exE conjE)
    fix resp :: "unit http_response" and body items
    assume "map fst (elements (json_of (sample_stream [sample_system]) body)) = map Inr items"
      and all: "\<forall>x\<in>set items. \<forall>idStr out b. valid_id idStr \<and> id_value idStr = SystemID x \<longrightarrow>
        (\<exists>y\<in>set items. SystemID y = SystemID x
          \<and> (Inr ''{}'' = (Inr out :: go_error + string) \<longrightarrow>
             snd (SystemIndexesHandler memory_redis ?un (\<lambda>_. Inr ''{}'') 0
               \<lparr>ApiMethod = ''GET'', QueryIds = [idStr], BodyIds = b\<rparr> ?s)
             = \<lparr>ApiStatus = 200, ContentType = ''application/json'', ApiBody = out\<rparr>))"
    then have "sample_system \<in> set items" by (auto simp: sample_stream_def)
    with all idStr show ?thesis by blast
  qed
qed

section \<open>From the scheduler to the worker\<close>

text \<open>A trigger reaches its task. What the handler of a scheduled task publishes goes to a subject that is
  the filter of the subscriber that runs the refresh of this data, and is not the filter of the other; the worker's
  stream has exactly these two subjects, and the two subscribers fetch from it under different durable names; and a
  schedule request goes to the scheduler's own stream alone. Both handlers stand for requestable task types.\<close>

theorem trigger_reaches_task:
  "industry_handler publish data j = publish (Subject (SubscribeSystemIndexes rc marshal env envs clk)) ''{}'' j
   \<and> prices_handler publish data j = publish (Subject (SubscribeAdjustedPrices rc pmarshal penv envs clk)) ''{}'' j
   \<and> set (Subjects (hd worker_streams)) =
        {FilterSubject (subscriber_consumer (SubscribeSystemIndexes rc marshal env envs clk)),
         FilterSubject (subscriber_consumer (SubscribeAdjustedPrices rc pmarshal penv envs clk))}
   \<and> FilterSubject (subscriber_consumer (SubscribeSystemIndexes rc marshal env envs clk))
       \<noteq> FilterSubject (subscriber_consumer (SubscribeAdjustedPrices rc pmarshal penv envs clk))
   \<and> Durable (subscriber_consumer (SubscribeSystemIndexes rc marshal env envs clk))
       \<noteq> Durable (subscriber_consumer (SubscribeAdjustedPrices rc pmarshal penv envs clk))
   \<and> SubStream (SubscribeSystemIndexes rc marshal env envs clk) = StreamName (hd worker_streams)
   \<and> SubStream (SubscribeAdjustedPrices rc pmarshal penv envs clk) = StreamName (hd worker_streams)
   \<and> SubjectSchedulerSchedule \<in> set (Subjects scheduler_stream)
   \<and> SubjectSchedulerSchedule \<notin> set (Subjects (hd worker_streams))
   \<and> StreamName scheduler_stream \<noteq> StreamName (hd worker_streams)
   \<and> dom (handlers (ScheduleAdjustedPricesRefresh RegisterHandler publish
        (ScheduleIndustrySystemsRefresh RegisterHandler publish (NewTaskScheduler g r j)))) = set requestableTaskTypes"
  unfolding task_scheduler.both_registered
  by (auto simp: industry_handler_def prices_handler_def PublishEmptyMessage_def SubscribeSystemIndexes_def
      SubscribeAdjustedPrices_def subscriber_consumer_def worker_streams_def scheduler_stream_def
      SubjectRefreshSystemIndexes_def SubjectRefreshAdjustedPrices_def SubjectSchedulerSchedule_def
      ConsumerWorkerSystemIndexes_def ConsumerWorkerAdjustedPrices_def StreamESIRefresh_def StreamScheduler_def
      NewTaskScheduler_def requestableTaskTypes_def)

end
